theory Spec2Isabelle
  imports Main "HOL-Library.Sublist"
begin

section \<open>Strings of the JavaScript source\<close>

text \<open>
  The orchestration engine of \<^verbatim>\<open>src/index.js\<close> works on JavaScript strings. A string is
  modelled by its UTF-8 encoding, one \<^typ>\<open>char\<close> per byte: concatenation, equality,
  substring search and the ASCII digits \<^verbatim>\<open>\d\<close> are the same on both sides of the encoding.
  White space (\<^verbatim>\<open>\s\<close>, \<^verbatim>\<open>trim\<close>) is the ECMAScript set, written as byte sequences.
  \<^verbatim>\<open>toLowerCase\<close> maps every character whose lower case has a character of U+0000..U+00FF:
  the letters of that range and U+0130, U+0178, U+1E9E, U+212A and U+212B. The lower case of any
  other character lies outside U+0000..U+00FF, and that character is kept as it is: the source
  uses a lower-cased string only to test it against keywords, digits and white space of
  U+0000..U+00FF, and these tests do not tell the two apart.
\<close>

definition js_includes :: "string \<Rightarrow> string \<Rightarrow> bool" where
  \<comment> \<open>\<^verbatim>\<open>s.includes(sub)\<close>\<close>
  "js_includes s sub = sublist sub s"

fun split_first :: "string \<Rightarrow> string \<Rightarrow> (string \<times> string) option" where
  \<comment> \<open>the text before and after the leftmost occurrence of \<open>n\<close>\<close>
  "split_first n [] = (if n = [] then Some ([], []) else None)"
| "split_first n (c # cs) =
     (if prefix n (c # cs) then Some ([], drop (length n) (c # cs))
      else (case split_first n cs of
              None \<Rightarrow> None
            | Some (b, a) \<Rightarrow> Some (c # b, a)))"

lemma split_first_Some: "split_first n s = Some (b, a) \<Longrightarrow> s = b @ n @ a"
proof (induction s arbitrary: b)
  case Nil
  then show ?case by (simp split: if_splits)
next
  case (Cons c cs)
  show ?case
  proof (cases "prefix n (c # cs)")
    case True
    with Cons.prems have "b = []" and "a = drop (length n) (c # cs)" by simp_all
    moreover from True have "c # cs = n @ drop (length n) (c # cs)"
      by (metis append_eq_conv_conj prefix_def)
    ultimately show ?thesis by simp
  next
    case False
    with Cons.prems obtain b' where "split_first n cs = Some (b', a)" and "b = c # b'"
      by (auto split: option.splits)
    with Cons.IH show ?thesis by simp
  qed
qed

lemma split_first_shorter:
  "n \<noteq> [] \<Longrightarrow> split_first n s = Some (b, a) \<Longrightarrow> length a < length s"
  by (drule split_first_Some) (cases n, simp_all)

function js_split :: "string \<Rightarrow> string \<Rightarrow> string list" where
  \<comment> \<open>\<^verbatim>\<open>s.split(sep)\<close> for a separator that is not empty\<close>
  "js_split sep s =
     (if sep = [] then [s]
      else (case split_first sep s of
              None \<Rightarrow> [s]
            | Some (b, a) \<Rightarrow> b # js_split sep a))"
  by pat_completeness auto
termination
  by (relation "measure (\<lambda>(sep, s). length s)") (auto dest: split_first_shorter)

declare js_split.simps [simp del]

function remove_all :: "string \<Rightarrow> string \<Rightarrow> string" where
  \<comment> \<open>\<^verbatim>\<open>s.replaceAll(n, '')\<close>\<close>
  "remove_all n s =
     (if n = [] then s
      else (case split_first n s of
              None \<Rightarrow> s
            | Some (b, a) \<Rightarrow> b @ remove_all n a))"
  by pat_completeness auto
termination
  by (relation "measure (\<lambda>(n, s). length s)") (auto dest: split_first_shorter)

declare remove_all.simps [simp del]

definition ascii_upper :: string where
  "ascii_upper = ''ABCDEFGHIJKLMNOPQRSTUVWXYZ''"

definition ascii_lower :: string where
  "ascii_lower = ''abcdefghijklmnopqrstuvwxyz''"

definition lower_ascii :: "char \<Rightarrow> char" where
  "lower_ascii c = (case map_of (zip ascii_upper ascii_lower) c of Some l \<Rightarrow> l | None \<Rightarrow> c)"

definition latin1_upper_tail :: string where
  \<comment> \<open>second UTF-8 byte of U+00C0..U+00DE without U+00D7; the first byte is 0xC3\<close>
  "latin1_upper_tail =
     [CHR 0x80, CHR 0x81, CHR 0x82, CHR 0x83, CHR 0x84, CHR 0x85, CHR 0x86, CHR 0x87,
      CHR 0x88, CHR 0x89, CHR 0x8A, CHR 0x8B, CHR 0x8C, CHR 0x8D, CHR 0x8E, CHR 0x8F,
      CHR 0x90, CHR 0x91, CHR 0x92, CHR 0x93, CHR 0x94, CHR 0x95, CHR 0x96,
      CHR 0x98, CHR 0x99, CHR 0x9A, CHR 0x9B, CHR 0x9C, CHR 0x9D, CHR 0x9E]"

definition latin1_lower_tail :: string where
  \<comment> \<open>second UTF-8 byte of U+00E0..U+00FE without U+00F7\<close>
  "latin1_lower_tail =
     [CHR 0xA0, CHR 0xA1, CHR 0xA2, CHR 0xA3, CHR 0xA4, CHR 0xA5, CHR 0xA6, CHR 0xA7,
      CHR 0xA8, CHR 0xA9, CHR 0xAA, CHR 0xAB, CHR 0xAC, CHR 0xAD, CHR 0xAE, CHR 0xAF,
      CHR 0xB0, CHR 0xB1, CHR 0xB2, CHR 0xB3, CHR 0xB4, CHR 0xB5, CHR 0xB6,
      CHR 0xB8, CHR 0xB9, CHR 0xBA, CHR 0xBB, CHR 0xBC, CHR 0xBD, CHR 0xBE]"

fun fold_case :: "string \<Rightarrow> string" where
  \<comment> \<open>the canonical form under which a regular expression with the flag \<^verbatim>\<open>i\<close> compares a
      text with a pattern written in lower-case letters of U+0000..U+00FF: these letters
      match their two cases and nothing else\<close>
  "fold_case [] = []"
| "fold_case [c] = [lower_ascii c]"
| "fold_case (c # d # cs) =
     (if c = CHR 0xC3 then
        (case map_of (zip latin1_upper_tail latin1_lower_tail) d of
           Some l \<Rightarrow> c # l # fold_case cs
         | None \<Rightarrow> c # fold_case (d # cs))
      else lower_ascii c # fold_case (d # cs))"

definition lower_seqs :: "(string \<times> string) list" where
  \<comment> \<open>the characters of more than one byte that \<^verbatim>\<open>toLowerCase\<close> maps into U+0000..U+00FF, in
      UTF-8: U+00C0..U+00DE without U+00D7, then U+0130 (to \<^verbatim>\<open>i\<close> and U+0307), U+0178,
      U+1E9E, U+212A (the Kelvin sign, to \<^verbatim>\<open>k\<close>) and U+212B\<close>
  "lower_seqs =
     map (\<lambda>(u, l). ([CHR 0xC3, u], [CHR 0xC3, l])) (zip latin1_upper_tail latin1_lower_tail)
     @ [([CHR 0xC4, CHR 0xB0], [CHR ''i'', CHR 0xCC, CHR 0x87]),
        ([CHR 0xC5, CHR 0xB8], [CHR 0xC3, CHR 0xBF]),
        ([CHR 0xE1, CHR 0xBA, CHR 0x9E], [CHR 0xC3, CHR 0x9F]),
        ([CHR 0xE2, CHR 0x84, CHR 0xAA], [CHR ''k'']),
        ([CHR 0xE2, CHR 0x84, CHR 0xAB], [CHR 0xC3, CHR 0xA5])]"

definition lower_at :: "string \<Rightarrow> (string \<times> string) option" where
  \<comment> \<open>the entry of \<^const>\<open>lower_seqs\<close> that \<open>s\<close> starts with\<close>
  "lower_at s = find (\<lambda>p. fst p \<noteq> [] \<and> prefix (fst p) s) lower_seqs"

lemma lower_at_shorter: "lower_at s = Some p \<Longrightarrow> length (drop (length (fst p)) s) < length s"
  by (auto simp: lower_at_def find_Some_iff prefix_def)

function toLowerCase :: "string \<Rightarrow> string" where
  \<comment> \<open>\<^verbatim>\<open>s.toLowerCase()\<close>\<close>
  "toLowerCase s =
     (case s of
        [] \<Rightarrow> []
      | c # cs \<Rightarrow>
          (case lower_at s of
             Some p \<Rightarrow> snd p @ toLowerCase (drop (length (fst p)) s)
           | None \<Rightarrow> lower_ascii c # toLowerCase cs))"
  by pat_completeness auto
termination
  by (relation "measure length") (auto dest: lower_at_shorter)

declare toLowerCase.simps [simp del]

definition is_digit :: "char \<Rightarrow> bool" where
  \<comment> \<open>\<^verbatim>\<open>\d\<close>\<close>
  "is_digit c = (c \<in> set ''0123456789'')"

definition has_digit :: "string \<Rightarrow> bool" where
  \<comment> \<open>\<^verbatim>\<open>/\d+/.test(s)\<close>, also \<^verbatim>\<open>s.match(/\d+/)\<close> read as a truth value\<close>
  "has_digit s = (\<exists>c \<in> set s. is_digit c)"

definition ws_seqs :: "string list" where
  \<comment> \<open>ECMAScript WhiteSpace and LineTerminator, in UTF-8\<close>
  "ws_seqs =
     [[CHR 0x09], [CHR 0x0A], [CHR 0x0B], [CHR 0x0C], [CHR 0x0D], [CHR 0x20],
      [CHR 0xC2, CHR 0xA0], [CHR 0xE1, CHR 0x9A, CHR 0x80],
      [CHR 0xE2, CHR 0x80, CHR 0x80], [CHR 0xE2, CHR 0x80, CHR 0x81],
      [CHR 0xE2, CHR 0x80, CHR 0x82], [CHR 0xE2, CHR 0x80, CHR 0x83],
      [CHR 0xE2, CHR 0x80, CHR 0x84], [CHR 0xE2, CHR 0x80, CHR 0x85],
      [CHR 0xE2, CHR 0x80, CHR 0x86], [CHR 0xE2, CHR 0x80, CHR 0x87],
      [CHR 0xE2, CHR 0x80, CHR 0x88], [CHR 0xE2, CHR 0x80, CHR 0x89],
      [CHR 0xE2, CHR 0x80, CHR 0x8A], [CHR 0xE2, CHR 0x80, CHR 0xA8],
      [CHR 0xE2, CHR 0x80, CHR 0xA9], [CHR 0xE2, CHR 0x80, CHR 0xAF],
      [CHR 0xE2, CHR 0x81, CHR 0x9F], [CHR 0xE3, CHR 0x80, CHR 0x80],
      [CHR 0xEF, CHR 0xBB, CHR 0xBF]]"

definition seq_len :: "string list \<Rightarrow> string \<Rightarrow> nat" where
  \<comment> \<open>length of the first sequence of \<open>ws\<close> that \<open>s\<close> starts with; 0 when there is none\<close>
  "seq_len ws s = (case find (\<lambda>w. w \<noteq> [] \<and> prefix w s) ws of None \<Rightarrow> 0 | Some w \<Rightarrow> length w)"

lemma seq_len_le: "seq_len ws s \<le> length s"
  by (auto simp: seq_len_def find_Some_iff prefix_def split: option.splits)

function skip_seqs :: "string list \<Rightarrow> string \<Rightarrow> string" where
  "skip_seqs ws s = (if seq_len ws s = 0 then s else skip_seqs ws (drop (seq_len ws s) s))"
  by pat_completeness auto
termination
proof (relation "measure (\<lambda>(ws, s). length s)")
  show "wf (measure (\<lambda>(ws, s). length s))" by simp
next
  fix ws :: "string list" and s :: string
  assume "seq_len ws s \<noteq> 0"
  moreover have "seq_len ws s \<le> length s" by (rule seq_len_le)
  ultimately show "((ws, drop (seq_len ws s) s), (ws, s)) \<in> measure (\<lambda>(ws, s). length s)"
    by simp
qed

declare skip_seqs.simps [simp del]

definition skip_ws :: "string \<Rightarrow> string" where
  \<comment> \<open>the rest of \<open>s\<close> after a greedy \<^verbatim>\<open>\s*\<close>\<close>
  "skip_ws s = skip_seqs ws_seqs s"

definition js_trim :: "string \<Rightarrow> string" where
  \<comment> \<open>\<^verbatim>\<open>s.trim()\<close>\<close>
  "js_trim s = rev (skip_seqs (map rev ws_seqs) (rev (skip_ws s)))"

definition only_digits :: "string \<Rightarrow> bool" where
  \<comment> \<open>\<^verbatim>\<open>s.match(/^\s*\d+\s*$/)\<close> read as a truth value\<close>
  "only_digits s =
     (let r = skip_ws s
      in takeWhile is_digit r \<noteq> [] \<and> skip_ws (dropWhile is_digit r) = [])"

section \<open>The tagged-block protocol\<close>

definition TEXT_FORMAT :: string where "TEXT_FORMAT = ''[TEXT_FORMAT]''"
definition VOICE_FORMAT :: string where "VOICE_FORMAT = ''[VOICE_FORMAT]''"
definition IMAGE_FORMAT :: string where "IMAGE_FORMAT = ''[IMAGE_FORMAT]''"
definition JSON_FORMAT :: string where "JSON_FORMAT = ''[JSON_FORMAT]''"
definition CONFIRMATION_FORMAT :: string where "CONFIRMATION_FORMAT = ''[CONFIRMATION_FORMAT]''"
definition END_TAG :: string where "END_TAG = ''[/END]''"

definition block_match :: "string \<Rightarrow> string \<Rightarrow> (string \<times> string) option" where
  \<comment> \<open>one \<^verbatim>\<open>exec\<close> of \<^verbatim>\<open>/\[TAG\]([\s\S]*?)\[\/END\]/\<close>: the payload of the leftmost block
      and the text after it (where a global regex goes on)\<close>
  "block_match tag s =
     (case split_first tag s of
        None \<Rightarrow> None
      | Some (_, r) \<Rightarrow> split_first END_TAG r)"

definition first_block :: "string \<Rightarrow> string \<Rightarrow> string option" where
  \<comment> \<open>\<^verbatim>\<open>s.match(/\[TAG\]([\s\S]*?)\[\/END\]/)\<close>, capture group 1\<close>
  "first_block tag s = map_option fst (block_match tag s)"

section \<open>Data model\<close>

text \<open>
  The documents of the store and the objects handed around by \<^verbatim>\<open>src/index.js\<close>. A field that
  the source only tests for truthiness and then reads as a string is a \<^typ>\<open>string\<close>, with
  the empty string for an absent (\<^verbatim>\<open>undefined\<close>, \<^verbatim>\<open>null\<close>) value; the members of a resolved
  address, which the source also writes into template literals, keep the three cases apart.
  Numbers are a type parameter \<open>'n\<close> with \<open>0\<close>, \<open>1\<close>, \<open>+\<close> and \<open>*\<close>; \<^verbatim>\<open>NaN\<close> is
  \<^const>\<open>None\<close>; the quantities and prices of an order payload are numbers or absent. Clock
  readings (\<^verbatim>\<open>inicio\<close>, \<^verbatim>\<open>duracao\<close>, \<^verbatim>\<open>data\<close>), the write-only map \<^verbatim>\<open>tempPedidoData\<close> and the
  property \<^verbatim>\<open>lastJsonData\<close> (set at line 2668, not a path of the schema and never read) are left
  out: no decision of the engine reads them, except the three-hour staleness test, which is an
  input of \<open>getOrCreateConversation\<close> below.
\<close>

record 'n item =
  nome :: string
  quantidade :: "'n option"  \<comment> \<open>\<^const>\<open>None\<close>: absent or \<^verbatim>\<open>NaN\<close>\<close>
  preco :: "'n option"  \<comment> \<open>\<^verbatim>\<open>parseFloat(item.preco)\<close>; \<^const>\<open>None\<close>: \<^verbatim>\<open>NaN\<close>\<close>

record 'n pedido_data =
  items :: "'n item list option"  \<comment> \<open>\<^const>\<open>None\<close>: no \<^verbatim>\<open>items\<close> array\<close>
  endereco :: string
  pagamento :: string
  outros :: "(string \<times> string) list"
    \<comment> \<open>every other key of the object with its text, a \<^verbatim>\<open>total\<close> among them\<close>

datatype 'n json =
    JNull  \<comment> \<open>\<^verbatim>\<open>null\<close>: reading a property of it throws\<close>
  | JObject "'n pedido_data option" "'n pedido_data"
      \<comment> \<open>the value of \<^verbatim>\<open>.pedido\<close> when truthy, and the top-level
          \<^verbatim>\<open>items\<close>, \<^verbatim>\<open>endereco\<close>, \<^verbatim>\<open>pagamento\<close>\<close>

record 'n pedido =
  p_telefone :: string
  itens :: "'n item list"
  valorTotal :: "'n option"
  p_endereco :: string
  formaPagamento :: string
  status :: string

datatype tipo = User | Bot

record mensagem =
  tipo :: tipo
  conteudo :: string

datatype jtext =
    Undefined  \<comment> \<open>the member is absent\<close>
  | Null
  | Text string

fun shown :: "jtext \<Rightarrow> string" where
  \<comment> \<open>the value inside a template literal\<close>
  "shown Undefined = ''undefined''"
| "shown Null = ''null''"
| "shown (Text s) = s"

fun truthy :: "jtext \<Rightarrow> bool" where
  "truthy (Text s) = (s \<noteq> [])"
| "truthy _ = False"

fun as_stored :: "jtext \<Rightarrow> jtext" where
  \<comment> \<open>a member of a \<^verbatim>\<open>Mixed\<close> value as the store keeps it: \<^verbatim>\<open>undefined\<close> is written as
      \<^verbatim>\<open>null\<close>\<close>
  "as_stored Undefined = Null"
| "as_stored x = x"

record components =
  street :: jtext
  neighborhood :: jtext
  city :: jtext
  comp_state :: jtext
  cep :: jtext

record address_data =
  formattedAddress :: string
  components :: "components option"

record 'n conversa =
  cid :: nat
  telefone :: string
  state :: nat
  mensagens :: "mensagem list"
  addressData :: "address_data option"
  pedidoData :: "'n pedido_data option"
  pedidoData_modified :: bool
    \<comment> \<open>the document in memory only: \<^verbatim>\<open>pedidoData\<close> was assigned since the last save\<close>
  pedidoId :: "nat option"

record 'n db =
  conversas :: "'n conversa list"  \<comment> \<open>the \<^verbatim>\<open>Conversa\<close> collection, newest first\<close>
  pedidos :: "'n pedido list"  \<comment> \<open>the \<^verbatim>\<open>Pedido\<close> collection, oldest first\<close>

text \<open>
  The schema (\<^verbatim>\<open>ConversaSchema\<close>) declares \<^verbatim>\<open>pedidoData\<close> and \<^verbatim>\<open>addressData.components\<close> as
  \<^verbatim>\<open>Schema.Types.Mixed\<close>. A save writes the paths that changed since the document was read or
  last saved; a \<^verbatim>\<open>Mixed\<close> path counts as changed when it was assigned, not when the object it
  holds was changed in place (lines 1580 and 2254; the source never calls \<^verbatim>\<open>markModified\<close>).
  All other paths of a conversation are tracked, so that for them the document in memory
  replaces the stored one. A conversation that is not in the store yet is inserted whole.
\<close>

definition assign_pedidoData :: "'n pedido_data \<Rightarrow> 'n conversa \<Rightarrow> 'n conversa" where
  \<comment> \<open>\<^verbatim>\<open>conversa.pedidoData = pd\<close>\<close>
  "assign_pedidoData pd c = c\<lparr>pedidoData := Some pd, pedidoData_modified := True\<rparr>"

definition after_save :: "'n conversa \<Rightarrow> 'n conversa" where
  \<comment> \<open>the document in memory once \<^verbatim>\<open>conversa.save()\<close> has resolved\<close>
  "after_save c = c\<lparr>pedidoData_modified := False\<rparr>"

definition stored_address :: "address_data \<Rightarrow> address_data" where
  "stored_address ad =
     ad\<lparr>components :=
          map_option
            (\<lambda>k. \<lparr>street = as_stored (street k), neighborhood = as_stored (neighborhood k),
                  city = as_stored (city k), comp_state = as_stored (comp_state k),
                  cep = as_stored (cep k)\<rparr>)
            (components ad)\<rparr>"

definition written :: "'n conversa \<Rightarrow> 'n pedido_data option \<Rightarrow> 'n conversa" where
  \<comment> \<open>the stored document after a save of \<open>c\<close>, where \<open>old\<close> is the stored \<^verbatim>\<open>pedidoData\<close>
      before it\<close>
  "written c old =
     c\<lparr>addressData := map_option stored_address (addressData c),
       pedidoData := (if pedidoData_modified c then pedidoData c else old),
       pedidoData_modified := False\<rparr>"

definition save_conversa :: "'n conversa \<Rightarrow> 'n db \<Rightarrow> 'n db" where
  \<comment> \<open>\<^verbatim>\<open>conversa.save()\<close>\<close>
  "save_conversa c d =
     d\<lparr>conversas :=
         (if \<exists>x \<in> set (conversas d). cid x = cid c
          then map (\<lambda>x. if cid x = cid c then written c (pedidoData x) else x) (conversas d)
          else written c (pedidoData c) # conversas d)\<rparr>"

definition new_conversa :: "string \<Rightarrow> 'n db \<Rightarrow> 'n conversa" where
  \<comment> \<open>\<^verbatim>\<open>new Conversa({ telefone, inicio, duracao: 0, state: 0, mensagens: [] })\<close>\<close>
  "new_conversa userPhone d =
     \<lparr>cid = length (conversas d), telefone = userPhone, state = 0, mensagens = [],
      addressData = None, pedidoData = None, pedidoData_modified = False, pedidoId = None\<rparr>"

record cardapio_item =
  identificador :: string
  c_nome :: string
  descricao :: string
  disponivel :: bool
  imagemGeral :: string
  imagemEsquerda :: string
  imagemDireita :: string

record bot_config =
  menuImage :: string
  menuImageCaption :: string
  confirmationImage :: string
  confirmationImageCaption :: string
  welcomeMessage :: string

record image_entry =
  img_id :: string
  img_url :: string
  img_caption :: string

record response =
  success :: bool
  resp_state :: "nat option"
  resp_text :: string
  audio :: string
  resp_image :: string
  imageCaption :: string
  allImages :: "image_entry list option"
  resp_error :: string

subsection \<open>The canvas of \<^verbatim>\<open>overlayImages\<close>\<close>

record img =
  img_src :: string
  img_width :: nat
  img_height :: nat

datatype draw_op =
    Draw5 img nat nat nat nat
      \<comment> \<open>\<^verbatim>\<open>drawImage(image, dx, dy, dWidth, dHeight)\<close>\<close>
  | Draw9 img nat nat nat nat nat nat nat nat
      \<comment> \<open>\<^verbatim>\<open>drawImage(image, sx, sy, sWidth, sHeight, dx, dy, dWidth, dHeight)\<close>\<close>

record canvas =
  canvas_width :: nat
  canvas_height :: nat
  drawn :: "draw_op list"  \<comment> \<open>in the order of the calls\<close>

subsection \<open>External collaborators\<close>

text \<open>
  What the engine calls but does not implement: the JSON parser, number formatting, speech
  synthesis, the menu collection, the regular expressions that a menu query builds from an
  identifier, image download and decoding, the canvas encoder, the write of an order, the
  postal-code service and the language model. Reading the store and saving a conversation
  are taken to succeed.
\<close>

datatype completion =
    ApiError  \<comment> \<open>\<^verbatim>\<open>openai.chat.completions.create\<close> throws\<close>
  | NullContent  \<comment> \<open>\<^verbatim>\<open>choices[0].message.content\<close> is \<^verbatim>\<open>null\<close>\<close>
  | Content string

record 'n env =
  json_parse :: "string \<Rightarrow> 'n json option"
    \<comment> \<open>\<^verbatim>\<open>JSON.parse\<close>; \<^const>\<open>None\<close>: it throws\<close>
  toFixed2 :: "'n option \<Rightarrow> string"
    \<comment> \<open>\<^verbatim>\<open>x.toFixed(2)\<close>\<close>
  num_text :: "'n \<Rightarrow> string"
    \<comment> \<open>a number inside a template literal\<close>
  generateAudio :: "string \<Rightarrow> string"
    \<comment> \<open>the URL of the audio, empty for \<^verbatim>\<open>null\<close>; the source catches every failure\<close>
  cardapio :: "cardapio_item list"
    \<comment> \<open>the \<^verbatim>\<open>CardapioItem\<close> collection in its natural order\<close>
  regexp_i :: "string \<Rightarrow> (string \<Rightarrow> bool) option"
    \<comment> \<open>\<^verbatim>\<open>new RegExp(p, 'i')\<close> as its \<^verbatim>\<open>test\<close>; \<^const>\<open>None\<close>: the pattern is refused\<close>
  modules_load :: bool
    \<comment> \<open>whether \<^verbatim>\<open>require('canvas')\<close> and \<^verbatim>\<open>require('axios')\<close> in \<^verbatim>\<open>overlayImages\<close> return\<close>
  fetch_image :: "string \<Rightarrow> img option"
    \<comment> \<open>\<^verbatim>\<open>downloadImage\<close> then \<^verbatim>\<open>loadImage\<close>; \<^const>\<open>None\<close>: either one throws\<close>
  toDataURL :: "canvas \<Rightarrow> string option"
    \<comment> \<open>\<^verbatim>\<open>canvas.toDataURL('image/jpeg')\<close>; \<^const>\<open>None\<close>: the canvas throws\<close>
  pedido_save_ok :: "'n pedido \<Rightarrow> bool"
    \<comment> \<open>whether \<^verbatim>\<open>novoPedido.save()\<close> resolves\<close>
  brasilapi :: "string \<Rightarrow> components option"
    \<comment> \<open>\<^verbatim>\<open>response.data\<close> of the postal-code service for eight digits, its members strings,
        \<^verbatim>\<open>null\<close> or absent; \<^const>\<open>None\<close>: no data or a failure\<close>
  chat_completion :: completion
    \<comment> \<open>the answer of the language model in this turn\<close>
  enriched_completion :: completion
    \<comment> \<open>the answer to the second, enriched request of this turn\<close>
  cached_botConfig :: "bot_config option"
    \<comment> \<open>\<^verbatim>\<open>getCachedData().botConfig\<close>\<close>
  has_historia :: bool
    \<comment> \<open>\<^verbatim>\<open>historia && historia.conteudo\<close>\<close>
  has_cardapio :: bool
    \<comment> \<open>\<^verbatim>\<open>cardapioItems && cardapioItems.length > 0\<close>\<close>
  has_formasPagamento :: bool
    \<comment> \<open>\<^verbatim>\<open>formasPagamento && formasPagamento.length > 0\<close>\<close>
  botConfig_findOne :: "bot_config option"
    \<comment> \<open>\<^verbatim>\<open>BotConfig.findOne()\<close>\<close>

datatype 'a attempt = Threw | Done 'a

subsection \<open>Accented letters and symbols of the canned texts\<close>

definition a_acute :: string where "a_acute = [CHR 0xC3, CHR 0xA1]"
definition a_tilde :: string where "a_tilde = [CHR 0xC3, CHR 0xA3]"
definition c_cedil :: string where "c_cedil = [CHR 0xC3, CHR 0xA7]"
definition e_acute :: string where "e_acute = [CHR 0xC3, CHR 0xA9]"
definition e_circ :: string where "e_circ = [CHR 0xC3, CHR 0xAA]"
definition i_acute :: string where "i_acute = [CHR 0xC3, CHR 0xAD]"
definition o_acute :: string where "o_acute = [CHR 0xC3, CHR 0xB3]"
definition o_tilde :: string where "o_tilde = [CHR 0xC3, CHR 0xB5]"
definition u_acute :: string where "u_acute = [CHR 0xC3, CHR 0xBA]"
definition ordm :: string where "ordm = [CHR 0xC2, CHR 0xBA]"
definition degree :: string where "degree = [CHR 0xC2, CHR 0xB0]"
definition party :: string where "party = [CHR 0xF0, CHR 0x9F, CHR 0x8E, CHR 0x89]"
definition pizza_slice :: string where "pizza_slice = [CHR 0xF0, CHR 0x9F, CHR 0x8D, CHR 0x95]"
definition nl :: string where "nl = [CHR 0x0A]"

section \<open>\<^verbatim>\<open>processTaggedResponse\<close>\<close>

subsection \<open>Canned texts\<close>

definition msg_menu_question :: string where
  "msg_menu_question = ''Aqui est'' @ a_acute @ '' nosso card'' @ a_acute
     @ ''pio. Qual sabor de pizza voc'' @ e_circ @ '' gostaria de pedir?''"

definition msg_not_found :: string where
  "msg_not_found = ''Desculpe, n'' @ a_tilde
     @ ''o encontrei imagem para este item no nosso card'' @ a_acute @ ''pio.''"

definition msg_image_error :: string where
  "msg_image_error = ''Desculpe, n'' @ a_tilde @ ''o consegui processar a imagem solicitada.''"

definition msg_need_number :: string where
  "msg_need_number = ''Preciso do n'' @ u_acute @ ''mero do endere'' @ c_cedil
     @ ''o antes de confirmar. Por favor, informe o n'' @ u_acute @ ''mero completo.''"

definition msg_pedido_problem :: string where
  "msg_pedido_problem = ''Houve um problema ao registrar seu pedido. ''
     @ ''Por favor, tente novamente ou entre em contato por telefone.''"

definition msg_address_incomplete :: string where
  "msg_address_incomplete = ''Desculpe, precisamos de um endere'' @ c_cedil
     @ ''o completo com n'' @ u_acute @ ''mero para confirmar seu pedido. ''
     @ ''Por favor, informe o n'' @ u_acute @ ''mero do seu endere'' @ c_cedil @ ''o.''"

definition msg_confirm_problem :: string where
  "msg_confirm_problem = ''Houve um problema ao confirmar seu pedido. ''
     @ ''Por favor, tente novamente ou entre em contato por telefone.''"

definition msg_no_pedido_data :: string where
  "msg_no_pedido_data = ''N'' @ a_tilde
     @ ''o consegui encontrar os detalhes do seu pedido para confirmar. ''
     @ ''Por favor, tente fazer o pedido novamente.''"

definition msg_processing_error :: string where
  "msg_processing_error = ''Desculpe, ocorreu um erro ao processar sua mensagem. ''
     @ ''Poderia tentar novamente?''"

definition suffix_aproximada :: string where
  "suffix_aproximada = '' (visualiza'' @ c_cedil @ a_tilde @ ''o aproximada)''"

definition suffix_parcial :: string where
  "suffix_parcial = '' (visualiza'' @ c_cedil @ a_tilde @ ''o parcial)''"

subsection \<open>Totals\<close>

definition qty :: "'n::{zero,one} item \<Rightarrow> 'n" where
  \<comment> \<open>\<^verbatim>\<open>item.quantidade || 1\<close>\<close>
  "qty it = (case quantidade it of None \<Rightarrow> 1 | Some q \<Rightarrow> if q = 0 then 1 else q)"

fun total_nan :: "'n::{zero,one,plus,times} item list \<Rightarrow> 'n option \<Rightarrow> 'n option" where
  \<comment> \<open>\<^verbatim>\<open>items.forEach(item => { valorTotal += parseFloat(item.preco) * (item.quantidade || 1) })\<close>,
      a \<^verbatim>\<open>NaN\<close> price making the sum \<^verbatim>\<open>NaN\<close>\<close>
  "total_nan [] acc = acc"
| "total_nan (it # its) acc =
     total_nan its (case (acc, preco it) of
                      (Some a, Some p) \<Rightarrow> Some (a + p * qty it)
                    | _ \<Rightarrow> None)"

fun total_checked :: "'n::{zero,one,plus,times} item list \<Rightarrow> 'n \<Rightarrow> 'n option" where
  \<comment> \<open>the same loop with \<^verbatim>\<open>if (isNaN(preco)) throw\<close>; \<^const>\<open>None\<close>: it threw\<close>
  "total_checked [] acc = Some acc"
| "total_checked (it # its) acc =
     (case preco it of
        None \<Rightarrow> None
      | Some p \<Rightarrow> total_checked its (acc + p * qty it))"

subsection \<open>Voice block (lines 1094--1128)\<close>

definition new_response :: "nat \<Rightarrow> string \<Rightarrow> response" where
  "new_response st botResponse =
     \<lparr>success = True, resp_state = Some st, resp_text = botResponse, audio = [],
      resp_image = [], imageCaption = [], allImages = None, resp_error = []\<rparr>"

definition voice_step :: "'n env \<Rightarrow> string \<Rightarrow> nat \<Rightarrow> response \<Rightarrow> response" where
  "voice_step env botResponse st r =
     (case first_block VOICE_FORMAT botResponse of
        None \<Rightarrow> r
      | Some v \<Rightarrow>
          if st = 6 \<or> st = 7 then
            (if first_block TEXT_FORMAT botResponse = None
             then r\<lparr>resp_text := TEXT_FORMAT @ js_trim v @ END_TAG\<rparr>
             else r)
          else (let audioUrl = generateAudio env (js_trim v)
                in if audioUrl \<noteq> [] then r\<lparr>audio := audioUrl\<rparr> else r))"

subsection \<open>Image blocks (lines 1130--1414)\<close>

lemma block_match_shorter: "block_match tag s = Some (p, rest) \<Longrightarrow> length rest < length s"
proof -
  assume a: "block_match tag s = Some (p, rest)"
  then obtain b r where 1: "split_first tag s = Some (b, r)"
    and 2: "split_first END_TAG r = Some (p, rest)"
    by (auto simp: block_match_def split: option.splits)
  from 1 have "length r \<le> length s" by (auto dest: split_first_Some)
  moreover from 2 have "length rest < length r"
    by (rule split_first_shorter [rotated]) (simp add: END_TAG_def)
  ultimately show ?thesis by simp
qed

function imageMatches :: "string \<Rightarrow> string list" where
  \<comment> \<open>the \<^verbatim>\<open>while ((match = imageRegex.exec(botResponse)) !== null)\<close> loop\<close>
  "imageMatches s =
     (case block_match IMAGE_FORMAT s of
        None \<Rightarrow> []
      | Some (p, rest) \<Rightarrow> (if js_trim p \<noteq> [] then [js_trim p] else []) @ imageMatches rest)"
  by pat_completeness auto
termination
  by (relation "measure length") (auto dest: block_match_shorter)

declare imageMatches.simps [simp del]

definition findOne_id :: "'n env \<Rightarrow> string \<Rightarrow> cardapio_item option" where
  \<comment> \<open>\<^verbatim>\<open>CardapioItem.findOne({ identificador: ident, disponivel: true })\<close>\<close>
  "findOne_id env ident = find (\<lambda>i. identificador i = ident \<and> disponivel i) (cardapio env)"

definition findOne_nome_regex :: "'n env \<Rightarrow> string \<Rightarrow> cardapio_item option attempt" where
  \<comment> \<open>\<^verbatim>\<open>CardapioItem.findOne({ nome: { $regex: new RegExp(p, 'i') }, disponivel: true })\<close>\<close>
  "findOne_nome_regex env p =
     (case regexp_i env p of
        None \<Rightarrow> Threw
      | Some t \<Rightarrow> Done (find (\<lambda>i. t (c_nome i) \<and> disponivel i) (cardapio env)))"

definition findOne_broad_regex :: "'n env \<Rightarrow> string \<Rightarrow> cardapio_item option attempt" where
  \<comment> \<open>the \<^verbatim>\<open>$or\<close> query on \<^verbatim>\<open>identificador\<close> and \<^verbatim>\<open>nome\<close>\<close>
  "findOne_broad_regex env p =
     (case regexp_i env p of
        None \<Rightarrow> Threw
      | Some t \<Rightarrow>
          Done (find (\<lambda>i. (t (identificador i) \<or> t (c_nome i)) \<and> disponivel i) (cardapio env)))"

definition overlayImages :: "'n env \<Rightarrow> string \<Rightarrow> string \<Rightarrow> string attempt" where
  \<comment> \<open>lines 828--883. The two \<^verbatim>\<open>require\<close> calls stand before the \<^verbatim>\<open>try\<close>: when they fail the
      promise is rejected. Every later failure is caught inside and gives the base URL back.\<close>
  "overlayImages env baseImageUrl overlayImageUrl =
     (if \<not> modules_load env then Threw
      else
        (case fetch_image env baseImageUrl of
           None \<Rightarrow> Done baseImageUrl
         | Some baseImage \<Rightarrow>
             (case fetch_image env overlayImageUrl of
                None \<Rightarrow> Done baseImageUrl
              | Some overlayImage \<Rightarrow>
                  (case toDataURL env
                     \<lparr>canvas_width = img_width baseImage, canvas_height = img_height baseImage,
                      drawn =
                        [Draw5 baseImage 0 0 (img_width baseImage) (img_height baseImage),
                         Draw9 overlayImage 0 0 (img_width overlayImage)
                           (img_height overlayImage)
                           0 0 (img_width baseImage) (img_height baseImage)]\<rparr> of
                     None \<Rightarrow> Done baseImageUrl
                   | Some mergedBase64 \<Rightarrow> Done mergedBase64))))"

definition seg1 :: "string list \<Rightarrow> string" where
  \<comment> \<open>\<^verbatim>\<open>parts[1]\<close>, empty for \<^verbatim>\<open>undefined\<close>\<close>
  "seg1 parts = (case parts of _ # x # _ \<Rightarrow> x | _ \<Rightarrow> [])"

definition first_truthy :: "string list \<Rightarrow> string" where
  \<comment> \<open>\<^verbatim>\<open>a || b || c || d\<close>\<close>
  "first_truthy xs = (case find (\<lambda>x. x \<noteq> []) xs of Some x \<Rightarrow> x | None \<Rightarrow> [])"

definition sem_pizza :: "string \<Rightarrow> string" where
  \<comment> \<open>\<^verbatim>\<open>nome.replaceAll('Pizza ', '')\<close>\<close>
  "sem_pizza n = remove_all ''Pizza '' n"

definition meio_a_meio :: "'n env \<Rightarrow> string \<Rightarrow> string \<times> string" where
  \<comment> \<open>lines 1161--1212: URL and caption for a composite identifier, empty when unresolved\<close>
  "meio_a_meio env imageId =
     (case js_split ''+'' imageId of
        [sabor1Id, sabor2Id] \<Rightarrow>
          (case (findOne_id env sabor1Id, findOne_id env sabor2Id) of
             (Some sabor1, Some sabor2) \<Rightarrow>
               (let leftImage = imagemEsquerda sabor1;
                    rightImage = imagemDireita sabor2
                in if rightImage \<noteq> [] \<and> leftImage \<noteq> [] then
                     (case overlayImages env rightImage leftImage of
                        Done merged \<Rightarrow>
                          (merged,
                           ''Pizza meio '' @ sem_pizza (c_nome sabor1) @ '' e meio ''
                             @ sem_pizza (c_nome sabor2))
                      | Threw \<Rightarrow>
                          (first_truthy [leftImage, rightImage],
                           ''Pizza meio '' @ sem_pizza (c_nome sabor1) @ '' e meio ''
                             @ sem_pizza (c_nome sabor2) @ suffix_parcial))
                   else if imagemGeral sabor1 \<noteq> [] \<and> imagemGeral sabor2 \<noteq> [] then
                     (imagemGeral sabor1,
                      ''Pizza meio '' @ sem_pizza (c_nome sabor1) @ '' e meio ''
                        @ sem_pizza (c_nome sabor2) @ suffix_aproximada)
                   else
                     (first_truthy [imagemGeral sabor1, imagemEsquerda sabor1,
                                    imagemGeral sabor2, imagemDireita sabor2],
                      ''Pizza meio '' @ sem_pizza (c_nome sabor1) @ '' e meio ''
                        @ c_nome sabor2))
           | _ \<Rightarrow> ([], []))
      | _ \<Rightarrow> ([], []))"

definition single_item :: "'n env \<Rightarrow> string \<Rightarrow> cardapio_item option attempt" where
  \<comment> \<open>lines 1215--1243\<close>
  "single_item env imageId =
     (case findOne_id env imageId of
        Some i \<Rightarrow> Done (Some i)
      | None \<Rightarrow>
          (let nomePizza = seg1 (js_split ''_pizza-'' imageId)
           in case (if nomePizza \<noteq> [] then findOne_nome_regex env nomePizza else Done None) of
                Threw \<Rightarrow> Threw
              | Done (Some i) \<Rightarrow> Done (Some i)
              | Done None \<Rightarrow> findOne_broad_regex env imageId))"

definition resolve_first_image ::
  "'n env \<Rightarrow> bot_config option \<Rightarrow> string \<Rightarrow> (string \<times> string) attempt" where
  \<comment> \<open>lines 1149--1250: \<^verbatim>\<open>imageUrl\<close> and \<^verbatim>\<open>imageCaption\<close>, empty for \<^verbatim>\<open>null\<close>\<close>
  "resolve_first_image env botConfig imageId =
     (if imageId = ''cardapio'' \<or> imageId = ''menu'' then
        (case botConfig of
           None \<Rightarrow> Done ([], [])
         | Some bc \<Rightarrow>
             if menuImage bc \<noteq> [] then
               Done (menuImage bc,
                     if menuImageCaption bc \<noteq> [] then menuImageCaption bc
                     else ''Card'' @ a_acute @ ''pio'')
             else Done ([], []))
      else if js_includes imageId ''+'' then Done (meio_a_meio env imageId)
      else (case single_item env imageId of
              Threw \<Rightarrow> Threw
            | Done None \<Rightarrow> Done ([], [])
            | Done (Some i) \<Rightarrow> Done (imagemGeral i, ''*'' @ c_nome i @ ''*: '' @ descricao i)))"

definition image_found :: "string \<Rightarrow> nat \<Rightarrow> string \<Rightarrow> string \<Rightarrow> string \<Rightarrow> response \<Rightarrow> response" where
  \<comment> \<open>lines 1252--1337, for a truthy \<^verbatim>\<open>imageUrl\<close>\<close>
  "image_found botResponse st imageId url cap r =
     (let r1 = r\<lparr>resp_image := url,
                 imageCaption := (if cap \<noteq> [] then cap else imageCaption r),
                 allImages := Some [\<lparr>img_id = imageId, img_url = url, img_caption = cap\<rparr>]\<rparr>;
          isMenuImage = (imageId = ''cardapio'' \<or> imageId = ''menu'' \<or>
            (cap \<noteq> [] \<and> (js_includes (toLowerCase cap) (''card'' @ a_acute @ ''pio'') \<or>
                           js_includes (toLowerCase cap) ''cardapio'')));
          isPizzaDoce = (js_includes imageId ''pizza-doce'' \<or>
            (cap \<noteq> [] \<and> js_includes (toLowerCase cap) ''doce''))
      in if first_block TEXT_FORMAT botResponse = None \<or> resp_text r1 = []
            \<or> js_trim (resp_text r1) = [] then
           r1\<lparr>resp_text :=
             (if isMenuImage then msg_menu_question
              else if st = 0 then
                ''Aqui est'' @ a_acute @ '' a imagem da '' @ cap
                  @ ''. Gostaria de pedir esta pizza? Ou prefere ver outras op'' @ c_cedil
                  @ o_tilde @ ''es?''
              else if st = 1 then
                (if isPizzaDoce then
                   ''Esta '' @ e_acute @ '' a nossa '' @ cap @ ''. Gostaria de pedir agora?''
                 else
                   ''Esta '' @ e_acute @ '' a nossa '' @ cap @ ''. Voc'' @ e_circ
                     @ '' gostaria dela inteira ou meio a meio com outro sabor?'')
              else if st = 2 then
                ''Aqui est'' @ a_acute @ '' a '' @ cap
                  @ ''. Gostaria de pedir mais alguma pizza ou podemos prosseguir com o pedido?''
              else if st = 3 then
                ''Esta '' @ e_acute @ '' a deliciosa '' @ cap
                  @ ''. Gostaria de adicionar alguma bebida ao seu pedido?''
              else
                ''Esta '' @ e_acute @ '' a nossa '' @ cap @ ''. O que voc'' @ e_circ
                  @ '' gostaria de fazer a seguir?'')\<rparr>
         else if resp_text r1 \<noteq> [] \<and> st \<le> 3 then
           (if js_trim (resp_text r1) \<noteq> [] \<and> last (js_trim (resp_text r1)) = CHR ''?'' then r1
            else r1\<lparr>resp_text := js_trim (resp_text r1) @
              (if isMenuImage then '' Qual sabor voc'' @ e_circ @ '' gostaria de experimentar?''
               else if st = 0 then '' Gostaria de pedir agora?''
               else if st = 1 then
                 (if isPizzaDoce then '' Gostaria de pedir agora?''
                  else '' Voc'' @ e_circ
                    @ '' prefere ela inteira ou meio a meio com outro sabor?'')
               else if st = 2 then '' Deseja mais alguma pizza ou podemos prosseguir?''
               else '' Gostaria de adicionar alguma bebida ao pedido?'')\<rparr>)
         else r1)"

definition extra_item :: "'n env \<Rightarrow> string \<Rightarrow> cardapio_item option attempt" where
  \<comment> \<open>lines 1367--1392\<close>
  "extra_item env additionalImageId =
     (case findOne_id env additionalImageId of
        Some i \<Rightarrow> Done (Some i)
      | None \<Rightarrow>
          (case (if js_includes additionalImageId ''pizza-'' then
                   (let pizzaName =
                      first_truthy [seg1 (js_split ''_pizza-'' additionalImageId),
                                    seg1 (js_split ''-pizza-'' additionalImageId)]
                    in if pizzaName \<noteq> [] then findOne_nome_regex env pizzaName else Done None)
                 else Done None) of
             Threw \<Rightarrow> Threw
           | Done (Some i) \<Rightarrow> Done (Some i)
           | Done None \<Rightarrow> findOne_broad_regex env additionalImageId))"

definition extra_image :: "'n env \<Rightarrow> string \<Rightarrow> image_entry list" where
  \<comment> \<open>one turn of the loop of lines 1361--1412: the entries it pushes\<close>
  "extra_image env additionalImageId =
     (case extra_item env additionalImageId of
        Done (Some i) \<Rightarrow>
          if imagemGeral i \<noteq> [] then
            [\<lparr>img_id = additionalImageId, img_url = imagemGeral i,
              img_caption = ''*'' @ c_nome i @ ''*: '' @ descricao i\<rparr>]
          else []
      | _ \<Rightarrow> [])"

definition image_step ::
  "'n env \<Rightarrow> string \<Rightarrow> nat \<Rightarrow> bot_config option \<Rightarrow> response \<Rightarrow> response" where
  "image_step env botResponse st botConfig r =
     (case imageMatches botResponse of
        [] \<Rightarrow> r
      | first # others \<Rightarrow>
          (let imageId = js_trim first;
               r1 = (case resolve_first_image env botConfig imageId of
                       Threw \<Rightarrow>
                         if resp_text r = [] then r\<lparr>resp_text := msg_image_error\<rparr> else r
                     | Done (url, cap) \<Rightarrow>
                         if url \<noteq> [] then image_found botResponse st imageId url cap r
                         else if resp_text r = [] then r\<lparr>resp_text := msg_not_found\<rparr>
                         else r)
           in if others \<noteq> [] then
                r1\<lparr>allImages :=
                     Some ((case allImages r1 of None \<Rightarrow> [] | Some xs \<Rightarrow> xs)
                           @ concat (map (extra_image env) others))\<rparr>
              else r1))"

subsection \<open>JSON block: staging (lines 1416--1540)\<close>

datatype ('a, 'b) outcome = Return 'a | Continue 'b

definition pedido_of_json :: "'n json \<Rightarrow> 'n pedido_data option attempt" where
  \<comment> \<open>lines 1431--1438; reading \<^verbatim>\<open>.pedido\<close> of \<^verbatim>\<open>null\<close> throws\<close>
  "pedido_of_json jsonData =
     (case jsonData of
        JNull \<Rightarrow> Threw
      | JObject ped flat \<Rightarrow>
          Done (case ped of
                  Some p \<Rightarrow> Some p
                | None \<Rightarrow>
                    if items flat \<noteq> None \<and> endereco flat \<noteq> [] \<and> pagamento flat \<noteq> []
                    then Some flat else None))"

definition indent8 :: string where
  "indent8 = nl @ ''        ''"

definition textoResumo :: "'n::{zero,one,plus,times} env \<Rightarrow> 'n pedido_data \<Rightarrow> 'n item \<Rightarrow> 'n item list \<Rightarrow> string" where
  \<comment> \<open>lines 1514--1525, after \<^verbatim>\<open>trim()\<close>: the template starts and ends with white space only\<close>
  "textoResumo env pd item0 its =
     TEXT_FORMAT @ ''Vamos conferir seu pedido:'' @ indent8
       @ indent8 @ ''*Pizza '' @ nome item0 @ ''* - R$ '' @ toFixed2 env (preco item0) @ indent8
       @ indent8 @ ''*Endere'' @ c_cedil @ ''o de entrega:* '' @ endereco pd
       @ indent8 @ ''*Forma de pagamento:* '' @ pagamento pd @ indent8
       @ indent8 @ ''*Total:* R$ '' @ toFixed2 env (total_nan its (Some 0)) @ indent8
       @ indent8 @ ''Est'' @ a_acute
       @ '' tudo correto? Responda SIM para confirmar ou me diga o que gostaria de modificar.''
       @ END_TAG"

definition valid_payload :: "'n env \<Rightarrow> string \<Rightarrow> 'n pedido_data option" where
  \<comment> \<open>lines 1417--1442: the order of the first JSON block, when it has an \<^verbatim>\<open>items\<close> array,
      an address and a payment method\<close>
  "valid_payload env botResponse =
     (case first_block JSON_FORMAT botResponse of
        None \<Rightarrow> None
      | Some js \<Rightarrow>
          (case pedido_of_json
                  (case json_parse env js of
                     None \<Rightarrow> JObject None \<lparr>items = None, endereco = [], pagamento = [], outros = []\<rparr>
                   | Some j \<Rightarrow> j) of
             Done (Some pd) \<Rightarrow>
               if items pd \<noteq> None \<and> endereco pd \<noteq> [] \<and> pagamento pd \<noteq> [] then Some pd
               else None
           | _ \<Rightarrow> None))"

definition json_step ::
  "'n::{zero,one,plus,times} env \<Rightarrow> string \<Rightarrow> 'n conversa \<Rightarrow> 'n db \<Rightarrow> response
     \<Rightarrow> (response \<times> 'n conversa \<times> 'n db, response \<times> 'n conversa \<times> 'n db) outcome" where
  \<comment> \<open>lines 1444--1536\<close>
  "json_step env botResponse conversa d r =
     (case valid_payload env botResponse of
        None \<Rightarrow> Continue (r, conversa, d)
      | Some pd \<Rightarrow>
          if \<not> has_digit (endereco pd) then
            Return (\<lparr>success = True, resp_state = Some 4, resp_text = msg_need_number,
                     audio = [], resp_image = [], imageCaption = [], allImages = None,
                     resp_error = []\<rparr>,
                    after_save (conversa\<lparr>state := 4\<rparr>),
                    save_conversa (conversa\<lparr>state := 4\<rparr>) d)
          else
            (let conversa1 = (assign_pedidoData pd conversa)
                   \<lparr>state := (if state conversa < 6 then 6 else state conversa)\<rparr>
             in Continue
                  (r\<lparr>resp_text :=
                       (case items pd of
                          Some (item0 # rest) \<Rightarrow> textoResumo env pd item0 (item0 # rest)
                        | _ \<Rightarrow> msg_pedido_problem)\<rparr>,
                   after_save conversa1, save_conversa conversa1 d)))"

subsection \<open>CONFIRMATION block: commit (lines 1542--1656)\<close>

definition with_confirmation_image :: "bot_config option \<Rightarrow> response \<Rightarrow> response" where
  \<comment> \<open>\<^verbatim>\<open>if (botConfig && botConfig.confirmationImage) { ... }\<close>\<close>
  "with_confirmation_image botConfig r =
     (case botConfig of
        None \<Rightarrow> r
      | Some bc \<Rightarrow>
          if confirmationImage bc \<noteq> [] then
            r\<lparr>resp_image := confirmationImage bc,
              imageCaption := (if confirmationImageCaption bc \<noteq> []
                               then confirmationImageCaption bc else ''Pedido Confirmado'')\<rparr>
          else r)"

definition novoPedido :: "'n::{zero,one} conversa \<Rightarrow> 'n pedido_data \<Rightarrow> 'n item list \<Rightarrow> 'n \<Rightarrow> 'n pedido" where
  \<comment> \<open>lines 1615--1627\<close>
  "novoPedido conversa savedPedidoData its valor =
     \<lparr>p_telefone = telefone conversa,
      itens = map (\<lambda>it. \<lparr>nome = nome it, quantidade = Some (qty it), preco = preco it\<rparr>) its,
      valorTotal = Some valor,
      p_endereco = endereco savedPedidoData,
      formaPagamento = pagamento savedPedidoData,
      status = ''Confirmado''\<rparr>"

definition recovered_pedido :: "'n conversa \<Rightarrow> 'n pedido_data \<Rightarrow> 'n pedido_data option" where
  \<comment> \<open>lines 1570--1591: the staged order with an address that has a number, taken from the
      resolved address when the staged one has none (line 1580 changes the object that
      \<^verbatim>\<open>conversa.pedidoData\<close> holds in place); \<^const>\<open>None\<close>: there is no such address\<close>
  "recovered_pedido conversa saved =
     (if endereco saved = [] \<or> \<not> has_digit (endereco saved) then
        (case addressData conversa of
           None \<Rightarrow> None
         | Some ad \<Rightarrow>
             if formattedAddress ad \<noteq> [] \<and> has_digit (formattedAddress ad)
             then Some (saved\<lparr>endereco := formattedAddress ad\<rparr>)
             else None)
      else Some saved)"

definition checked_order ::
  "'n::{zero,one,plus,times} env \<Rightarrow> 'n conversa \<Rightarrow> 'n pedido_data \<Rightarrow> 'n pedido option" where
  \<comment> \<open>lines 1593--1629: the order that is written; \<^const>\<open>None\<close>: the \<^verbatim>\<open>try\<close> block throws
      (no \<^verbatim>\<open>items\<close> array, a \<^verbatim>\<open>NaN\<close> price, or the write fails)\<close>
  "checked_order env conversa savedPedidoData =
     (case items savedPedidoData of
        None \<Rightarrow> None
      | Some its \<Rightarrow>
          (case total_checked its 0 of
             None \<Rightarrow> None
           | Some valor \<Rightarrow>
               if pedido_save_ok env (novoPedido conversa savedPedidoData its valor)
               then Some (novoPedido conversa savedPedidoData its valor)
               else None))"

definition confirmation_step ::
  "'n::{zero,one,plus,times} env \<Rightarrow> string \<Rightarrow> 'n conversa \<Rightarrow> bot_config option
     \<Rightarrow> 'n db \<Rightarrow> response
     \<Rightarrow> (response \<times> 'n conversa \<times> 'n db, response \<times> 'n conversa \<times> 'n db) outcome" where
  "confirmation_step env botResponse conversa botConfig d r =
     (case first_block CONFIRMATION_FORMAT botResponse of
        None \<Rightarrow> Continue (r, conversa, d)
      | Some confirmationText \<Rightarrow>
          if pedidoId conversa \<noteq> None then
            Return (with_confirmation_image botConfig (r\<lparr>resp_text := confirmationText\<rparr>),
                    conversa, d)
          else
            (case pedidoData conversa of
               None \<Rightarrow> Continue (r\<lparr>resp_text := msg_no_pedido_data\<rparr>, conversa, d)
             | Some saved \<Rightarrow>
                 (case recovered_pedido conversa saved of
                    None \<Rightarrow>
                      Return (r\<lparr>resp_text := msg_address_incomplete\<rparr>,
                              after_save (conversa\<lparr>state := 4\<rparr>),
                              save_conversa (conversa\<lparr>state := 4\<rparr>) d)
                  | Some savedPedidoData \<Rightarrow>
                      (let conversa1 = conversa\<lparr>pedidoData := Some savedPedidoData\<rparr>
                       in case checked_order env conversa1 savedPedidoData of
                            None \<Rightarrow>
                              Continue (r\<lparr>resp_text := msg_confirm_problem\<rparr>, conversa1, d)
                          | Some novo \<Rightarrow>
                              (let conversa2 =
                                     conversa1\<lparr>pedidoId := Some (length (pedidos d)),
                                                state := 7\<rparr>
                               in Continue
                                    (with_confirmation_image botConfig
                                       (r\<lparr>resp_text := confirmationText\<rparr>),
                                     after_save conversa2,
                                     save_conversa conversa2
                                       (d\<lparr>pedidos := pedidos d @ [novo]\<rparr>)))))))"

subsection \<open>The whole function\<close>

definition final_step :: "string \<Rightarrow> response \<Rightarrow> response" where
  \<comment> \<open>lines 1658--1671\<close>
  "final_step botResponse r =
     (if resp_text r = [] \<and> resp_image r = [] \<and> audio r = [] then
        (if \<not> js_includes botResponse TEXT_FORMAT \<and> \<not> js_includes botResponse VOICE_FORMAT
            \<and> \<not> js_includes botResponse IMAGE_FORMAT \<and> \<not> js_includes botResponse JSON_FORMAT
         then r\<lparr>resp_text := botResponse\<rparr>
         else r\<lparr>resp_text := msg_processing_error\<rparr>)
      else r)"

definition processTaggedResponse ::
  "'n::{zero,one,plus,times} env \<Rightarrow> string \<Rightarrow> string \<Rightarrow> 'n conversa \<Rightarrow> bot_config option
     \<Rightarrow> 'n db \<Rightarrow> response \<times> 'n conversa \<times> 'n db" where
  \<comment> \<open>the response, the conversation in memory, and the store\<close>
  "processTaggedResponse env botResponse userMessage conversa botConfig d =
     (let r1 = voice_step env botResponse (state conversa)
                 (new_response (state conversa) botResponse);
          r2 = image_step env botResponse (state conversa) botConfig r1
      in case json_step env botResponse conversa d r2 of
           Return x \<Rightarrow> x
         | Continue (r3, c3, d3) \<Rightarrow>
             (case confirmation_step env botResponse c3 botConfig d3 r3 of
                Return x \<Rightarrow> x
              | Continue (r4, c4, d4) \<Rightarrow> (final_step botResponse r4, c4, d4)))"

section \<open>Detectors\<close>

subsection \<open>Regular expressions of the source over numbers\<close>

fun first_suffix :: "(string \<Rightarrow> 'a option) \<Rightarrow> string \<Rightarrow> 'a option" where
  \<comment> \<open>a regex search: the match at the leftmost start position that has one\<close>
  "first_suffix f [] = f []"
| "first_suffix f (c # cs) =
     (case f (c # cs) of
        Some x \<Rightarrow> Some x
      | None \<Rightarrow> first_suffix f cs)"

definition digits_at :: "nat \<Rightarrow> string \<Rightarrow> bool" where
  \<comment> \<open>\<^verbatim>\<open>\d{n}\<close> at the start of \<open>s\<close>\<close>
  "digits_at n s = (length (take n s) = n \<and> list_all is_digit (take n s))"

definition drop_dash :: "string \<Rightarrow> string" where
  \<comment> \<open>\<^verbatim>\<open>-?\<close>\<close>
  "drop_dash s = (case s of c # cs \<Rightarrow> if c = CHR ''-'' then cs else s | [] \<Rightarrow> s)"

definition cep_at :: "string \<Rightarrow> string option" where
  \<comment> \<open>\<^verbatim>\<open>(\d{5})-?\s*?(\d{3})\<close> at the start of \<open>s\<close>: the two groups joined\<close>
  "cep_at s =
     (let r = skip_ws (drop_dash (drop 5 s))
      in if digits_at 5 s \<and> digits_at 3 r then Some (take 5 s @ take 3 r) else None)"

definition has_cep :: "string \<Rightarrow> bool" where
  \<comment> \<open>\<^verbatim>\<open>/\d{5}-?\d{3}/.test(s)\<close>\<close>
  "has_cep s =
     (first_suffix (\<lambda>t. if digits_at 5 t \<and> digits_at 3 (drop_dash (drop 5 t))
                          then Some () else None) s \<noteq> None)"

definition number_after :: "bool \<Rightarrow> string \<Rightarrow> string option" where
  \<comment> \<open>\<^verbatim>\<open>\s+(\d+)\<close> when \<open>needs_space\<close>, \<^verbatim>\<open>\s*(\d+)\<close> otherwise: the group\<close>
  "number_after needs_space r =
     (let r1 = skip_ws r; ds = takeWhile is_digit r1
      in if (\<not> needs_space \<or> r1 \<noteq> r) \<and> ds \<noteq> [] then Some ds else None)"

definition kw_number_at :: "string list \<Rightarrow> bool \<Rightarrow> string \<Rightarrow> string option" where
  \<comment> \<open>one of the lower-case keywords, compared without case, then the number\<close>
  "kw_number_at kws needs_space s =
     (case find (\<lambda>k. fold_case (take (length k) s) = k) kws of
        None \<Rightarrow> None
      | Some k \<Rightarrow> number_after needs_space (drop (length k) s))"

definition match_numero :: "string \<Rightarrow> string option" where
  \<comment> \<open>\<^verbatim>\<open>s.match(/numero\s+(\d+)/i)\<close>, group 1; the u of the pattern carries an acute accent\<close>
  "match_numero s = first_suffix (kw_number_at [''n'' @ u_acute @ ''mero''] True) s"

definition match_comma_number :: "string \<Rightarrow> string option" where
  \<comment> \<open>\<^verbatim>\<open>s.match(/,\s*(\d+)/)\<close>, group 1\<close>
  "match_comma_number s = first_suffix (kw_number_at ['',''] False) s"

definition match_n_ordinal :: "string \<Rightarrow> string option" where
  \<comment> \<open>\<^verbatim>\<open>s.match(/n[..]\s*(\d+)/i)\<close> with the ordinal indicator or the degree sign, group 1\<close>
  "match_n_ordinal s = first_suffix (kw_number_at [''n'' @ ordm, ''n'' @ degree] False) s"

definition or_else :: "'a option \<Rightarrow> 'a option \<Rightarrow> 'a option" where
  \<comment> \<open>\<^verbatim>\<open>a || b\<close> on match results\<close>
  "or_else a b = (case a of Some x \<Rightarrow> Some x | None \<Rightarrow> b)"

subsection \<open>\<^verbatim>\<open>String.prototype.replace\<close> with a string pattern\<close>

fun expand_dollar :: "string \<Rightarrow> string \<Rightarrow> string \<Rightarrow> string \<Rightarrow> string" where
  \<comment> \<open>the replacement text: \<^verbatim>\<open>$$\<close>, \<^verbatim>\<open>$&\<close>, \<^verbatim>\<open>$`\<close> and \<^verbatim>\<open>$'\<close> are patterns, there are no groups\<close>
  "expand_dollar [] matched pre post = []"
| "expand_dollar [c] matched pre post = [c]"
| "expand_dollar (c # d # cs) matched pre post =
     (if c = CHR ''$'' \<and> d = CHR ''$'' then CHR ''$'' # expand_dollar cs matched pre post
      else if c = CHR ''$'' \<and> d = CHR ''&'' then matched @ expand_dollar cs matched pre post
      else if c = CHR ''$'' \<and> d = CHR 0x60 then pre @ expand_dollar cs matched pre post
      else if c = CHR ''$'' \<and> d = CHR 0x27 then post @ expand_dollar cs matched pre post
      else c # expand_dollar (d # cs) matched pre post)"

definition js_replace :: "string \<Rightarrow> string \<Rightarrow> string \<Rightarrow> string" where
  \<comment> \<open>\<^verbatim>\<open>s.replace(pat, repl)\<close>: the first occurrence only\<close>
  "js_replace s pat repl =
     (case split_first pat s of
        None \<Rightarrow> s
      | Some (pre, post) \<Rightarrow> pre @ expand_dollar repl pat pre post @ post)"

subsection \<open>\<^verbatim>\<open>detectAndValidateCEP\<close> (lines 366--399)\<close>

definition detectAndValidateCEP :: "'n env \<Rightarrow> string \<Rightarrow> address_data option" where
  "detectAndValidateCEP env message =
     (case first_suffix cep_at message of
        None \<Rightarrow> None
      | Some digits \<Rightarrow>
          (case brasilapi env digits of
             None \<Rightarrow> None
           | Some cepData \<Rightarrow>
               Some \<lparr>formattedAddress =
                       shown (street cepData) @ '', '' @ shown (neighborhood cepData) @ '', ''
                         @ shown (city cepData) @ '' - '' @ shown (comp_state cepData) @ '', ''
                         @ shown (cep cepData),
                     components = Some cepData\<rparr>))"

subsection \<open>\<^verbatim>\<open>detectImageRequest\<close> (lines 724--825)\<close>

definition any_includes :: "string \<Rightarrow> string list \<Rightarrow> bool" where
  \<comment> \<open>\<^verbatim>\<open>s.includes(k1) || s.includes(k2) || ...\<close>\<close>
  "any_includes s kws = list_ex (js_includes s) kws"

definition pizzaTypes :: "(string \<times> string) list" where
  "pizzaTypes =
     [(''amazonas'', ''pizza-salgada_pizza-amazonas''),
      (''porco & pinh'' @ a_tilde @ ''o'', ''pizza-salgada_pizza-porco-e-pinhao''),
      (''porco e pinh'' @ a_tilde @ ''o'', ''pizza-salgada_pizza-porco-e-pinhao''),
      (''porco e pinhao'', ''pizza-salgada_pizza-porco-e-pinhao''),
      (''tropicale'', ''pizza-salgada_pizza-tropicale''),
      (''napolitana paulistana'', ''pizza-salgada_pizza-napolitana-paulistana''),
      (''cerrado brasileiro'', ''pizza-salgada_pizza-cerrado-brasileiro''),
      (''caprese tropical'', ''pizza-salgada_pizza-caprese-tropical''),
      (''frutos do mar '' @ [CHR 0xC3, CHR 0xA0] @ '' paulista'',
         ''pizza-salgada_pizza-frutos-do-mar-a-paulista''),
      (''frutos do mar'', ''pizza-salgada_pizza-frutos-do-mar-a-paulista''),
      (''dolce banana'', ''pizza-doce_pizza-dolce-banana''),
      (''banana'', ''pizza-doce_pizza-dolce-banana'')]"

definition detectImageRequest :: "string \<Rightarrow> string list option" where
  "detectImageRequest message0 =
     (let message = toLowerCase message0;
          mentioned = filter (\<lambda>p. js_includes message (fst p)) pizzaTypes
      in if \<not> any_includes message
              [''imagem'', ''foto'', ''mostra'', ''mostrar'', ''ver'', ''veja'',
               ''como '' @ e_acute] then None
         else if js_includes message (''card'' @ a_acute @ ''pio'') \<or> js_includes message ''cardapio''
              \<or> js_includes message ''menu''
              \<or> (js_includes message (''op'' @ c_cedil @ o_tilde @ ''es'')
                  \<and> js_includes message ''pizza'')
           then Some [''cardapio'']
         else if (js_includes message ''meio a meio'' \<or> js_includes message ''metade''
                  \<or> js_includes message ''meio''
                  \<or> (js_includes message ''meia'' \<and> js_includes message ''meia''))
                 \<and> length mentioned \<ge> 2
           then Some [snd (mentioned ! 0) @ ''+'' @ snd (mentioned ! 1)]
         else if mentioned \<noteq> [] then Some (map snd mentioned)
         else None)"

subsection \<open>\<^verbatim>\<open>checkIfShouldAdvanceState\<close> (lines 921--1073)\<close>

definition checkIfShouldAdvanceState ::
  "string \<Rightarrow> string \<Rightarrow> nat \<Rightarrow> 'n conversa \<Rightarrow> bool" where
  "checkIfShouldAdvanceState botResponse userMessage currentState conversa =
     (let userMsg = toLowerCase userMessage;
          bot = toLowerCase botResponse
      in if currentState = 0 then
           any_includes userMsg
             [''pizza'', ''tropicale'', ''amazonas'', ''napolitana'', ''pedido'', ''quero'',
              ''manda'']
         else if currentState = 1 then
           (if any_includes bot [''tamanho'', ''grande'', ''m'' @ e_acute @ ''dia'', ''pequena'']
               \<or> any_includes bot [''inteira'', ''meio a meio'']
            then True
            else any_includes userMsg [''inteira'', ''meio'', ''metade'']
                 \<or> (js_includes bot ''pizza''
                     \<and> any_includes bot
                          [''grande'', ''m'' @ e_acute @ ''dia'', ''pequena'', ''familia'']))
         else if currentState = 2 then
           any_includes userMsg [''finalizar'', ''mais uma'', ''outra pizza'']
         else if currentState = 3 then
           any_includes userMsg
             [''sim'', ''n'' @ a_tilde @ ''o'', ''nao'', ''refrigerante'',
              ''guaran'' @ a_acute, ''guarana'', ''coca'', ''sem refrigerante'', ''sem bebida'']
         else if currentState = 4 then
           (if has_cep userMsg \<and> match_comma_number userMsg \<noteq> None then True
            else if only_digits userMsg then True
            else has_digit userMsg)
         else if currentState = 5 then
           any_includes userMsg
             [''d'' @ e_acute @ ''bito'', ''debito'', ''cr'' @ e_acute @ ''dito'', ''credito'',
              ''dinheiro'', ''pix'', ''vr'']
         else if currentState = 6 then
           any_includes (toLowerCase userMessage)
             [''sim'', ''confirmo'', ''correto'', ''ok'', ''pode ser'']
           \<and> js_includes botResponse CONFIRMATION_FORMAT
           \<and> (case pedidoData conversa of
                 None \<Rightarrow> False
               | Some pd \<Rightarrow> items pd \<noteq> None \<and> endereco pd \<noteq> [] \<and> pagamento pd \<noteq> [])
         else False)"

section \<open>\<^verbatim>\<open>processMessageInternally\<close> (lines 2165--2902)\<close>

subsection \<open>Canned texts\<close>

definition msg_payment_options :: string where
  "msg_payment_options = ''Qual ser'' @ a_acute @ '' a forma de pagamento? Temos as op''
     @ c_cedil @ o_tilde @ ''es: Dinheiro, Cart'' @ a_tilde @ ''o de cr'' @ e_acute
     @ ''dito, Cart'' @ a_tilde @ ''o de d'' @ e_acute @ ''bito, PIX ou VR.''"

definition msg_address_registered :: "string \<Rightarrow> string" where
  "msg_address_registered formatted = ''Perfeito! Endere'' @ c_cedil @ ''o registrado: ''
     @ formatted @ ''. '' @ msg_payment_options"

definition msg_cartao :: string where
  "msg_cartao = ''Por favor, especifique se deseja pagar com cart'' @ a_tilde @ ''o de cr''
     @ e_acute @ ''dito ou d'' @ e_acute @ ''bito.''"

definition msg_reset :: string where
  "msg_reset = ''Seu pedido foi reiniciado. Como posso ajudar?''"

definition msg_sem_pedido :: string where
  "msg_sem_pedido = TEXT_FORMAT @ ''Desculpe, houve um problema com seu pedido. Poderia come''
     @ c_cedil @ ''ar novamente?'' @ END_TAG"

definition msg_erro_finalizar :: string where
  "msg_erro_finalizar = TEXT_FORMAT
     @ ''Desculpe, ocorreu um erro ao finalizar seu pedido. Por favor, tente novamente.''
     @ END_TAG"

definition msg_problemas_tecnicos :: string where
  "msg_problemas_tecnicos = TEXT_FORMAT
     @ ''Desculpe, estou enfrentando alguns problemas t'' @ e_acute
     @ ''cnicos no momento. Poderia tentar novamente em instantes?'' @ END_TAG"

definition msg_erro_interno :: string where
  "msg_erro_interno = TEXT_FORMAT
     @ ''Desculpe, ocorreu um erro ao processar sua mensagem.'' @ END_TAG"

definition confirmacao_text :: "'n::{zero,one,plus,times} env \<Rightarrow> 'n pedido_data \<Rightarrow> 'n item \<Rightarrow> 'n item list \<Rightarrow> string \<Rightarrow> string" where
  \<comment> \<open>lines 2448--2459, after \<^verbatim>\<open>trim()\<close>\<close>
  "confirmacao_text env pd item0 its completo =
     TEXT_FORMAT @ party @ '' *PEDIDO CONFIRMADO* '' @ party @ nl
       @ nl @ ''*Pizza '' @ nome item0 @ ''* - R$ '' @ toFixed2 env (preco item0) @ nl
       @ nl @ ''*Endere'' @ c_cedil @ ''o de entrega:* '' @ completo
       @ nl @ ''*Forma de pagamento:* '' @ pagamento pd @ nl
       @ nl @ ''*Total:* R$ '' @ toFixed2 env (total_nan its (Some 0)) @ nl
       @ nl @ ''Seu pedido ser'' @ a_acute
       @ '' entregue em aproximadamente 50 minutos. Obrigado pela prefer'' @ e_circ
       @ ''ncia! '' @ pizza_slice @ END_TAG"

subsection \<open>Responses and the message history\<close>

definition reply :: "string \<Rightarrow> nat option \<Rightarrow> response" where
  \<comment> \<open>the object literal \<^verbatim>\<open>{ success: true, text, state }\<close>\<close>
  "reply t st =
     \<lparr>success = True, resp_state = st, resp_text = t, audio = [], resp_image = [],
      imageCaption = [], allImages = None, resp_error = []\<rparr>"

definition push_msg :: "tipo \<Rightarrow> string \<Rightarrow> 'n conversa \<Rightarrow> 'n conversa" where
  \<comment> \<open>\<^verbatim>\<open>conversa.mensagens.push({ tipo, conteudo, data })\<close>\<close>
  "push_msg t c conversa = conversa\<lparr>mensagens := mensagens conversa @ [\<lparr>tipo = t, conteudo = c\<rparr>]\<rparr>"

datatype log_event = Alerta_estado7_sem_pedidoId
  \<comment> \<open>\<^verbatim>\<open>console.error('ALERTA: Estado 7 sem pedidoId - ...')\<close>; other log lines are not kept\<close>

definition is_reset :: "string \<Rightarrow> bool" where
  "is_reset message =
     (toLowerCase message = ''reiniciar''
      \<or> toLowerCase message = ''come'' @ c_cedil @ ''ar de novo''
      \<or> toLowerCase message = ''novo pedido'')"

subsection \<open>State 4: a bare house number (lines 2217--2282)\<close>

definition state4_number ::
  "string \<Rightarrow> 'n conversa \<Rightarrow> 'n db \<Rightarrow> (response \<times> 'n db) option" where
  \<comment> \<open>\<^const>\<open>None\<close>: the turn goes on. Line 2254 changes the staged order in place, so that the
      two saves (lines 2260 and 2272) do not write it unless an assignment is pending.\<close>
  "state4_number message conversa d =
     (if state conversa = 4 \<and> only_digits message then
        (case addressData conversa of
           None \<Rightarrow> None
         | Some ad \<Rightarrow>
             (case components ad of
                None \<Rightarrow> None
              | Some comps \<Rightarrow>
                  if \<not> truthy (street comps) then None
                  else
                    (let streetText = shown (street comps);
                         number = js_trim message;
                         formatted =
                           (if formattedAddress ad \<noteq> [] then
                              js_replace (formattedAddress ad) streetText
                                (streetText @ '', '' @ number)
                            else streetText @ '', '' @ number);
                         conversa1 = conversa
                           \<lparr>addressData := Some (ad\<lparr>formattedAddress := formatted\<rparr>),
                            pedidoData := map_option (\<lambda>pd. pd\<lparr>endereco := formatted\<rparr>)
                                            (pedidoData conversa),
                            state := 5\<rparr>;
                         t = TEXT_FORMAT @ msg_address_registered formatted @ END_TAG
                     in Some (reply t (Some 5), save_conversa (push_msg Bot t conversa1) d))))
      else None)"

subsection \<open>State 5: payment prompts (lines 2284--2347)\<close>

definition state5_payment ::
  "string \<Rightarrow> 'n conversa \<Rightarrow> 'n db \<Rightarrow> (response \<times> 'n db) option" where
  "state5_payment message conversa d =
     (if state conversa = 5 \<and> message \<noteq> ''5'' then
        (let mensagensNoEstado5 =
               filter (\<lambda>msg. tipo msg = User \<and> state conversa = 5) (mensagens conversa)
         in if length mensagensNoEstado5 \<le> 1 then
              (let botResponse = TEXT_FORMAT @ msg_payment_options @ END_TAG
               in Some (reply botResponse None,
                        save_conversa (push_msg Bot botResponse conversa) d))
            else
              (let m = toLowerCase message;
                   temCartao = (js_includes m (''cart'' @ a_tilde @ ''o'') \<or> js_includes m ''cartao'');
                   temCredito = (js_includes m ''credito'' \<or> js_includes m (''cr'' @ e_acute @ ''dito''));
                   temDebito = (js_includes m ''debito'' \<or> js_includes m (''d'' @ e_acute @ ''bito''))
               in if temCartao \<and> \<not> temCredito \<and> \<not> temDebito then
                    (let t = TEXT_FORMAT @ msg_cartao @ END_TAG
                     in Some (reply t None, save_conversa (push_msg Bot t conversa) d))
                  else None))
      else None)"

subsection \<open>State 6: the customer confirms (lines 2349--2497)\<close>

fun numero_no_historico :: "nat \<Rightarrow> mensagem list \<Rightarrow> string option" where
  \<comment> \<open>the loop of lines 2383--2404 over the messages, last one first\<close>
  "numero_no_historico st [] = None"
| "numero_no_historico st (msg # older) =
     (if tipo msg = User then
        (case or_else (match_numero (conteudo msg))
                (or_else (match_comma_number (conteudo msg))
                   (match_n_ordinal (conteudo msg))) of
           Some n \<Rightarrow> Some n
         | None \<Rightarrow>
             if only_digits (conteudo msg) \<and> st = 4
             then Some (takeWhile is_digit (skip_ws (conteudo msg)))
             else numero_no_historico st older)
      else numero_no_historico st older)"

definition enderecoCompleto :: "'n conversa \<Rightarrow> 'n pedido_data \<Rightarrow> string" where
  \<comment> \<open>lines 2370--2419\<close>
  "enderecoCompleto conversa pd =
     (case addressData conversa of
        None \<Rightarrow> endereco pd
      | Some ad \<Rightarrow>
          (case components ad of
             None \<Rightarrow> endereco pd
           | Some comps \<Rightarrow>
               if has_digit (endereco pd) then endereco pd
               else (case numero_no_historico (state conversa) (rev (mensagens conversa)) of
                       None \<Rightarrow> endereco pd
                     | Some numeroEndereco \<Rightarrow>
                         shown (street comps) @ '', '' @ numeroEndereco @ '', ''
                           @ shown (neighborhood comps) @ '', '' @ shown (city comps)
                           @ '' - '' @ shown (comp_state comps) @ '', '' @ shown (cep comps))))"

definition is_affirmative :: "string \<Rightarrow> bool" where
  \<comment> \<open>the test of line 2350\<close>
  "is_affirmative message = any_includes (toLowerCase message) [''sim'', ''correto'', ''ok'']"

definition state6_confirm ::
  "'n::{zero,one,plus,times} env \<Rightarrow> string \<Rightarrow> 'n conversa \<Rightarrow> 'n db
     \<Rightarrow> (response \<times> 'n db) option" where
  "state6_confirm env message conversa d =
     (if state conversa = 6 \<and> is_affirmative message then
        (case pedidoData conversa of
           None \<Rightarrow> Some (reply msg_sem_pedido (Some 0), d)
         | Some pd \<Rightarrow>
             (case items pd of
                None \<Rightarrow> Some (reply msg_erro_finalizar (Some 6), d)
              | Some its \<Rightarrow>
                  (let completo = enderecoCompleto conversa pd;
                       novo = \<lparr>p_telefone = telefone conversa, itens = its,
                               valorTotal = total_nan its (Some 0), p_endereco = completo,
                               formaPagamento = pagamento pd, status = ''Confirmado''\<rparr>
                   in if \<not> pedido_save_ok env novo then
                        Some (reply msg_erro_finalizar (Some 6), d)
                      else
                        (let d1 = d\<lparr>pedidos := pedidos d @ [novo]\<rparr>;
                             conversa1 = conversa\<lparr>pedidoId := Some (length (pedidos d)),
                                                   state := 7\<rparr>
                         in case its of
                              [] \<Rightarrow> Some (reply msg_erro_finalizar (Some 6), d1)
                            | item0 # _ \<Rightarrow>
                                (let confirmacao = confirmacao_text env pd item0 its completo;
                                     conversa2 = push_msg Bot confirmacao conversa1;
                                     d2 = save_conversa conversa2 d1;
                                     d3 = save_conversa (new_conversa (telefone conversa) d2) d2
                                 in case processTaggedResponse env confirmacao message
                                           (after_save conversa2) None d3 of
                                      (r, c, d4) \<Rightarrow> Some (r, d4))))))
      else None)"

subsection \<open>A request for pictures (lines 2499--2539)\<close>

definition image_request_text :: "string list \<Rightarrow> string" where
  "image_request_text ids =
     (if hd ids = ''cardapio'' then
        TEXT_FORMAT @ ''Aqui est'' @ a_acute @ '' nosso card'' @ a_acute @ ''pio:'' @ END_TAG
          @ nl @ IMAGE_FORMAT @ ''cardapio'' @ END_TAG
      else if length ids > 1 then
        TEXT_FORMAT @ ''Aqui est'' @ a_tilde @ ''o as imagens das pizzas solicitadas:'' @ END_TAG
          @ concat (map (\<lambda>i. nl @ IMAGE_FORMAT @ i @ END_TAG) ids)
          @ nl @ TEXT_FORMAT @ ''Gostaria de pedir alguma destas pizzas?'' @ END_TAG
      else
        TEXT_FORMAT @ ''Aqui est'' @ a_acute @ '' a imagem da pizza solicitada:'' @ END_TAG
          @ nl @ IMAGE_FORMAT @ hd ids @ END_TAG
          @ nl @ TEXT_FORMAT @ ''Gostaria de pedir esta pizza?'' @ END_TAG)"

definition image_request ::
  "'n::{zero,one,plus,times} env \<Rightarrow> string \<Rightarrow> 'n conversa \<Rightarrow> 'n db
     \<Rightarrow> (response \<times> 'n db) option" where
  "image_request env message conversa d =
     (case detectImageRequest message of
        None \<Rightarrow> None
      | Some ids \<Rightarrow>
          if ids = [] then None
          else
            (let responseText = image_request_text ids;
                 conversa1 = push_msg Bot responseText conversa
             in case processTaggedResponse env responseText message (after_save conversa1)
                       (botConfig_findOne env) (save_conversa conversa1 d) of
                  (r, c, d1) \<Rightarrow> Some (r, d1)))"

subsection \<open>The language model and the repair of its answer (lines 2624--2810)\<close>

definition has_format :: "string \<Rightarrow> bool" where
  \<comment> \<open>the negation of the test of lines 2798--2803\<close>
  "has_format botResponse =
     ((js_includes botResponse TEXT_FORMAT \<and> js_includes botResponse END_TAG)
      \<or> (js_includes botResponse VOICE_FORMAT \<and> js_includes botResponse END_TAG)
      \<or> (js_includes botResponse IMAGE_FORMAT \<and> js_includes botResponse END_TAG)
      \<or> (js_includes botResponse JSON_FORMAT \<and> js_includes botResponse END_TAG))"

definition ensure_format :: "string \<Rightarrow> string" where
  \<comment> \<open>lines 2797--2806\<close>
  "ensure_format botResponse =
     (if has_format botResponse then botResponse else TEXT_FORMAT @ botResponse @ END_TAG)"

definition extractPedidoData :: "'n env \<Rightarrow> string \<Rightarrow> 'n pedido_data option" where
  \<comment> \<open>lines 1680--1717\<close>
  "extractPedidoData env t =
     (case first_block JSON_FORMAT t of
        None \<Rightarrow> None
      | Some js \<Rightarrow>
          (case json_parse env js of
             None \<Rightarrow> None
           | Some jsonData \<Rightarrow>
               (case pedido_of_json jsonData of
                  Done (Some pd) \<Rightarrow>
                    if items pd \<noteq> None \<and> endereco pd \<noteq> [] \<and> pagamento pd \<noteq> []
                       \<and> has_digit (endereco pd)
                    then Some pd else None
                | _ \<Rightarrow> None)))"

definition stage_extracted :: "'n env \<Rightarrow> string \<Rightarrow> 'n conversa \<Rightarrow> 'n db \<Rightarrow> 'n conversa \<times> 'n db" where
  \<comment> \<open>lines 2657--2678, after an answer of the model\<close>
  "stage_extracted env botResponse conversa d =
     (case extractPedidoData env botResponse of
        None \<Rightarrow> (conversa, d)
      | Some extracted \<Rightarrow>
          (let conversa1 = assign_pedidoData extracted conversa
           in (after_save conversa1, save_conversa conversa1 d)))"

definition stage_json :: "'n env \<Rightarrow> string \<Rightarrow> 'n conversa \<Rightarrow> 'n db \<Rightarrow> 'n conversa \<times> 'n db" where
  \<comment> \<open>lines 2688--2710: whatever the block parses to is kept and the state becomes 6\<close>
  "stage_json env botResponse conversa d =
     (if js_includes botResponse JSON_FORMAT then
        (case first_block JSON_FORMAT botResponse of
           None \<Rightarrow> (conversa, d)
         | Some js \<Rightarrow>
             if js = [] then (conversa, d)
             else
               (case json_parse env (js_trim js) of
                  None \<Rightarrow> (conversa, d)
                | Some JNull \<Rightarrow> (conversa, d)
                | Some (JObject ped flat) \<Rightarrow>
                    if telefone conversa = [] then (conversa, d)
                    else
                      (let conversa1 =
                             (assign_pedidoData (case ped of Some p \<Rightarrow> p | None \<Rightarrow> flat)
                                conversa)\<lparr>state := 6\<rparr>
                       in (after_save conversa1, save_conversa conversa1 d))))
      else (conversa, d))"

definition strip_requests :: "string \<Rightarrow> string" where
  \<comment> \<open>lines 2722--2726\<close>
  "strip_requests botResponse =
     js_trim
       (js_replace
          (js_replace
             (js_replace
                (js_replace
                   (js_replace
                      (js_replace botResponse ''[REQUEST_HISTORY]'' [])
                      ''[/REQUEST_HISTORY]'' [])
                   ''[REQUEST_MENU]'' [])
                ''[/REQUEST_MENU]'' [])
             ''[REQUEST_PAYMENT]'' [])
          ''[/REQUEST_PAYMENT]'' [])"

definition enrich :: "'n env \<Rightarrow> string \<Rightarrow> string option" where
  \<comment> \<open>lines 2712--2795; \<^const>\<open>None\<close>: the answer is \<^verbatim>\<open>null\<close> from here on\<close>
  "enrich env botResponse =
     (let needsHistory = any_includes botResponse [''[REQUEST_HISTORY]'', ''[/REQUEST_HISTORY]''];
          needsMenu = any_includes botResponse [''[REQUEST_MENU]'', ''[/REQUEST_MENU]''];
          needsPayment = any_includes botResponse [''[REQUEST_PAYMENT]'', ''[/REQUEST_PAYMENT]'']
      in if needsHistory \<or> needsMenu \<or> needsPayment then
           (if (needsHistory \<and> has_historia env) \<or> (needsMenu \<and> has_cardapio env)
               \<or> (needsPayment \<and> has_formasPagamento env) then
              (case enriched_completion env of
                 ApiError \<Rightarrow> Some (strip_requests botResponse)
               | NullContent \<Rightarrow> None
               | Content e \<Rightarrow> Some (ensure_format e))
            else Some (strip_requests botResponse))
         else Some botResponse)"

definition llm_stage :: "'n env \<Rightarrow> 'n conversa \<Rightarrow> 'n db \<Rightarrow> string \<times> 'n conversa \<times> 'n db" where
  \<comment> \<open>lines 2624--2810: the answer as it goes on, the conversation and the store\<close>
  "llm_stage env conversa d =
     (case chat_completion env of
        NullContent \<Rightarrow> (msg_problemas_tecnicos, conversa, d)
      | ApiError \<Rightarrow>
          (case stage_json env msg_problemas_tecnicos conversa d of
             (c2, d2) \<Rightarrow>
               (case enrich env msg_problemas_tecnicos of
                  None \<Rightarrow> (msg_problemas_tecnicos, c2, d2)
                | Some b \<Rightarrow> (ensure_format b, c2, d2)))
      | Content botResponse \<Rightarrow>
          (case stage_extracted env botResponse conversa d of
             (c1, d1) \<Rightarrow>
               (case stage_json env botResponse c1 d1 of
                  (c2, d2) \<Rightarrow>
                    (case enrich env botResponse of
                       None \<Rightarrow> (msg_problemas_tecnicos, c2, d2)
                     | Some b \<Rightarrow> (ensure_format b, c2, d2)))))"

subsection \<open>The state step (lines 2819--2880)\<close>

definition advance_state ::
  "string \<Rightarrow> string \<Rightarrow> 'n conversa \<Rightarrow> 'n conversa \<times> log_event list" where
  "advance_state botResponse message conversa =
     (if checkIfShouldAdvanceState botResponse message (state conversa) conversa
         \<and> state conversa < 7
      then (conversa\<lparr>state := state conversa + 1\<rparr>, [])
      else if state conversa = 7 then
        (conversa, if pedidoId conversa = None then [Alerta_estado7_sem_pedidoId] else [])
      else (conversa, []))"

subsection \<open>The whole turn\<close>

definition prelude ::
  "'n env \<Rightarrow> string \<Rightarrow> bool \<Rightarrow> 'n conversa \<Rightarrow> 'n db \<Rightarrow> 'n conversa \<times> 'n db" where
  \<comment> \<open>lines 2194--2215: the postal-code lookup and the push of the customer's message\<close>
  "prelude env message isAudio conversa d =
     (let userMsg = (if isAudio then ''['' @ [CHR 0xC3, CHR 0x81] @ ''udio]: '' @ message
                     else message)
      in case detectAndValidateCEP env message of
           None \<Rightarrow> (push_msg User userMsg conversa, d)
         | Some ad \<Rightarrow>
             (push_msg User userMsg (after_save (conversa\<lparr>addressData := Some ad\<rparr>)),
              save_conversa (conversa\<lparr>addressData := Some ad\<rparr>) d))"

definition processMessageInternally ::
  "'n::{zero,one,plus,times} env \<Rightarrow> string \<Rightarrow> string \<Rightarrow> bool \<Rightarrow> 'n conversa \<Rightarrow> 'n db
     \<Rightarrow> response \<times> 'n db \<times> log_event list" where
  "processMessageInternally env userPhone message isAudio conversa d =
     (if userPhone = [] then
        (\<lparr>success = False, resp_state = None, resp_text = msg_erro_interno, audio = [],
          resp_image = [], imageCaption = [], allImages = None,
          resp_error = ''Erro interno do servidor''\<rparr>, d, [])
      else if is_reset message then (reply msg_reset None, d, [])
      else
        (case prelude env message isAudio conversa d of
           (c2, d1) \<Rightarrow>
           (case state4_number message c2 d1 of
              Some (r, d') \<Rightarrow> (r, d', [])
            | None \<Rightarrow>
           (case state5_payment message c2 d1 of
              Some (r, d') \<Rightarrow> (r, d', [])
            | None \<Rightarrow>
           (case state6_confirm env message c2 d1 of
              Some (r, d') \<Rightarrow> (r, d', [])
            | None \<Rightarrow>
           (case image_request env message c2 d1 of
              Some (r, d') \<Rightarrow> (r, d', [])
            | None \<Rightarrow>
           (case llm_stage env c2 d1 of
              (botResponse, c3, d3) \<Rightarrow>
                (case advance_state botResponse message (push_msg Bot botResponse c3) of
                   (c4, logs) \<Rightarrow>
                     (case processTaggedResponse env botResponse message (after_save c4)
                             (cached_botConfig env) (save_conversa c4 d3) of
                        (r, c5, d5) \<Rightarrow> (r, d5, logs))))))))))"

section \<open>Entry points\<close>

subsection \<open>\<^verbatim>\<open>getOrCreateConversation\<close> (lines 1915--1975)\<close>

definition getOrCreateConversation ::
  "string \<Rightarrow> string \<Rightarrow> bool \<Rightarrow> 'n db \<Rightarrow> 'n conversa \<times> 'n db" where
  \<comment> \<open>\<open>stale\<close>: the newest conversation of the caller began more than three hours ago\<close>
  "getOrCreateConversation userPhone message stale d =
     (let fresh = (new_conversa userPhone d, save_conversa (new_conversa userPhone d) d)
      in if is_reset message then fresh
         else (case find (\<lambda>c. telefone c = userPhone) (conversas d) of
                 Some conversa \<Rightarrow> if state conversa = 7 \<or> stale then fresh else (conversa, d)
               | None \<Rightarrow> fresh))"

subsection \<open>The text blocks that are sent (lines 1815--1825)\<close>

function all_blocks :: "string \<Rightarrow> string \<Rightarrow> string list" where
  \<comment> \<open>\<^verbatim>\<open>s.match(/\[TAG\]([\s\S]*?)\[\/END\]/g)\<close>: the payload of every block, in order\<close>
  "all_blocks tag s =
     (case block_match tag s of
        None \<Rightarrow> []
      | Some (p, rest) \<Rightarrow> p # all_blocks tag rest)"
  by pat_completeness auto
termination
  by (relation "measure (\<lambda>(tag, s). length s)") (auto dest: block_match_shorter)

declare all_blocks.simps [simp del]

function strip_text_tags :: "string \<Rightarrow> string" where
  \<comment> \<open>\<^verbatim>\<open>block.replace(/\[TEXT_FORMAT\]|\[\/END\]/g, '')\<close>\<close>
  "strip_text_tags s =
     (if s = [] then []
      else if prefix TEXT_FORMAT s then strip_text_tags (drop (length TEXT_FORMAT) s)
      else if prefix END_TAG s then strip_text_tags (drop (length END_TAG) s)
      else hd s # strip_text_tags (tl s))"
  by pat_completeness auto
termination
  by (relation "measure length") (auto simp: TEXT_FORMAT_def END_TAG_def)

declare strip_text_tags.simps [simp del]

definition text_messages :: "string \<Rightarrow> string list" where
  \<comment> \<open>what \<^verbatim>\<open>client.sendMessage\<close> gets for the text of a response\<close>
  "text_messages t =
     filter (\<lambda>m. m \<noteq> [])
       (map (\<lambda>p. js_trim (strip_text_tags (TEXT_FORMAT @ p @ END_TAG)))
          (all_blocks TEXT_FORMAT t))"

subsection \<open>\<^verbatim>\<open>handleResetRequest\<close> (lines 2101--2162)\<close>

definition msg_welcome_default :: string where
  "msg_welcome_default = ''Ol'' @ a_acute
     @ ''! Sou o atendente virtual da pizzaria. Como posso ajudar?''"

definition handleResetRequest ::
  "'n::{zero,one,plus,times} env \<Rightarrow> string \<Rightarrow> 'n db \<Rightarrow> string list \<times> 'n db" where
  \<comment> \<open>the texts sent and the store; the configuration is read with
      \<^verbatim>\<open>select('welcomeMessage')\<close>, so that it holds no image\<close>
  "handleResetRequest env userPhone d =
     (let conversa = new_conversa userPhone d;
          d1 = save_conversa conversa d;
          botConfig = map_option
            (\<lambda>bc. \<lparr>menuImage = [], menuImageCaption = [], confirmationImage = [],
                   confirmationImageCaption = [], welcomeMessage = welcomeMessage bc\<rparr>)
            (botConfig_findOne env);
          welcome = (case botConfig of
                       None \<Rightarrow> msg_welcome_default
                     | Some bc \<Rightarrow> if welcomeMessage bc \<noteq> [] then welcomeMessage bc
                                  else msg_welcome_default);
          formattedWelcome = (if js_includes welcome TEXT_FORMAT then welcome
                              else TEXT_FORMAT @ welcome @ END_TAG);
          conversa1 = push_msg Bot formattedWelcome (push_msg User ''reiniciar'' conversa)
      in case processTaggedResponse env formattedWelcome ''reiniciar'' (after_save conversa1)
                botConfig (save_conversa conversa1 d1) of
           (r, c, d2) \<Rightarrow> (text_messages (resp_text r), d2))"

subsection \<open>\<^verbatim>\<open>handleAudioRequest\<close> (lines 1978--2036)\<close>

definition msg_obrigado :: string where
  "msg_obrigado = ''Pedido confirmado! Obrigado pela prefer'' @ e_circ @ ''ncia.''"

definition times_nan :: "'n::times option \<Rightarrow> 'n \<Rightarrow> 'n option" where
  "times_nan p q = map_option (\<lambda>x. x * q) p"

definition plus_nan :: "'n::plus option \<Rightarrow> 'n option \<Rightarrow> 'n option" where
  "plus_nan a b = (case (a, b) of (Some x, Some y) \<Rightarrow> Some (x + y) | _ \<Rightarrow> None)"

definition gerarTextoConfirmacaoPedido ::
  "'n::{zero,one,plus,times} env \<Rightarrow> 'n pedido_data \<Rightarrow> 'n conversa \<Rightarrow> string" where
  \<comment> \<open>lines 886--918\<close>
  "gerarTextoConfirmacaoPedido env pd conversa =
     (case items pd of
        None \<Rightarrow> msg_obrigado
      | Some its \<Rightarrow>
          if endereco pd = [] \<or> pagamento pd = [] then msg_obrigado
          else
            party @ '' *PEDIDO CONFIRMADO* '' @ party @ nl @ nl @ ''*Itens:*'' @ nl
              @ concat (map (\<lambda>it. ''- '' @ num_text env (qty it) @ ''x *'' @ nome it @ ''*: R$''
                                   @ toFixed2 env (preco it) @ '' = R$''
                                   @ toFixed2 env (times_nan (preco it) (qty it)) @ nl) its)
              @ nl @ ''*Valor Total:* R$''
              @ toFixed2 env (foldl (\<lambda>acc it. plus_nan acc (times_nan (preco it) (qty it)))
                                (Some 0) its) @ nl
              @ ''*Endere'' @ c_cedil @ ''o de Entrega:* ''
              @ (case addressData conversa of
                   None \<Rightarrow> endereco pd
                 | Some ad \<Rightarrow> if formattedAddress ad \<noteq> [] then formattedAddress ad
                              else endereco pd) @ nl
              @ ''*Forma de Pagamento:* '' @ pagamento pd @ nl @ nl
              @ ''Seu pedido ser'' @ a_acute
              @ '' entregue em aproximadamente 50 minutos. Obrigado pela prefer'' @ e_circ
              @ ''ncia! '' @ pizza_slice)"

definition msg_audio_sem_dados :: string where
  "msg_audio_sem_dados = ''Desculpe, n'' @ a_tilde
     @ ''o encontrei dados de pedido para gerar o '' @ a_acute
     @ ''udio. Por favor, fa'' @ c_cedil @ ''a seu pedido primeiro.''"

definition msg_audio_falhou :: string where
  "msg_audio_falhou = ''Desculpe, n'' @ a_tilde @ ''o consegui gerar o '' @ a_acute
     @ ''udio da confirma'' @ c_cedil @ a_tilde @ ''o neste momento. ''
     @ ''Seu pedido foi registrado e ser'' @ a_acute
     @ '' entregue em aproximadamente 50 minutos.''"

definition handleAudioRequest ::
  "'n::{zero,one,plus,times} env \<Rightarrow> string \<Rightarrow> string \<Rightarrow> 'n db \<Rightarrow> string list option" where
  \<comment> \<open>\<^const>\<open>None\<close>: it returns \<^verbatim>\<open>false\<close>; otherwise the texts it sends before returning
      \<^verbatim>\<open>true\<close> (the voice message itself is not a text)\<close>
  "handleAudioRequest env userPhone message d =
     (let m = toLowerCase message
      in if \<not> any_includes m [''audio'', a_acute @ ''udio'', ''ouvir'', ''escutar''] then None
         else if any_includes m
                   [''confirma'' @ c_cedil @ a_tilde @ ''o'', ''confirmado'', ''pedido''] then
           (case find (\<lambda>c. telefone c = userPhone) (conversas d) of
              None \<Rightarrow> Some [msg_audio_sem_dados]
            | Some conversa \<Rightarrow>
                (case pedidoData conversa of
                   None \<Rightarrow> Some [msg_audio_sem_dados]
                 | Some pd \<Rightarrow>
                     if generateAudio env (gerarTextoConfirmacaoPedido env pd conversa) \<noteq> []
                     then Some [] else Some [msg_audio_falhou]))
         else None)"

subsection \<open>\<^verbatim>\<open>processTextMessage\<close> (lines 1778--1912) and the route \<^verbatim>\<open>/api/message\<close>\<close>

definition msg_erro_processar :: string where
  "msg_erro_processar =
     ''Desculpe, ocorreu um erro ao processar sua mensagem. Por favor, tente novamente.''"

definition processTextMessage ::
  "'n::{zero,one,plus,times} env \<Rightarrow> string \<Rightarrow> string \<Rightarrow> bool \<Rightarrow> 'n db
     \<Rightarrow> string list \<times> 'n db \<times> log_event list" where
  \<comment> \<open>the texts sent to the customer, the store and the alerts logged\<close>
  "processTextMessage env userPhone txt stale d =
     (case handleAudioRequest env userPhone txt d of
        Some sent \<Rightarrow> (sent, d, [])
      | None \<Rightarrow>
          (case getOrCreateConversation userPhone txt stale d of
             (conversa, d1) \<Rightarrow>
               if is_reset txt then
                 (case handleResetRequest env userPhone d1 of (sent, d2) \<Rightarrow> (sent, d2, []))
               else
                 (case processMessageInternally env userPhone txt False conversa d1 of
                    (apiResponse, d2, logs) \<Rightarrow>
                      (if \<not> success apiResponse then [msg_erro_processar]
                       else if resp_text apiResponse \<noteq> []
                       then text_messages (resp_text apiResponse) else [],
                       d2, logs))))"

definition api_message ::
  "'n::{zero,one,plus,times} env \<Rightarrow> string \<Rightarrow> string \<Rightarrow> bool \<Rightarrow> bool \<Rightarrow> 'n db
     \<Rightarrow> response \<times> 'n db \<times> log_event list" where
  \<comment> \<open>lines 2976--3017, for a request that has a phone and a message\<close>
  "api_message env phone message isAudio stale d =
     (case getOrCreateConversation phone message stale d of
        (conversa, d1) \<Rightarrow> processMessageInternally env phone message isAudio conversa d1)"

section \<open>Properties of \<^verbatim>\<open>processTaggedResponse\<close>\<close>

subsection \<open>The JSON and CONFIRMATION steps\<close>

lemma save_conversa_pedidos [simp]: "pedidos (save_conversa c d) = pedidos d"
  by (simp add: save_conversa_def)

lemma after_save_simps [simp]:
  "cid (after_save c) = cid c" "telefone (after_save c) = telefone c"
  "state (after_save c) = state c" "mensagens (after_save c) = mensagens c"
  "addressData (after_save c) = addressData c" "pedidoData (after_save c) = pedidoData c"
  "pedidoId (after_save c) = pedidoId c" "\<not> pedidoData_modified (after_save c)"
  by (simp_all add: after_save_def)

lemma assign_pedidoData_simps [simp]:
  "cid (assign_pedidoData pd c) = cid c" "telefone (assign_pedidoData pd c) = telefone c"
  "state (assign_pedidoData pd c) = state c" "mensagens (assign_pedidoData pd c) = mensagens c"
  "addressData (assign_pedidoData pd c) = addressData c"
  "pedidoData (assign_pedidoData pd c) = Some pd"
  "pedidoId (assign_pedidoData pd c) = pedidoId c" "pedidoData_modified (assign_pedidoData pd c)"
  by (simp_all add: assign_pedidoData_def)

lemma written_simps [simp]:
  "cid (written c old) = cid c" "telefone (written c old) = telefone c"
  "state (written c old) = state c" "mensagens (written c old) = mensagens c"
  "pedidoId (written c old) = pedidoId c" "\<not> pedidoData_modified (written c old)"
  "pedidoData (written c old) = (if pedidoData_modified c then pedidoData c else old)"
  "addressData (written c old) = map_option stored_address (addressData c)"
  by (simp_all add: written_def)

lemma formattedAddress_stored [simp]:
  "formattedAddress (stored_address ad) = formattedAddress ad"
  by (simp add: stored_address_def)

lemma json_step_Return:
  "json_step env b c d r = Return x \<Longrightarrow>
     x = (reply msg_need_number (Some 4), after_save (c\<lparr>state := 4\<rparr>),
          save_conversa (c\<lparr>state := 4\<rparr>) d)
     \<and> (\<exists>pd. valid_payload env b = Some pd \<and> \<not> has_digit (endereco pd))"
  by (auto simp: json_step_def reply_def Let_def split: option.splits if_splits)

lemma json_step_Continue:
  "json_step env b c d r = Continue (r', c', d') \<Longrightarrow>
     (valid_payload env b = None \<and> c' = c \<and> d' = d \<and> r' = r)
     \<or> (\<exists>pd. valid_payload env b = Some pd \<and> has_digit (endereco pd)
           \<and> c' = after_save
                  ((assign_pedidoData pd c)\<lparr>state := (if state c < 6 then 6 else state c)\<rparr>)
           \<and> d' = save_conversa
                  ((assign_pedidoData pd c)\<lparr>state := (if state c < 6 then 6 else state c)\<rparr>) d
           \<and> r' = r\<lparr>resp_text := resp_text r'\<rparr>)"
  by (auto simp: json_step_def Let_def split: option.splits if_splits)

lemma json_step_Continue_facts:
  assumes "json_step env b c d r = Continue (r', c', d')"
  shows "pedidos d' = pedidos d" "pedidoId c' = pedidoId c" "cid c' = cid c"
    "telefone c' = telefone c" "addressData c' = addressData c"
    "r' = r\<lparr>resp_text := resp_text r'\<rparr>"
  using json_step_Continue [OF assms] by auto

lemma with_confirmation_image_simps [simp]:
  "success (with_confirmation_image cfg r) = success r"
  "resp_text (with_confirmation_image cfg r) = resp_text r"
  "audio (with_confirmation_image cfg r) = audio r"
  "allImages (with_confirmation_image cfg r) = allImages r"
  "resp_state (with_confirmation_image cfg r) = resp_state r"
  "resp_error (with_confirmation_image cfg r) = resp_error r"
  by (auto simp: with_confirmation_image_def split: option.splits)

lemma confirmation_step_guard:
  "pedidoId c \<noteq> None \<Longrightarrow> first_block CONFIRMATION_FORMAT b = Some t \<Longrightarrow>
     confirmation_step env b c cfg d r
       = Return (with_confirmation_image cfg (r\<lparr>resp_text := t\<rparr>), c, d)"
  by (simp add: confirmation_step_def)

lemma confirmation_step_guarded:
  assumes "pedidoId c \<noteq> None"
    and "confirmation_step env b c cfg d r = X"
    and "X = Return (r', c', d') \<or> X = Continue (r', c', d')"
  shows "d' = d \<and> c' = c"
  using assms by (auto simp: confirmation_step_def split: option.splits)

text \<open>The commit: what is true when the step writes an order.\<close>

lemma confirmation_step_commit:
  assumes "confirmation_step env b c cfg d r = X"
    and "X = Return (r', c', d') \<or> X = Continue (r', c', d')"
    and "pedidos d' \<noteq> pedidos d"
  shows "\<exists>t saved spd novo.
           pedidoId c = None \<and> first_block CONFIRMATION_FORMAT b = Some t
           \<and> pedidoData c = Some saved \<and> recovered_pedido c saved = Some spd
           \<and> checked_order env (c\<lparr>pedidoData := Some spd\<rparr>) spd = Some novo
           \<and> X = Continue (r', c', d')
           \<and> r' = with_confirmation_image cfg (r\<lparr>resp_text := t\<rparr>)
           \<and> c' = after_save
                  (c\<lparr>pedidoData := Some spd, pedidoId := Some (length (pedidos d)), state := 7\<rparr>)
           \<and> d' = save_conversa
                  (c\<lparr>pedidoData := Some spd, pedidoId := Some (length (pedidos d)), state := 7\<rparr>)
                  (d\<lparr>pedidos := pedidos d @ [novo]\<rparr>)"
proof (cases "first_block CONFIRMATION_FORMAT b")
  case None
  with assms show ?thesis by (auto simp: confirmation_step_def)
next
  case (Some t)
  note t = this
  show ?thesis
  proof (cases "pedidoId c = None")
    case False
    with assms t show ?thesis by (auto simp: confirmation_step_def)
  next
    case True
    note pid = this
    show ?thesis
    proof (cases "pedidoData c")
      case None
      with assms t pid show ?thesis by (auto simp: confirmation_step_def)
    next
      case (Some saved)
      note saved = this
      show ?thesis
      proof (cases "recovered_pedido c saved")
        case None
        with assms t pid saved show ?thesis by (auto simp: confirmation_step_def)
      next
        case (Some spd)
        note spd = this
        show ?thesis
        proof (cases "checked_order env (c\<lparr>pedidoData := Some spd\<rparr>) spd")
          case None
          with assms t pid saved spd show ?thesis
            by (auto simp: confirmation_step_def Let_def)
        next
          case (Some novo)
          with assms t pid saved spd show ?thesis
            by (auto simp: confirmation_step_def Let_def)
        qed
      qed
    qed
  qed
qed

lemma confirmation_step_no_commit:
  assumes "confirmation_step env b c cfg d r = X"
    and "X = Return (r', c', d') \<or> X = Continue (r', c', d')"
    and "pedidos d' = pedidos d"
  shows "pedidoId c' = pedidoId c"
  using assms
  by (auto simp: confirmation_step_def Let_def split: option.splits if_splits)

subsection \<open>The response before the JSON step\<close>

lemma voice_step_erase:
  "(voice_step env b st r)\<lparr>resp_text := t, audio := []\<rparr> = r\<lparr>resp_text := t, audio := []\<rparr>"
  by (simp add: voice_step_def Let_def split: option.splits)

lemma voice_step_67:
  "st = 6 \<or> st = 7 \<Longrightarrow> audio (voice_step env b st r) = audio r"
  by (auto simp: voice_step_def Let_def split: option.splits)

lemma image_found_erase:
  "(image_found b st i url cap r)\<lparr>resp_text := t\<rparr>
     = r\<lparr>resp_image := url, imageCaption := (if cap \<noteq> [] then cap else imageCaption r),
         allImages := Some [\<lparr>img_id = i, img_url = url, img_caption = cap\<rparr>],
         resp_text := t\<rparr>"
  by (simp add: image_found_def Let_def)

lemma image_found_audio [simp]: "audio (image_found b st i url cap r) = audio r"
  "success (image_found b st i url cap r) = success r"
  "resp_state (image_found b st i url cap r) = resp_state r"
  by (simp_all add: image_found_def Let_def)

lemma image_step_erase:
  "(image_step env b st cfg r)\<lparr>resp_text := t\<rparr>
     = (image_step env b st' cfg (r\<lparr>resp_text := t'\<rparr>))\<lparr>resp_text := t\<rparr>"
proof (cases "imageMatches b")
  case Nil
  then show ?thesis by (simp add: image_step_def)
next
  case (Cons f others)
  have found: "(image_found b st i url cap r)\<lparr>resp_text := t\<rparr>
      = (image_found b st' i url cap (r\<lparr>resp_text := t'\<rparr>))\<lparr>resp_text := t\<rparr>" for i url cap
    by (simp add: image_found_erase)
  have all: "allImages (image_found b st i url cap r)
      = allImages (image_found b st' i url cap (r\<lparr>resp_text := t'\<rparr>))" for i url cap
    by (simp add: image_found_def Let_def)
  show ?thesis
  proof (cases "resolve_first_image env cfg (js_trim f)")
    case Threw
    with Cons show ?thesis by (simp add: image_step_def Let_def)
  next
    case (Done p)
    obtain url cap where p: "p = (url, cap)" by (cases p)
    show ?thesis
    proof (cases "url = []")
      case True
      with Cons Done p show ?thesis by (simp add: image_step_def Let_def)
    next
      case False
      from found [of "js_trim f" url cap] all [of "js_trim f" url cap]
      show ?thesis
        using Cons Done p False
        apply (simp add: image_step_def Let_def)
        apply (metis (no_types, lifting) response.surjective response.update_convs(3,7))
        done
    qed
  qed
qed

lemma image_found_frame:
  "image_found b st i url cap (r\<lparr>audio := a, resp_state := x\<rparr>)
     = (image_found b st i url cap r)\<lparr>audio := a, resp_state := x\<rparr>"
  by (simp add: image_found_def Let_def)

lemma image_step_frame:
  "image_step env b st cfg (r\<lparr>audio := a, resp_state := x\<rparr>)
     = (image_step env b st cfg r)\<lparr>audio := a, resp_state := x\<rparr>"
proof (cases "imageMatches b")
  case Nil
  then show ?thesis by (simp add: image_step_def)
next
  case (Cons f others)
  show ?thesis
  proof (cases "resolve_first_image env cfg (js_trim f)")
    case Threw
    with Cons show ?thesis by (simp add: image_step_def Let_def)
  next
    case (Done p)
    obtain url cap where p: "p = (url, cap)" by (cases p)
    have all: "allImages (image_found b st i url cap r) = Some [\<lparr>img_id = i, img_url = url, img_caption = cap\<rparr>]" for i
      by (simp add: image_found_def Let_def)
    show ?thesis
      using Cons Done p
      by (simp add: image_step_def Let_def image_found_frame all)
  qed
qed

lemma voice_step_shape:
  "\<exists>tx ax. voice_step env b st (new_response st b)
     = (new_response 0 b)\<lparr>resp_text := tx, audio := ax, resp_state := Some st\<rparr>
     \<and> ((st = 6 \<or> st = 7) \<longrightarrow> ax = [])"
  by (auto simp: voice_step_def new_response_def Let_def split: option.splits)

text \<open>The response as it stands after the voice and the image blocks.\<close>

definition rimg :: "'n env \<Rightarrow> string \<Rightarrow> nat \<Rightarrow> bot_config option \<Rightarrow> response" where
  "rimg env b st cfg = image_step env b st cfg (voice_step env b st (new_response st b))"

lemma rimg_canon:
  "(rimg env b st cfg)\<lparr>resp_text := t, audio := [], resp_state := x\<rparr>
     = (image_step env b 0 cfg (new_response 0 b))\<lparr>resp_text := t, audio := [], resp_state := x\<rparr>"
proof -
  obtain tx ax where v: "voice_step env b st (new_response st b)
     = (new_response 0 b)\<lparr>resp_text := tx, audio := ax, resp_state := Some st\<rparr>"
    using voice_step_shape by blast
  have "rimg env b st cfg
      = (image_step env b st cfg ((new_response 0 b)\<lparr>resp_text := tx\<rparr>))\<lparr>audio := ax, resp_state := Some st\<rparr>"
    unfolding rimg_def v image_step_frame by (rule refl)
  moreover have "(image_step env b st cfg ((new_response 0 b)\<lparr>resp_text := tx\<rparr>))\<lparr>resp_text := t\<rparr>
      = (image_step env b 0 cfg (new_response 0 b))\<lparr>resp_text := t\<rparr>"
    by (rule image_step_erase [symmetric])
  then have "(\<lambda>r. r\<lparr>audio := [], resp_state := x\<rparr>)
          ((image_step env b st cfg ((new_response 0 b)\<lparr>resp_text := tx\<rparr>))\<lparr>resp_text := t\<rparr>)
      = (\<lambda>r. r\<lparr>audio := [], resp_state := x\<rparr>)
          ((image_step env b 0 cfg (new_response 0 b))\<lparr>resp_text := t\<rparr>)"
    by (rule arg_cong)
  ultimately show ?thesis by simp
qed

lemma rimg_audio_67: "st = 6 \<or> st = 7 \<Longrightarrow> audio (rimg env b st cfg) = []"
proof -
  assume st: "st = 6 \<or> st = 7"
  obtain tx ax where v: "voice_step env b st (new_response st b)
     = (new_response 0 b)\<lparr>resp_text := tx, audio := ax, resp_state := Some st\<rparr>"
    and ax: "(st = 6 \<or> st = 7) \<longrightarrow> ax = []"
    using voice_step_shape by blast
  have "rimg env b st cfg
      = (image_step env b st cfg ((new_response 0 b)\<lparr>resp_text := tx\<rparr>))\<lparr>audio := ax, resp_state := Some st\<rparr>"
    unfolding rimg_def v image_step_frame by (rule refl)
  with st ax show ?thesis by simp
qed

lemma rimg_success: "success (rimg env b st cfg)"
proof -
  have "success ((rimg env b st cfg)\<lparr>resp_text := [], audio := [], resp_state := None\<rparr>)
      = success ((image_step env b 0 cfg (new_response 0 b))\<lparr>resp_text := [], audio := [], resp_state := None\<rparr>)"
    by (simp only: rimg_canon)
  moreover have "success (image_step env b 0 cfg r) = success r" for r
    by (auto simp: image_step_def image_found_def Let_def split: list.splits attempt.splits)
  ultimately show ?thesis by (simp add: new_response_def)
qed

subsection \<open>The whole function\<close>

lemma pTR_alt:
  "processTaggedResponse env b u c cfg d =
     (case json_step env b c d (rimg env b (state c) cfg) of
        Return x \<Rightarrow> x
      | Continue (r3, c3, d3) \<Rightarrow>
          (case confirmation_step env b c3 cfg d3 r3 of
             Return x \<Rightarrow> x
           | Continue (r4, c4, d4) \<Rightarrow> (final_step b r4, c4, d4)))"
  by (simp add: processTaggedResponse_def rimg_def Let_def)

lemma final_step_erase: "(final_step b r)\<lparr>resp_text := t\<rparr> = r\<lparr>resp_text := t\<rparr>"
  by (simp add: final_step_def)

lemma final_step_fields [simp]:
  "success (final_step b r) = success r" "audio (final_step b r) = audio r"
  "resp_image (final_step b r) = resp_image r" "imageCaption (final_step b r) = imageCaption r"
  by (simp_all add: final_step_def)

lemma final_step_text: "resp_text r \<noteq> [] \<Longrightarrow> final_step b r = r"
  by (simp add: final_step_def)

lemma with_confirmation_image_upd:
  "with_confirmation_image cfg (r\<lparr>resp_text := t\<rparr>) = (with_confirmation_image cfg r)\<lparr>resp_text := t\<rparr>"
  "with_confirmation_image cfg (r\<lparr>audio := a\<rparr>) = (with_confirmation_image cfg r)\<lparr>audio := a\<rparr>"
  "with_confirmation_image cfg (r\<lparr>resp_state := x\<rparr>) = (with_confirmation_image cfg r)\<lparr>resp_state := x\<rparr>"
  by (simp_all add: with_confirmation_image_def split: option.splits)

text \<open>What a call of the function does to the orders.\<close>

lemma pTR_cases:
  assumes "processTaggedResponse env b u c cfg d = (r1, c1, d1)"
  shows "(pedidos d1 = pedidos d \<and> pedidoId c1 = pedidoId c)
     \<or> (\<exists>t novo r3. pedidoId c = None \<and> first_block CONFIRMATION_FORMAT b = Some t
           \<and> pedidos d1 = pedidos d @ [novo] \<and> pedidoId c1 = Some (length (pedidos d))
           \<and> state c1 = 7
           \<and> r3 = (rimg env b (state c) cfg)\<lparr>resp_text := resp_text r3\<rparr>
           \<and> r1 = final_step b (with_confirmation_image cfg (r3\<lparr>resp_text := t\<rparr>))
           \<and> (\<forall>x. json_step env b c d (rimg env b (state c) cfg) \<noteq> Return x)
           \<and> (\<exists>c3 spd. checked_order env c3 spd = Some novo \<and> telefone c3 = telefone c
                  \<and> has_digit (endereco spd)))"
proof (cases "json_step env b c d (rimg env b (state c) cfg)")
  case (Return x)
  from json_step_Return [OF Return] assms Return show ?thesis
    by (auto simp: pTR_alt)
next
  case (Continue y)
  obtain r3 c3 d3 where y: "y = (r3, c3, d3)" by (cases y)
  note js = Continue [unfolded y]
  note f = json_step_Continue_facts [OF js]
  show ?thesis
  proof (cases "confirmation_step env b c3 cfg d3 r3")
    case (Return x)
    obtain r' c' d' where x: "x = (r', c', d')" by (cases x)
    from assms js Return x have e: "r1 = r'" "c1 = c'" "d1 = d'" by (simp_all add: pTR_alt)
    show ?thesis
    proof (cases "pedidos d' = pedidos d3")
      case True
      from confirmation_step_no_commit [OF Return _ True, of r' c'] x
      have "pedidoId c' = pedidoId c3" by simp
      with True f e show ?thesis by simp
    next
      case False
      from confirmation_step_commit [OF Return _ False, of r' c'] x
      show ?thesis by auto
    qed
  next
    case (Continue z)
    obtain r' c' d' where z: "z = (r', c', d')" by (cases z)
    from assms js Continue z have e: "r1 = final_step b r'" "c1 = c'" "d1 = d'"
      by (simp_all add: pTR_alt)
    show ?thesis
    proof (cases "pedidos d' = pedidos d3")
      case True
      from confirmation_step_no_commit [OF Continue _ True, of r' c'] z
      have "pedidoId c' = pedidoId c3" by simp
      with True f e show ?thesis by simp
    next
      case False
      from confirmation_step_commit [OF Continue _ False, of r' c'] z
      obtain t saved spd novo where
        "pedidoId c3 = None" "first_block CONFIRMATION_FORMAT b = Some t"
        "r' = with_confirmation_image cfg (r3\<lparr>resp_text := t\<rparr>)"
        "c' = after_save
           (c3\<lparr>pedidoData := Some spd, pedidoId := Some (length (pedidos d3)), state := 7\<rparr>)"
        "d' = save_conversa
           (c3\<lparr>pedidoData := Some spd, pedidoId := Some (length (pedidos d3)), state := 7\<rparr>)
           (d3\<lparr>pedidos := pedidos d3 @ [novo]\<rparr>)"
        and ck: "checked_order env (c3\<lparr>pedidoData := Some spd\<rparr>) spd = Some novo"
        and rc: "pedidoData c3 = Some saved" "recovered_pedido c3 saved = Some spd"
        by auto
      from rc(2) have "has_digit (endereco spd)"
        by (auto simp: recovered_pedido_def split: if_splits option.splits)
      with ck f(4)
      have "\<exists>c3 spd. checked_order env c3 spd = Some novo \<and> telefone c3 = telefone c
              \<and> has_digit (endereco spd)"
        by (intro exI [of _ "c3\<lparr>pedidoData := Some spd\<rparr>"] exI [of _ spd]) simp
      with \<open>pedidoId c3 = None\<close> \<open>first_block CONFIRMATION_FORMAT b = Some t\<close>
        \<open>r' = with_confirmation_image cfg (r3\<lparr>resp_text := t\<rparr>)\<close>
        \<open>c' = after_save
           (c3\<lparr>pedidoData := Some spd, pedidoId := Some (length (pedidos d3)), state := 7\<rparr>)\<close>
        \<open>d' = save_conversa
           (c3\<lparr>pedidoData := Some spd, pedidoId := Some (length (pedidos d3)), state := 7\<rparr>)
           (d3\<lparr>pedidos := pedidos d3 @ [novo]\<rparr>)\<close>
        f e js show ?thesis
        apply (intro disjI2)
        apply (rule exI [of _ t], rule exI [of _ novo], rule exI [of _ r3])
        apply simp
        done
    qed
  qed
qed

lemma rimg_state: "resp_state (rimg env b st cfg) = Some st"
proof -
  obtain tx ax where v: "voice_step env b st (new_response st b)
     = (new_response 0 b)\<lparr>resp_text := tx, audio := ax, resp_state := Some st\<rparr>"
    using voice_step_shape by blast
  have "rimg env b st cfg
      = (image_step env b st cfg ((new_response 0 b)\<lparr>resp_text := tx\<rparr>))\<lparr>audio := ax, resp_state := Some st\<rparr>"
    unfolding rimg_def v image_step_frame by (rule refl)
  then show ?thesis by simp
qed

lemma json_step_Return_indep:
  "json_step env b c d r = Return x \<Longrightarrow> \<exists>y. json_step env b c' d' r' = Return y"
  by (auto simp: json_step_def Let_def split: option.splits if_splits)

lemma pTR_guarded:
  assumes "processTaggedResponse env b u c cfg d = (r1, c1, d1)"
    and "pedidoId c \<noteq> None"
    and "first_block CONFIRMATION_FORMAT b = Some t"
  shows "(r1 = reply msg_need_number (Some 4)
          \<and> (\<exists>pd. valid_payload env b = Some pd \<and> \<not> has_digit (endereco pd)))
       \<or> (r1 = with_confirmation_image cfg ((rimg env b (state c) cfg)\<lparr>resp_text := t\<rparr>)
          \<and> (\<forall>x. json_step env b c d (rimg env b (state c) cfg) \<noteq> Return x))"
proof (cases "json_step env b c d (rimg env b (state c) cfg)")
  case (Return x)
  from json_step_Return [OF Return] assms(1) Return show ?thesis
    by (auto simp: pTR_alt)
next
  case (Continue y)
  obtain r3 c3 d3 where y: "y = (r3, c3, d3)" by (cases y)
  note js = Continue [unfolded y]
  note f = json_step_Continue_facts [OF js]
  from f(2) assms(2) have "pedidoId c3 \<noteq> None" by simp
  from confirmation_step_guard [OF this assms(3)] assms(1) js
  have r1: "r1 = with_confirmation_image cfg (r3\<lparr>resp_text := t\<rparr>)"
    by (simp add: pTR_alt)
  have "r3\<lparr>resp_text := t\<rparr> = (rimg env b (state c) cfg)\<lparr>resp_text := t\<rparr>"
    by (subst f(6)) simp
  with r1 have "r1 = with_confirmation_image cfg ((rimg env b (state c) cfg)\<lparr>resp_text := t\<rparr>)"
    by simp
  moreover from js have "\<forall>x. json_step env b c d (rimg env b (state c) cfg) \<noteq> Return x"
    by simp
  ultimately show ?thesis by (intro disjI2 conjI)
qed

lemma response_fix: "audio r = [] \<Longrightarrow> resp_state r = Some n \<Longrightarrow> r = r\<lparr>audio := [], resp_state := Some n\<rparr>"
  by simp

section \<open>The orders that a turn writes\<close>

definition stored_quantity :: "'n::one item \<Rightarrow> 'n" where
  \<comment> \<open>the quantity that an item of an order holds, 1 when it holds none\<close>
  "stored_quantity it = (case quantidade it of None \<Rightarrow> 1 | Some q \<Rightarrow> q)"

definition sum_price_quantity :: "'n::{zero,one,plus,times} item list \<Rightarrow> 'n option" where
  \<comment> \<open>the sum, from 0 and in the order of the list, of the price of an item times the
      quantity it holds; \<^const>\<open>None\<close> when a price is not a number\<close>
  "sum_price_quantity its =
     foldl (\<lambda>acc it. plus_nan acc (times_nan (preco it) (stored_quantity it))) (Some 0) its"

lemma qty_stored:
  "stored_quantity \<lparr>nome = n, quantidade = Some (qty it), preco = p\<rparr> = qty it"
  by (simp add: stored_quantity_def)

lemma qty_stored_quantity: "quantidade it \<noteq> Some 0 \<Longrightarrow> qty it = stored_quantity it"
  by (auto simp: qty_def stored_quantity_def split: option.splits)

lemma total_nan_foldl:
  "total_nan its acc = foldl (\<lambda>acc it. plus_nan acc (times_nan (preco it) (qty it))) acc its"
  by (induction its arbitrary: acc)
     (auto simp: plus_nan_def times_nan_def split: option.splits)

lemma total_nan_sum:
  "\<forall>it \<in> set its. quantidade it \<noteq> Some 0 \<Longrightarrow>
     total_nan its acc
       = foldl (\<lambda>acc it. plus_nan acc (times_nan (preco it) (stored_quantity it))) acc its"
  by (induction its arbitrary: acc)
     (auto simp: plus_nan_def times_nan_def qty_stored_quantity split: option.splits)

lemma total_nan_None: "total_nan its None = None"
  by (induction its) simp_all

lemma total_checked_sum:
  "total_checked its acc = Some v \<Longrightarrow>
     foldl (\<lambda>acc it. plus_nan acc (times_nan (preco it) (stored_quantity it))) (Some acc)
       (map (\<lambda>it. \<lparr>nome = nome it, quantidade = Some (qty it), preco = preco it\<rparr>) its)
     = Some v"
  by (induction its arbitrary: acc)
     (auto simp: qty_stored plus_nan_def times_nan_def split: option.splits)

lemma checked_order_total:
  "checked_order env c spd = Some novo \<Longrightarrow> valorTotal novo = sum_price_quantity (itens novo)"
  by (auto simp: checked_order_def novoPedido_def sum_price_quantity_def
        total_checked_sum split: option.splits if_splits)

lemma checked_order_itens:
  "checked_order env c spd = Some novo \<Longrightarrow>
     \<exists>its. items spd = Some its
       \<and> itens novo = map (\<lambda>it. \<lparr>nome = nome it, quantidade = Some (qty it), preco = preco it\<rparr>) its"
  by (auto simp: checked_order_def novoPedido_def split: option.splits if_splits)

lemma pTR_orders:
  assumes "processTaggedResponse env b u c cfg d = (r1, c1, d1)"
  shows "pedidos d1 = pedidos d
     \<or> (pedidoId c = None
        \<and> (\<exists>p. pedidos d1 = pedidos d @ [p] \<and> valorTotal p = sum_price_quantity (itens p)))"
  using pTR_cases [OF assms] by (auto dest: checked_order_total)

lemma state4_number_pedidos:
  "state4_number m c d = Some (r, d') \<Longrightarrow> pedidos d' = pedidos d"
  by (auto simp: state4_number_def Let_def split: if_splits option.splits)

lemma state5_payment_pedidos:
  "state5_payment m c d = Some (r, d') \<Longrightarrow> pedidos d' = pedidos d"
  by (auto simp: state5_payment_def Let_def split: if_splits option.splits)

lemma prelude_pedidos: "prelude env m a c d = (c', d') \<Longrightarrow> pedidos d' = pedidos d"
  by (auto simp: prelude_def Let_def split: option.splits)

lemma stage_extracted_pedidos:
  "stage_extracted env b c d = (c', d') \<Longrightarrow> pedidos d' = pedidos d"
  by (auto simp: stage_extracted_def Let_def split: option.splits)

lemma stage_json_pedidos:
  "stage_json env b c d = (c', d') \<Longrightarrow> pedidos d' = pedidos d"
  by (auto simp: stage_json_def Let_def split: option.splits if_splits json.splits)

lemma llm_stage_pedidos:
  "llm_stage env c d = (b, c', d') \<Longrightarrow> pedidos d' = pedidos d"
  by (auto simp: llm_stage_def split: completion.splits prod.splits option.splits
        dest!: stage_extracted_pedidos stage_json_pedidos)

lemma image_request_orders:
  assumes "image_request env m c d = Some (r, d')"
  shows "pedidos d' = pedidos d
     \<or> (\<exists>p. pedidos d' = pedidos d @ [p] \<and> valorTotal p = sum_price_quantity (itens p))"
proof -
  from assms obtain ids c1 where
    "processTaggedResponse env (image_request_text ids) m
       (after_save (push_msg Bot (image_request_text ids) c))
       (botConfig_findOne env) (save_conversa (push_msg Bot (image_request_text ids) c) d)
     = (r, c1, d')"
    by (auto simp: image_request_def Let_def split: option.splits if_splits prod.splits)
  from pTR_orders [OF this] show ?thesis by auto
qed

lemma state6_confirm_orders:
  assumes "state6_confirm env m c d = Some (r, d')"
  shows "pedidos d' = pedidos d
     \<or> (\<exists>p. pedidos d' = pedidos d @ [p]
           \<and> ((\<forall>it \<in> set (itens p). quantidade it \<noteq> Some 0)
                \<longrightarrow> valorTotal p = sum_price_quantity (itens p)))"
proof (cases "pedidoData c")
  case None
  with assms show ?thesis by (auto simp: state6_confirm_def split: if_splits)
next
  case (Some pd)
  note pd = this
  show ?thesis
  proof (cases "items pd")
    case None
    with assms pd show ?thesis by (auto simp: state6_confirm_def split: if_splits)
  next
    case (Some its)
    let ?novo = "\<lparr>p_telefone = telefone c, itens = its,
                   valorTotal = total_nan its (Some 0), p_endereco = enderecoCompleto c pd,
                   formaPagamento = pagamento pd, status = ''Confirmado''\<rparr>"
    have ok: "(\<forall>it \<in> set (itens ?novo). quantidade it \<noteq> Some 0)
        \<longrightarrow> valorTotal ?novo = sum_price_quantity (itens ?novo)"
      by (simp add: sum_price_quantity_def total_nan_sum)
    show ?thesis
    proof (cases "state c = 6 \<and> is_affirmative m \<and> pedido_save_ok env ?novo")
      case False
      with assms pd Some show ?thesis
        by (auto simp: state6_confirm_def Let_def split: if_splits)
    next
      case True
      note go = this
      show ?thesis
      proof (cases its)
        case Nil
        with assms pd Some go have "pedidos d' = pedidos d @ [?novo]"
          by (auto simp: state6_confirm_def Let_def)
        with ok show ?thesis by blast
      next
        case (Cons item0 rest)
        let ?t = "confirmacao_text env pd item0 its (enderecoCompleto c pd)"
        let ?c2 = "push_msg Bot ?t (c\<lparr>pedidoId := Some (length (pedidos d)), state := 7\<rparr>)"
        let ?d2 = "save_conversa ?c2 (d\<lparr>pedidos := pedidos d @ [?novo]\<rparr>)"
        let ?d3 = "save_conversa (new_conversa (telefone c) ?d2) ?d2"
        from assms pd Some go Cons obtain c4 where
          p: "processTaggedResponse env ?t m (after_save ?c2) None ?d3 = (r, c4, d')"
          by (auto simp: state6_confirm_def Let_def split: prod.splits)
        have "pedidoId (after_save ?c2) \<noteq> None" by (simp add: push_msg_def)
        with pTR_orders [OF p] have "pedidos d' = pedidos ?d3" by blast
        then have "pedidos d' = pedidos d @ [?novo]" by simp
        with ok show ?thesis by blast
      qed
    qed
  qed
qed

lemma processMessageInternally_orders:
  assumes "processMessageInternally env userPhone message isAudio conversa d = (r, d', logs)"
  shows "pedidos d' = pedidos d
     \<or> (\<exists>p. pedidos d' = pedidos d @ [p]
           \<and> ((\<forall>it \<in> set (itens p). quantidade it \<noteq> Some 0)
                \<longrightarrow> valorTotal p = sum_price_quantity (itens p)))"
proof (cases "userPhone = [] \<or> is_reset message")
  case True
  with assms show ?thesis by (auto simp: processMessageInternally_def split: if_splits)
next
  case False
  obtain c2 d1 where pre: "prelude env message isAudio conversa d = (c2, d1)"
    by (cases "prelude env message isAudio conversa d")
  note d1 = prelude_pedidos [OF pre]
  show ?thesis
  proof (cases "state4_number message c2 d1")
    case (Some x)
    with assms False pre d1 show ?thesis
      by (cases x) (auto simp: processMessageInternally_def dest: state4_number_pedidos)
  next
    case None
    note s4 = this
    show ?thesis
    proof (cases "state5_payment message c2 d1")
      case (Some x)
      with assms False pre d1 s4 show ?thesis
        by (cases x) (auto simp: processMessageInternally_def dest: state5_payment_pedidos)
    next
      case None
      note s5 = this
      show ?thesis
      proof (cases "state6_confirm env message c2 d1")
        case (Some x)
        obtain r' dd where x: "x = (r', dd)" by (cases x)
        from assms False pre s4 s5 Some x have "dd = d'"
          by (simp add: processMessageInternally_def)
        with state6_confirm_orders [OF Some [unfolded x]] d1 show ?thesis by simp
      next
        case None
        note s6 = this
        show ?thesis
        proof (cases "image_request env message c2 d1")
          case (Some x)
          obtain r' dd where x: "x = (r', dd)" by (cases x)
          from assms False pre s4 s5 s6 Some x have "dd = d'"
            by (simp add: processMessageInternally_def)
          with image_request_orders [OF Some [unfolded x]] d1 show ?thesis by auto
        next
          case None
          obtain b c3 d3 where l: "llm_stage env c2 d1 = (b, c3, d3)"
            by (cases "llm_stage env c2 d1")
          obtain c4 lg where a: "advance_state b message (push_msg Bot b c3) = (c4, lg)"
            by (cases "advance_state b message (push_msg Bot b c3)")
          obtain r5 c5 d5 where p: "processTaggedResponse env b message (after_save c4)
              (cached_botConfig env) (save_conversa c4 d3) = (r5, c5, d5)"
            by (cases "processTaggedResponse env b message (after_save c4)
              (cached_botConfig env) (save_conversa c4 d3)")
          from assms False pre s4 s5 s6 None l a p have "d5 = d'"
            by (simp add: processMessageInternally_def)
          with pTR_orders [OF p] llm_stage_pedidos [OF l] d1 show ?thesis by auto
        qed
      qed
    qed
  qed
qed

lemma getOrCreateConversation_pedidos:
  "getOrCreateConversation p m stale d = (c, d') \<Longrightarrow> pedidos d' = pedidos d"
  by (auto simp: getOrCreateConversation_def Let_def split: if_splits option.splits)

lemma handleResetRequest_orders:
  assumes "handleResetRequest env p d = (sent, d')"
  shows "pedidos d' = pedidos d
     \<or> (\<exists>p. pedidos d' = pedidos d @ [p] \<and> valorTotal p = sum_price_quantity (itens p))"
proof -
  from assms obtain b u c cfg d0 r1 c1 where
    p: "processTaggedResponse env b u c cfg d0 = (r1, c1, d')" and "pedidos d0 = pedidos d"
    by (auto simp: handleResetRequest_def Let_def split: prod.splits)
  with pTR_orders [OF p] show ?thesis by auto
qed

text \<open>The order does not depend on the other keys of the payload, a \<^verbatim>\<open>total\<close> among them.\<close>

lemma checked_order_ignores_outros:
  "checked_order env c (spd\<lparr>outros := x\<rparr>) = checked_order env c spd"
  by (auto simp: checked_order_def novoPedido_def split: option.splits)

text \<open>With numbers that add up as the integers do, the total is the sum of the products.\<close>

lemma sum_price_quantity_sum_list:
  fixes its :: "'n::semiring_1 item list"
  assumes "list_all (\<lambda>it. preco it \<noteq> None) its"
  shows "sum_price_quantity its
     = Some (sum_list (map (\<lambda>it. the (preco it) * stored_quantity it) its))"
proof -
  have "foldl (\<lambda>acc it. plus_nan acc (times_nan (preco it) (stored_quantity it))) (Some a) its
      = Some (a + sum_list (map (\<lambda>it. the (preco it) * stored_quantity it) its))" for a
    using assms
    by (induction its arbitrary: a)
       (auto simp: plus_nan_def times_nan_def add.assoc)
  from this [of 0] show ?thesis by (simp add: sum_price_quantity_def)
qed

section \<open>Addresses without a number\<close>

lemma extract_of_valid:
  "valid_payload env b = Some pd \<Longrightarrow> \<not> has_digit (endereco pd) \<Longrightarrow> extractPedidoData env b = None"
  by (auto simp: valid_payload_def extractPedidoData_def pedido_of_json_def
        split: option.splits attempt.splits json.splits if_splits)

lemma recovered_pedido_None:
  "\<not> has_digit (endereco saved) \<Longrightarrow> \<forall>ad. addressData c = Some ad \<longrightarrow> \<not> has_digit (formattedAddress ad)
     \<Longrightarrow> recovered_pedido c saved = None"
  by (auto simp: recovered_pedido_def split: option.splits)

section \<open>The stored conversation after a save\<close>

lemma find_map_written:
  "find (\<lambda>x. cid x = i) (map (\<lambda>x. if cid x = i then f x else x) xs)
     = map_option f (find (\<lambda>x. cid x = i) xs)"
  if "\<And>x. cid (f x) = i"
  using that by (induction xs) auto

lemma save_conversa_find:
  "\<exists>old. find (\<lambda>x. cid x = cid c) (conversas (save_conversa c d)) = Some (written c old)"
proof (cases "\<exists>x \<in> set (conversas d). cid x = cid c")
  case True
  then obtain y where y: "find (\<lambda>x. cid x = cid c) (conversas d) = Some y"
    by (cases "find (\<lambda>x. cid x = cid c) (conversas d)") (auto simp: find_None_iff)
  have "find (\<lambda>x. cid x = cid c)
          (map (\<lambda>x. if cid x = cid c then written c (pedidoData x) else x) (conversas d))
        = map_option (\<lambda>x. written c (pedidoData x)) (find (\<lambda>x. cid x = cid c) (conversas d))"
    by (rule find_map_written) simp
  with True y
  have "find (\<lambda>x. cid x = cid c) (conversas (save_conversa c d))
      = Some (written c (pedidoData y))"
    by (simp add: save_conversa_def)
  then show ?thesis by (rule exI)
next
  case False
  then have "find (\<lambda>x. cid x = cid c) (conversas (save_conversa c d))
      = Some (written c (pedidoData c))"
    by (simp add: save_conversa_def)
  then show ?thesis by (rule exI)
qed

lemma save_conversa_state:
  "map_option state (find (\<lambda>x. cid x = cid c) (conversas (save_conversa c d))) = Some (state c)"
  using save_conversa_find [of c d] by auto

section \<open>The path of a turn through the model\<close>

lemma prelude_cid: "prelude env m a c d = (c2, d1) \<Longrightarrow> cid c2 = cid c"
  by (auto simp: prelude_def push_msg_def Let_def split: option.splits)

lemma stage_extracted_cid: "stage_extracted env b c d = (c', d') \<Longrightarrow> cid c' = cid c"
  by (auto simp: stage_extracted_def Let_def split: option.splits)

lemma stage_json_cid: "stage_json env b c d = (c', d') \<Longrightarrow> cid c' = cid c"
  by (auto simp: stage_json_def Let_def split: option.splits if_splits json.splits)

lemma llm_stage_cid: "llm_stage env c d = (b, c', d') \<Longrightarrow> cid c' = cid c"
  by (auto simp: llm_stage_def split: completion.splits prod.splits option.splits
        dest!: stage_extracted_cid stage_json_cid)

lemma advance_state_cid: "advance_state b m c = (c', l) \<Longrightarrow> cid c' = cid c"
  by (auto simp: advance_state_def split: if_splits)

lemma processMessageInternally_model_path:
  assumes "userPhone \<noteq> []" and "\<not> is_reset message"
    and "prelude env message isAudio conversa d = (c2, d1)"
    and "state4_number message c2 d1 = None" and "state5_payment message c2 d1 = None"
    and "state6_confirm env message c2 d1 = None" and "image_request env message c2 d1 = None"
    and "llm_stage env c2 d1 = (b, c3, d3)"
    and "advance_state b message (push_msg Bot b c3) = (c4, logs)"
  shows "processMessageInternally env userPhone message isAudio conversa d
     = (case processTaggedResponse env b message (after_save c4) (cached_botConfig env)
               (save_conversa c4 d3) of
          (r, c5, d5) \<Rightarrow> (r, d5, logs))"
  using assms by (simp add: processMessageInternally_def)


section \<open>Blocks of a reply\<close>

lemma prefix_within: "length n \<le> length x \<Longrightarrow> prefix n (x @ y) = prefix n x"
  by (metis prefix_append prefix_length_le prefix_order.antisym_conv prefix_order.order_refl
        prefix_length_prefix prefixI append.right_neutral)

lemma split_first_here: "split_first n (n @ a) = Some ([], a)"
proof (cases "n @ a")
  case Nil
  then show ?thesis by simp
next
  case (Cons c cs)
  have "prefix n (n @ a)" by simp
  moreover have "drop (length n) (n @ a) = a" by simp
  ultimately have "split_first n (c # cs) = Some ([], a)"
    unfolding Cons by simp
  with Cons show ?thesis by simp
qed

lemma split_first_tail:
  "split_first n s = Some (b, a) \<Longrightarrow> split_first n (b @ n @ a') = Some (b, a')"
proof (induction s arbitrary: b)
  case Nil
  then have "n = []" "b = []" by (simp_all split: if_splits)
  with split_first_here [of "[]" a'] show ?case by simp
next
  case (Cons c cs)
  show ?case
  proof (cases "prefix n (c # cs)")
    case True
    with Cons.prems have "b = []" by simp
    with split_first_here [of n a'] show ?thesis by simp
  next
    case False
    with Cons.prems obtain b' where s: "split_first n cs = Some (b', a)" and b: "b = c # b'"
      by (auto split: option.splits)
    from split_first_Some [OF s] have cs: "cs = b' @ n @ a" .
    have "prefix n ((c # b' @ n) @ a') = prefix n (c # b' @ n)"
      by (rule prefix_within) simp
    moreover have "prefix n ((c # b' @ n) @ a) = prefix n (c # b' @ n)"
      by (rule prefix_within) simp
    ultimately have "\<not> prefix n (c # b' @ n @ a')" using False cs by simp
    with Cons.IH [OF s] b show ?thesis by simp
  qed
qed

lemma block_match_tail:
  assumes "block_match tag s = Some (p, rest)"
  shows "block_match tag (take (length s - length rest) s @ rest') = Some (p, rest')"
proof -
  from assms obtain b r where 1: "split_first tag s = Some (b, r)"
    and 2: "split_first END_TAG r = Some (p, rest)"
    by (auto simp: block_match_def split: option.splits)
  from split_first_Some [OF 1] split_first_Some [OF 2]
  have s: "s = (b @ tag @ p @ END_TAG) @ rest" by simp
  then have t: "take (length s - length rest) s = b @ tag @ p @ END_TAG"
    by (metis add_diff_cancel_right' append_eq_conv_conj length_append)
  from split_first_tail [OF 1, of "p @ END_TAG @ rest'"] split_first_tail [OF 2, of rest']
  show ?thesis by (simp add: t block_match_def)
qed

lemma first_block_all_blocks:
  "first_block tag b = (case all_blocks tag b of [] \<Rightarrow> None | p # ps \<Rightarrow> Some p)"
  by (subst all_blocks.simps) (auto simp: first_block_def split: option.splits)

lemma imageMatches_all_blocks:
  "imageMatches b = filter (\<lambda>x. x \<noteq> []) (map js_trim (all_blocks IMAGE_FORMAT b))"
proof (induction b rule: imageMatches.induct)
  case (1 s)
  show ?case
  proof (cases "block_match IMAGE_FORMAT s")
    case None
    then show ?thesis
      by (subst imageMatches.simps, subst all_blocks.simps) simp
  next
    case (Some x)
    obtain p rest where x: "x = (p, rest)" by (cases x)
    from 1 [OF Some [unfolded x] refl] Some x show ?thesis
      by (subst imageMatches.simps, subst all_blocks.simps) simp
  qed
qed

lemma valid_payload_cong:
  "first_block JSON_FORMAT b = first_block JSON_FORMAT b' \<Longrightarrow>
     valid_payload env b = valid_payload env b'"
  by (simp add: valid_payload_def)

lemma json_step_cong:
  "first_block JSON_FORMAT b = first_block JSON_FORMAT b' \<Longrightarrow>
     json_step env b c d r = json_step env b' c d r"
  by (simp add: json_step_def valid_payload_cong [of b b'])

lemma confirmation_step_cong:
  "first_block CONFIRMATION_FORMAT b = first_block CONFIRMATION_FORMAT b' \<Longrightarrow>
     confirmation_step env b c cfg d r = confirmation_step env b' c cfg d r"
  by (simp add: confirmation_step_def)


lemma pTR_snd:
  "snd (processTaggedResponse env b u c cfg d)
     = (case map_outcome snd snd (json_step env b c d r0) of
          Return e \<Rightarrow> e
        | Continue (c3, d3) \<Rightarrow>
            (case map_outcome snd snd (confirmation_step env b c3 cfg d3 r0) of
               Return e \<Rightarrow> e
             | Continue e \<Rightarrow> e))"
  by (auto simp: pTR_alt json_step_def confirmation_step_def Let_def
        split: option.splits if_splits)

lemma pTR_effects_cong:
  assumes "first_block JSON_FORMAT b = first_block JSON_FORMAT b'"
    and "first_block CONFIRMATION_FORMAT b = first_block CONFIRMATION_FORMAT b'"
  shows "snd (processTaggedResponse env b u c cfg d) = snd (processTaggedResponse env b' u c cfg d)"
proof -
  have j: "json_step env b = json_step env b'"
    by (intro ext json_step_cong assms(1))
  have k: "confirmation_step env b = confirmation_step env b'"
    by (intro ext confirmation_step_cong assms(2))
  show ?thesis
    unfolding pTR_snd [of _ _ _ _ _ _ "new_response 0 []"] j k by (rule refl)
qed

lemma image_step_audio [simp]: "audio (image_step env b st cfg r) = audio r"
  by (auto simp: image_step_def Let_def split: list.splits attempt.splits)

lemma final_step_audio_aux: "audio (final_step b r) = audio r"
  by simp

lemma pTR_audio:
  "audio (fst (processTaggedResponse env b u c cfg d))
     = (case valid_payload env b of
          Some pd \<Rightarrow>
            if has_digit (endereco pd)
            then audio (voice_step env b (state c) (new_response (state c) b)) else []
        | None \<Rightarrow> audio (voice_step env b (state c) (new_response (state c) b)))"
  by (auto simp: pTR_alt rimg_def json_step_def confirmation_step_def Let_def
        split: option.splits if_splits)

lemma voice_step_audio:
  "audio (voice_step env b st (new_response st b))
     = (case first_block VOICE_FORMAT b of
          None \<Rightarrow> []
        | Some v \<Rightarrow> if st = 6 \<or> st = 7 then [] else generateAudio env (js_trim v))"
  by (auto simp: voice_step_def new_response_def Let_def split: option.splits)

lemma pTR_audio_cong:
  assumes "first_block VOICE_FORMAT b = first_block VOICE_FORMAT b'"
    and "first_block JSON_FORMAT b = first_block JSON_FORMAT b'"
  shows "audio (fst (processTaggedResponse env b u c cfg d))
       = audio (fst (processTaggedResponse env b' u c cfg d))"
  unfolding pTR_audio voice_step_audio assms(1) valid_payload_cong [OF assms(2)]
  by (rule refl)

lemma extra_image_id:
  "extra_image env x = [] \<or> (\<exists>url cap. extra_image env x = [\<lparr>img_id = x, img_url = url, img_caption = cap\<rparr>])"
  by (auto simp: extra_image_def split: attempt.splits option.splits)

lemma image_step_allImages:
  assumes "imageMatches b = f # others" and "allImages r = None"
  shows "\<exists>firsts.
           allImages (image_step env b st cfg r)
             = (if firsts = [] \<and> others = [] then None
                else Some (firsts @ concat (map (extra_image env) others)))
           \<and> (firsts = []
                \<or> (\<exists>url cap. firsts = [\<lparr>img_id = js_trim f, img_url = url, img_caption = cap\<rparr>]))"
proof (cases "resolve_first_image env cfg (js_trim f)")
  case Threw
  with assms show ?thesis
    by (intro exI [of _ "[]"]) (simp add: image_step_def Let_def)
next
  case (Done p)
  obtain url cap where p: "p = (url, cap)" by (cases p)
  show ?thesis
  proof (cases "url = []")
    case True
    with assms Done p show ?thesis
      by (intro exI [of _ "[]"]) (simp add: image_step_def Let_def)
  next
    case False
    have all: "allImages (image_found b st i url cap r)
        = Some [\<lparr>img_id = i, img_url = url, img_caption = cap\<rparr>]" for i
      by (simp add: image_found_def Let_def)
    from assms Done p False show ?thesis
      by (intro exI [of _ "[\<lparr>img_id = js_trim f, img_url = url, img_caption = cap\<rparr>]"])
         (simp add: image_step_def Let_def all)
  qed
qed

text \<open>The first identifier gives the main image of the response.\<close>

lemma image_step_main:
  assumes "imageMatches b = f # others"
    and "resolve_first_image env cfg (js_trim f) = Done (url, cap)" and "url \<noteq> []"
  shows "resp_image (image_step env b st cfg r) = url"
    and "imageCaption (image_step env b st cfg r) = (if cap \<noteq> [] then cap else imageCaption r)"
    and "allImages (image_step env b st cfg r)
           = Some (\<lparr>img_id = js_trim f, img_url = url, img_caption = cap\<rparr>
                   # concat (map (extra_image env) others))"
proof -
  have f: "resp_image (image_found b st i url cap r) = url"
    "imageCaption (image_found b st i url cap r) = (if cap \<noteq> [] then cap else imageCaption r)"
    "allImages (image_found b st i url cap r)
       = Some [\<lparr>img_id = i, img_url = url, img_caption = cap\<rparr>]" for i cap
    by (simp_all add: image_found_def Let_def)
  from assms show "resp_image (image_step env b st cfg r) = url"
    by (simp add: image_step_def Let_def f)
  from assms show "imageCaption (image_step env b st cfg r)
      = (if cap \<noteq> [] then cap else imageCaption r)"
    by (simp add: image_step_def Let_def f)
  from assms show "allImages (image_step env b st cfg r)
      = Some (\<lparr>img_id = js_trim f, img_url = url, img_caption = cap\<rparr>
              # concat (map (extra_image env) others))"
    by (simp add: image_step_def Let_def f)
qed

lemma voice_step_images [simp]:
  "resp_image (voice_step env b st r) = resp_image r"
  "imageCaption (voice_step env b st r) = imageCaption r"
  "allImages (voice_step env b st r) = allImages r"
  by (simp_all add: voice_step_def Let_def split: option.splits)

lemma pTR_images:
  assumes "first_block CONFIRMATION_FORMAT b = None"
    and "\<forall>pd. valid_payload env b = Some pd \<longrightarrow> has_digit (endereco pd)"
  shows "resp_image (fst (processTaggedResponse env b u c cfg d))
           = resp_image (rimg env b (state c) cfg)"
    and "imageCaption (fst (processTaggedResponse env b u c cfg d))
           = imageCaption (rimg env b (state c) cfg)"
    and "allImages (fst (processTaggedResponse env b u c cfg d))
           = allImages (rimg env b (state c) cfg)"
  using assms
  by (auto simp: pTR_alt json_step_def confirmation_step_def final_step_def Let_def
        split: option.splits)

lemma pTR_main_image:
  assumes "first_block CONFIRMATION_FORMAT b = None"
    and "\<forall>pd. valid_payload env b = Some pd \<longrightarrow> has_digit (endereco pd)"
    and "imageMatches b = f # others"
    and "resolve_first_image env cfg (js_trim f) = Done (url, cap)" and "url \<noteq> []"
  shows "resp_image (fst (processTaggedResponse env b u c cfg d)) = url"
    and "imageCaption (fst (processTaggedResponse env b u c cfg d)) = cap"
    and "allImages (fst (processTaggedResponse env b u c cfg d))
           = Some (\<lparr>img_id = js_trim f, img_url = url, img_caption = cap\<rparr>
                   # concat (map (extra_image env) others))"
  unfolding pTR_images [OF assms(1,2)] rimg_def
  by (simp_all add: image_step_main [OF assms(3,4,5)] new_response_def)


section \<open>Answers without markers\<close>

definition markers :: "string list" where
  \<comment> \<open>every marker that the engine looks for in an answer of the model\<close>
  "markers =
     [TEXT_FORMAT, VOICE_FORMAT, IMAGE_FORMAT, JSON_FORMAT, CONFIRMATION_FORMAT, END_TAG,
      ''[REQUEST_HISTORY]'', ''[/REQUEST_HISTORY]'', ''[REQUEST_MENU]'', ''[/REQUEST_MENU]'',
      ''[REQUEST_PAYMENT]'', ''[/REQUEST_PAYMENT]'']"

definition untagged :: "string \<Rightarrow> bool" where
  "untagged b = (\<not> any_includes b markers)"

lemma split_first_None: "\<not> sublist n s \<Longrightarrow> split_first n s = None"
proof (cases "split_first n s")
  case None
  then show ?thesis by simp
next
  case (Some x)
  assume n: "\<not> sublist n s"
  obtain b a where "x = (b, a)" by (cases x)
  with Some have "s = b @ n @ a" by (auto dest: split_first_Some)
  then have "sublist n s" by (auto simp: sublist_def)
  with n show ?thesis by simp
qed

lemma block_match_None: "\<not> sublist tag s \<Longrightarrow> block_match tag s = None"
  by (simp add: block_match_def split_first_None)

text \<open>A marker begins with a bracket and has no other opening bracket.\<close>

lemma prefix_marker_append:
  assumes c: "c \<notin> set n'" and b: "b \<noteq> []" and p: "prefix (c # n') (b @ c # e')"
  shows "prefix (c # n') b"
proof -
  obtain x xs where bx: "b = x # xs" using b by (cases b) auto
  with p have x: "x = c" and p': "prefix n' (xs @ c # e')" by auto
  from p' have "prefix n' xs \<or> (\<exists>us. n' = xs @ us \<and> prefix us (c # e'))"
    by (simp add: prefix_append)
  then show ?thesis
  proof
    assume "prefix n' xs"
    with x bx show ?thesis by simp
  next
    assume "\<exists>us. n' = xs @ us \<and> prefix us (c # e')"
    then obtain us where n: "n' = xs @ us" and u: "prefix us (c # e')" by blast
    show ?thesis
    proof (cases us)
      case Nil
      with n x bx show ?thesis by simp
    next
      case (Cons u us')
      with u have "u = c" by simp
      with n Cons have "c \<in> set n'" by simp
      with c show ?thesis by simp
    qed
  qed
qed

lemma sublist_marker_append:
  assumes c: "c \<notin> set n'" and e: "c \<notin> set e'"
  shows "sublist (c # n') (b @ c # e') \<Longrightarrow> sublist (c # n') b \<or> prefix (c # n') (c # e')"
proof (induction b)
  case Nil
  then have "prefix (c # n') (c # e') \<or> sublist (c # n') e'"
    by (simp add: sublist_Cons_right)
  moreover have "\<not> sublist (c # n') e'"
    using e set_mono_sublist [of "c # n'" e'] by auto
  ultimately show ?case by simp
next
  case (Cons x xs)
  from Cons.prems have "prefix (c # n') ((x # xs) @ c # e') \<or> sublist (c # n') (xs @ c # e')"
    by (simp add: sublist_Cons_right)
  then show ?case
  proof
    assume "prefix (c # n') ((x # xs) @ c # e')"
    from prefix_marker_append [OF c _ this] have "prefix (c # n') (x # xs)" by simp
    then show ?thesis by (simp add: sublist_Cons_right)
  next
    assume "sublist (c # n') (xs @ c # e')"
    from Cons.IH [OF this] show ?thesis by (auto simp: sublist_Cons_right)
  qed
qed

lemma sublist_skip:
  "c \<notin> set u \<Longrightarrow> sublist (c # n') (u @ s) = sublist (c # n') s"
  by (induction u) (auto simp: sublist_Cons_right)

lemma sublist_wrapped:
  assumes c: "c \<notin> set n'" "c \<notin> set t'" "c \<notin> set e'"
    and s: "sublist (c # n') ((c # t') @ b @ c # e')"
  shows "prefix (c # n') ((c # t') @ b @ c # e') \<or> sublist (c # n') b
         \<or> prefix (c # n') (c # e')"
proof -
  from s have "prefix (c # n') ((c # t') @ b @ c # e') \<or> sublist (c # n') (t' @ b @ c # e')"
    by (simp add: sublist_Cons_right)
  then show ?thesis
  proof
    assume "sublist (c # n') (t' @ b @ c # e')"
    with c(2) have "sublist (c # n') (b @ c # e')" by (simp add: sublist_skip)
    from sublist_marker_append [OF c(1) c(3) this] show ?thesis by blast
  qed blast
qed

lemma split_first_marker:
  assumes c: "c \<notin> set n'" and n: "\<not> sublist (c # n') b"
  shows "split_first (c # n') (b @ (c # n') @ a) = Some (b, a)"
  using n
proof (induction b)
  case Nil
  from split_first_here [of "c # n'" a] show ?case by simp
next
  case (Cons x xs)
  from Cons.prems have xs: "\<not> sublist (c # n') xs" by (simp add: sublist_Cons_right)
  have "\<not> prefix (c # n') ((x # xs) @ c # (n' @ a))"
  proof
    assume "prefix (c # n') ((x # xs) @ c # (n' @ a))"
    from prefix_marker_append [OF c _ this] have "prefix (c # n') (x # xs)" by simp
    with Cons.prems show False by (simp add: sublist_Cons_right)
  qed
  with Cons.IH [OF xs] show ?case by simp
qed


lemma wrapped_no_marker:
  assumes "\<not> sublist (CHR ''['' # n') b" and "CHR ''['' \<notin> set n'"
    and "\<not> prefix (CHR ''['' # n') (TEXT_FORMAT @ b @ END_TAG)"
    and "\<not> prefix (CHR ''['' # n') END_TAG"
  shows "\<not> sublist (CHR ''['' # n') (TEXT_FORMAT @ b @ END_TAG)"
proof
  assume s: "sublist (CHR ''['' # n') (TEXT_FORMAT @ b @ END_TAG)"
  have "sublist (CHR ''['' # n') ((CHR ''['' # ''TEXT_FORMAT]'') @ b @ CHR ''['' # ''/END]'')
      \<Longrightarrow> prefix (CHR ''['' # n') ((CHR ''['' # ''TEXT_FORMAT]'') @ b @ CHR ''['' # ''/END]'')
          \<or> sublist (CHR ''['' # n') b \<or> prefix (CHR ''['' # n') (CHR ''['' # ''/END]'')"
    by (rule sublist_wrapped [OF assms(2)]) simp_all
  with s assms(1,3,4) show False
    by (simp add: TEXT_FORMAT_def END_TAG_def)
qed

lemma untagged_iff:
  "untagged b \<longleftrightarrow>
     \<not> sublist TEXT_FORMAT b \<and> \<not> sublist VOICE_FORMAT b \<and> \<not> sublist IMAGE_FORMAT b
     \<and> \<not> sublist JSON_FORMAT b \<and> \<not> sublist CONFIRMATION_FORMAT b \<and> \<not> sublist END_TAG b
     \<and> \<not> sublist ''[REQUEST_HISTORY]'' b \<and> \<not> sublist ''[/REQUEST_HISTORY]'' b
     \<and> \<not> sublist ''[REQUEST_MENU]'' b \<and> \<not> sublist ''[/REQUEST_MENU]'' b
     \<and> \<not> sublist ''[REQUEST_PAYMENT]'' b \<and> \<not> sublist ''[/REQUEST_PAYMENT]'' b"
  by (simp add: untagged_def markers_def any_includes_def js_includes_def)

lemma wrapped_tags:
  assumes "untagged b"
  shows "\<not> sublist VOICE_FORMAT (TEXT_FORMAT @ b @ END_TAG)"
    and "\<not> sublist IMAGE_FORMAT (TEXT_FORMAT @ b @ END_TAG)"
    and "\<not> sublist JSON_FORMAT (TEXT_FORMAT @ b @ END_TAG)"
    and "\<not> sublist CONFIRMATION_FORMAT (TEXT_FORMAT @ b @ END_TAG)"
proof -
  note u = assms [unfolded untagged_iff]
  from u have "\<not> sublist (CHR ''['' # ''VOICE_FORMAT]'') b" by (simp add: VOICE_FORMAT_def)
  then show "\<not> sublist VOICE_FORMAT (TEXT_FORMAT @ b @ END_TAG)"
    unfolding VOICE_FORMAT_def
    by (rule wrapped_no_marker) (simp_all add: TEXT_FORMAT_def END_TAG_def)
  from u have "\<not> sublist (CHR ''['' # ''IMAGE_FORMAT]'') b" by (simp add: IMAGE_FORMAT_def)
  then show "\<not> sublist IMAGE_FORMAT (TEXT_FORMAT @ b @ END_TAG)"
    unfolding IMAGE_FORMAT_def
    by (rule wrapped_no_marker) (simp_all add: TEXT_FORMAT_def END_TAG_def)
  from u have "\<not> sublist (CHR ''['' # ''JSON_FORMAT]'') b" by (simp add: JSON_FORMAT_def)
  then show "\<not> sublist JSON_FORMAT (TEXT_FORMAT @ b @ END_TAG)"
    unfolding JSON_FORMAT_def
    by (rule wrapped_no_marker) (simp_all add: TEXT_FORMAT_def END_TAG_def)
  from u have "\<not> sublist (CHR ''['' # ''CONFIRMATION_FORMAT]'') b"
    by (simp add: CONFIRMATION_FORMAT_def)
  then show "\<not> sublist CONFIRMATION_FORMAT (TEXT_FORMAT @ b @ END_TAG)"
    unfolding CONFIRMATION_FORMAT_def
    by (rule wrapped_no_marker) (simp_all add: TEXT_FORMAT_def END_TAG_def)
qed

lemma wrapped_block:
  assumes "\<not> sublist END_TAG b"
  shows "block_match TEXT_FORMAT (TEXT_FORMAT @ b @ END_TAG) = Some (b, [])"
proof -
  have 1: "split_first TEXT_FORMAT (TEXT_FORMAT @ b @ END_TAG) = Some ([], b @ END_TAG)"
    by (rule split_first_here)
  from assms have "\<not> sublist (CHR ''['' # ''/END]'') b" by (simp add: END_TAG_def)
  from split_first_marker [OF _ this, of "[]"]
  have 2: "split_first END_TAG (b @ END_TAG) = Some (b, [])" by (simp add: END_TAG_def)
  from 1 2 show ?thesis by (simp add: block_match_def)
qed

lemma all_blocks_wrapped:
  assumes "\<not> sublist END_TAG b"
  shows "all_blocks TEXT_FORMAT (TEXT_FORMAT @ b @ END_TAG) = [b]"
proof -
  have "block_match TEXT_FORMAT [] = None" by code_simp
  then have "all_blocks TEXT_FORMAT [] = []" by (subst all_blocks.simps) simp
  with wrapped_block [OF assms] show ?thesis by (subst all_blocks.simps) simp
qed

lemma strip_text_tags_plain:
  assumes "\<not> sublist TEXT_FORMAT b" and "\<not> sublist END_TAG b"
  shows "strip_text_tags (b @ END_TAG) = b"
  using assms
proof (induction b)
  case Nil
  have "strip_text_tags END_TAG = []" by code_simp
  then show ?case by simp
next
  case (Cons x xs)
  from Cons.prems have xs: "\<not> sublist TEXT_FORMAT xs" "\<not> sublist END_TAG xs"
    by (simp_all add: sublist_Cons_right)
  have t: "\<not> prefix TEXT_FORMAT ((x # xs) @ END_TAG)"
  proof
    assume "prefix TEXT_FORMAT ((x # xs) @ END_TAG)"
    then have "prefix (CHR ''['' # ''TEXT_FORMAT]'') ((x # xs) @ CHR ''['' # ''/END]'')"
      by (simp only: TEXT_FORMAT_def END_TAG_def)
    from prefix_marker_append [OF _ _ this] have "prefix TEXT_FORMAT (x # xs)"
      by (simp add: TEXT_FORMAT_def)
    with Cons.prems(1) show False by (simp add: sublist_Cons_right)
  qed
  have e: "\<not> prefix END_TAG ((x # xs) @ END_TAG)"
  proof
    assume "prefix END_TAG ((x # xs) @ END_TAG)"
    then have "prefix (CHR ''['' # ''/END]'') ((x # xs) @ CHR ''['' # ''/END]'')"
      by (simp only: END_TAG_def)
    from prefix_marker_append [OF _ _ this] have "prefix END_TAG (x # xs)"
      by (simp add: END_TAG_def)
    with Cons.prems(2) show False by (simp add: sublist_Cons_right)
  qed
  from t e Cons.IH [OF xs] show ?case
    by (subst strip_text_tags.simps) simp
qed

lemma strip_text_tags_wrapped:
  assumes "\<not> sublist TEXT_FORMAT b" and "\<not> sublist END_TAG b"
  shows "strip_text_tags (TEXT_FORMAT @ b @ END_TAG) = b"
proof -
  have "strip_text_tags (TEXT_FORMAT @ b @ END_TAG) = strip_text_tags (b @ END_TAG)"
    by (subst strip_text_tags.simps) (simp add: TEXT_FORMAT_def)
  with strip_text_tags_plain [OF assms] show ?thesis by simp
qed

lemma text_messages_wrapped:
  assumes "untagged b"
  shows "text_messages (TEXT_FORMAT @ b @ END_TAG) = (if js_trim b = [] then [] else [js_trim b])"
proof -
  note u = assms [unfolded untagged_iff]
  from u have t: "\<not> sublist TEXT_FORMAT b" and e: "\<not> sublist END_TAG b" by simp_all
  show ?thesis
    by (simp add: text_messages_def all_blocks_wrapped [OF e] strip_text_tags_wrapped [OF t e])
qed

lemma imageMatches_none: "\<not> sublist IMAGE_FORMAT s \<Longrightarrow> imageMatches s = []"
  by (subst imageMatches.simps) (simp add: block_match_None)

lemma first_block_none: "\<not> sublist tag s \<Longrightarrow> first_block tag s = None"
  by (simp add: first_block_def block_match_None)

lemma pTR_wrapped:
  assumes "untagged b"
  shows "processTaggedResponse env (TEXT_FORMAT @ b @ END_TAG) u c cfg d
           = (new_response (state c) (TEXT_FORMAT @ b @ END_TAG), c, d)"
proof -
  note w = wrapped_tags [OF assms]
  have n: "TEXT_FORMAT \<noteq> []" by (simp add: TEXT_FORMAT_def)
  show ?thesis
    by (simp add: processTaggedResponse_def voice_step_def image_step_def json_step_def
          valid_payload_def confirmation_step_def final_step_def new_response_def
          first_block_none w imageMatches_none n Let_def)
qed

lemma ensure_format_untagged:
  assumes "untagged b"
  shows "ensure_format b = TEXT_FORMAT @ b @ END_TAG"
  using assms [unfolded untagged_iff]
  by (simp add: ensure_format_def has_format_def js_includes_def)

lemma llm_stage_untagged:
  assumes "untagged b" and "chat_completion env = Content b"
  shows "llm_stage env c d = (TEXT_FORMAT @ b @ END_TAG, c, d)"
proof -
  note u = assms(1) [unfolded untagged_iff]
  from u have "extractPedidoData env b = None"
    by (simp add: extractPedidoData_def first_block_none)
  then have 1: "stage_extracted env b c d = (c, d)" by (simp add: stage_extracted_def)
  from u have 2: "stage_json env b c d = (c, d)"
    by (simp add: stage_json_def js_includes_def)
  from u have 3: "enrich env b = Some b"
    by (simp add: enrich_def any_includes_def js_includes_def)
  from 1 2 3 assms(2) ensure_format_untagged [OF assms(1)] show ?thesis
    by (simp add: llm_stage_def)
qed


lemma processMessageInternally_untagged:
  assumes u: "untagged b" and m: "chat_completion env = Content b"
    and p: "userPhone \<noteq> []" "\<not> is_reset message"
    and pre: "prelude env message isAudio conversa d = (c2, d1)"
    and i: "state4_number message c2 d1 = None" "state5_payment message c2 d1 = None"
      "state6_confirm env message c2 d1 = None" "image_request env message c2 d1 = None"
  shows "processMessageInternally env userPhone message isAudio conversa d
      = (case advance_state (TEXT_FORMAT @ b @ END_TAG) message
                (push_msg Bot (TEXT_FORMAT @ b @ END_TAG) c2) of
           (c4, logs) \<Rightarrow>
             (new_response (state c4) (TEXT_FORMAT @ b @ END_TAG), save_conversa c4 d1, logs))"
  using p pre i
  by (simp add: processMessageInternally_def llm_stage_untagged [OF u m] pTR_wrapped [OF u]
        split: prod.splits)

section \<open>The beginning of a turn\<close>

lemma prelude_shape:
  assumes "prelude env message isAudio conversa d = (c2, d1)"
  shows "state c2 = state conversa"
    and "\<exists>t. mensagens c2 = mensagens conversa @ [\<lparr>tipo = User, conteudo = t\<rparr>]"
  using assms
  by (auto simp: prelude_def push_msg_def Let_def split: option.splits)

section \<open>Messages that are a number\<close>

lemma skip_seqs_decompose:
  "\<exists>pre. s = pre @ skip_seqs ws s \<and> set pre \<subseteq> \<Union> (set ` set ws)"
proof (induction ws s rule: skip_seqs.induct)
  case (1 ws s)
  show ?case
  proof (cases "seq_len ws s = 0")
    case True
    then have "skip_seqs ws s = s" by (subst skip_seqs.simps) simp
    then show ?thesis by simp
  next
    case False
    then obtain w where w: "find (\<lambda>w. w \<noteq> [] \<and> prefix w s) ws = Some w"
      and l: "seq_len ws s = length w"
      by (auto simp: seq_len_def split: option.splits)
    from w have "w \<in> set ws" and "prefix w s"
      by (auto simp: find_Some_iff)
    then have s: "s = w @ drop (length w) s"
      by (metis append_eq_conv_conj prefix_def)
    from 1 [OF False] obtain pre where
      p: "drop (seq_len ws s) s = pre @ skip_seqs ws (drop (seq_len ws s) s)"
      and q: "set pre \<subseteq> \<Union> (set ` set ws)"
      by blast
    from False have k: "skip_seqs ws s = skip_seqs ws (drop (seq_len ws s) s)"
      by (subst skip_seqs.simps) simp
    from s p l k have "s = (w @ pre) @ skip_seqs ws s" by simp
    moreover from q \<open>w \<in> set ws\<close> have "set (w @ pre) \<subseteq> \<Union> (set ` set ws)" by auto
    ultimately show ?thesis by blast
  qed
qed

lemma set_skip_seqs: "set (skip_seqs ws s) \<subseteq> set s"
proof -
  from skip_seqs_decompose [of s ws] obtain pre where "s = pre @ skip_seqs ws s" by blast
  then have "set s = set pre \<union> set (skip_seqs ws s)" by (metis set_append)
  then show ?thesis by simp
qed

lemma set_js_trim: "set (js_trim s) \<subseteq> set s"
proof -
  have "set (js_trim s) \<subseteq> set (rev (skip_ws s))"
    unfolding js_trim_def using set_skip_seqs [of "map rev ws_seqs" "rev (skip_ws s)"] by simp
  also have "\<dots> \<subseteq> set s" using set_skip_seqs [of ws_seqs s] by (simp add: skip_ws_def)
  finally show ?thesis .
qed

lemma only_digits_chars:
  assumes "only_digits m"
  shows "set m \<subseteq> \<Union> (set ` set ws_seqs) \<union> {c. is_digit c}" and "has_digit m"
proof -
  let ?r = "skip_ws m"
  from assms have t: "takeWhile is_digit ?r \<noteq> []" and w: "skip_ws (dropWhile is_digit ?r) = []"
    by (simp_all add: only_digits_def Let_def)
  from skip_seqs_decompose [of m ws_seqs] obtain pre where
    m: "m = pre @ ?r" and pre: "set pre \<subseteq> \<Union> (set ` set ws_seqs)"
    by (auto simp: skip_ws_def)
  from skip_seqs_decompose [of "dropWhile is_digit ?r" ws_seqs] w
  have dw: "set (dropWhile is_digit ?r) \<subseteq> \<Union> (set ` set ws_seqs)"
    by (auto simp: skip_ws_def)
  have tw: "set (takeWhile is_digit ?r) \<subseteq> {c. is_digit c}"
    by (auto dest: set_takeWhileD)
  have "set ?r = set (takeWhile is_digit ?r) \<union> set (dropWhile is_digit ?r)"
    by (metis set_append takeWhile_dropWhile_id)
  with tw dw have r: "set ?r \<subseteq> \<Union> (set ` set ws_seqs) \<union> {c. is_digit c}" by auto
  have "set m = set pre \<union> set ?r" by (subst m) simp
  with pre r show "set m \<subseteq> \<Union> (set ` set ws_seqs) \<union> {c. is_digit c}" by auto
  from t obtain c where "c \<in> set (takeWhile is_digit ?r)" by (cases "takeWhile is_digit ?r") auto
  then have "is_digit c" "c \<in> set ?r" by (auto dest: set_takeWhileD)
  with \<open>set m = set pre \<union> set ?r\<close> show "has_digit m" by (auto simp: has_digit_def)
qed

lemma dollar_not_ws: "CHR ''$'' \<notin> \<Union> (set ` set ws_seqs)" "\<not> is_digit (CHR ''$'')"
  by (simp_all add: ws_seqs_def is_digit_def)

lemma only_digits_no_dollar: "only_digits m \<Longrightarrow> CHR ''$'' \<notin> set (js_trim m)"
  using only_digits_chars(1) [of m] set_js_trim [of m] dollar_not_ws by auto

lemma expand_dollar_plain: "CHR ''$'' \<notin> set r \<Longrightarrow> expand_dollar r m pre post = r"
  by (induction r m pre post rule: expand_dollar.induct) auto

lemma split_first_sublist: "sublist n s \<Longrightarrow> \<exists>b a. split_first n s = Some (b, a)"
proof (cases "split_first n s")
  case None
  assume "sublist n s"
  have "split_first n s = None \<Longrightarrow> \<not> sublist n s"
    by (induction s) (auto simp: sublist_Cons_right split: if_splits option.splits)
  with None \<open>sublist n s\<close> show ?thesis by simp
next
  case (Some x)
  then show ?thesis by (cases x) simp
qed

lemma lower_ascii_digit: "is_digit c \<Longrightarrow> lower_ascii c = c"
proof -
  have "\<forall>x \<in> set ''0123456789''. lower_ascii x = x"
    by code_simp
  then show "is_digit c \<Longrightarrow> lower_ascii c = c"
    unfolding is_digit_def by blast
qed

lemma lower_seqs_no_digit: "p \<in> set lower_seqs \<Longrightarrow> c \<in> set (fst p) \<Longrightarrow> \<not> is_digit c"
proof -
  have "\<forall>p \<in> set lower_seqs. \<forall>c \<in> set (fst p). c \<notin> set ''0123456789''"
    by code_simp
  then show "p \<in> set lower_seqs \<Longrightarrow> c \<in> set (fst p) \<Longrightarrow> \<not> is_digit c"
    unfolding is_digit_def by blast
qed

lemma toLowerCase_has_digit: "has_digit s \<Longrightarrow> has_digit (toLowerCase s)"
proof (induction s rule: toLowerCase.induct)
  case (1 s)
  show ?case
  proof (cases s)
    case Nil
    with "1.prems" show ?thesis by (simp add: has_digit_def)
  next
    case (Cons c cs)
    show ?thesis
    proof (cases "lower_at s")
      case None
      show ?thesis
      proof (cases "is_digit c")
        case True
        with Cons None show ?thesis
          by (subst toLowerCase.simps) (simp add: has_digit_def lower_ascii_digit)
      next
        case False
        with "1.prems" Cons have "has_digit cs" by (auto simp: has_digit_def)
        from "1.IH"(1) [OF Cons None this] Cons None show ?thesis
          by (subst toLowerCase.simps) (simp add: has_digit_def)
      qed
    next
      case (Some p)
      then have m: "p \<in> set lower_seqs" and pf: "prefix (fst p) s"
        by (auto simp: lower_at_def find_Some_iff)
      from pf have "s = fst p @ drop (length (fst p)) s"
        by (metis append_eq_conv_conj prefix_def)
      then have "set s = set (fst p) \<union> set (drop (length (fst p)) s)"
        by (metis set_append)
      with "1.prems" lower_seqs_no_digit [OF m] have "has_digit (drop (length (fst p)) s)"
        by (auto simp: has_digit_def)
      from "1.IH"(2) [OF Cons Some this] Cons Some show ?thesis
        by (subst toLowerCase.simps) (auto simp: has_digit_def)
    qed
  qed
qed

lemma only_digits_not_reset: "only_digits m \<Longrightarrow> \<not> is_reset m"
proof
  assume "only_digits m" and r: "is_reset m"
  then have h: "has_digit (toLowerCase m)"
    by (intro toLowerCase_has_digit only_digits_chars(2))
  have "\<not> has_digit ''reiniciar''" "\<not> has_digit (''come'' @ c_cedil @ ''ar de novo'')"
    "\<not> has_digit ''novo pedido''"
    by code_simp+
  with r h show False by (auto simp: is_reset_def)
qed

lemma js_replace_splice:
  assumes "js_includes fa st" and "CHR ''$'' \<notin> set repl"
  shows "\<exists>pre post. fa = pre @ st @ post \<and> js_replace fa st repl = pre @ repl @ post"
proof -
  from assms(1) obtain pre post where s: "split_first st fa = Some (pre, post)"
    using split_first_sublist [of st fa] by (auto simp: js_includes_def)
  from split_first_Some [OF s] s assms(2)
  have "fa = pre @ st @ post \<and> js_replace fa st repl = pre @ repl @ post"
    by (simp add: js_replace_def expand_dollar_plain)
  then show ?thesis by blast
qed

lemma state4_formatted:
  assumes "only_digits message" and "CHR ''$'' \<notin> set st"
    and "fa = [] \<or> js_includes fa st"
  shows "js_includes
           (if fa \<noteq> [] then js_replace fa st (st @ '', '' @ js_trim message)
            else st @ '', '' @ js_trim message)
           (st @ '', '' @ js_trim message)"
proof (cases "fa = []")
  case True
  then show ?thesis by (simp add: js_includes_def)
next
  case False
  with assms(3) have i: "js_includes fa st" by simp
  from only_digits_no_dollar [OF assms(1)] assms(2)
  have "CHR ''$'' \<notin> set (st @ '', '' @ js_trim message)" by simp
  from js_replace_splice [OF i this] obtain pre post where
    "js_replace fa st (st @ '', '' @ js_trim message)
       = pre @ (st @ '', '' @ js_trim message) @ post"
    by blast
  with False show ?thesis
    by (simp only: js_includes_def if_True if_False not_False_eq_True sublist_appendI)
qed

lemma msg_address_registered_options:
  "js_includes (msg_address_registered formatted) msg_payment_options"
proof -
  have "msg_address_registered formatted
      = (''Perfeito! Endere'' @ c_cedil @ ''o registrado: '' @ formatted @ ''. '')
        @ msg_payment_options @ []"
    by (simp add: msg_address_registered_def)
  then show ?thesis by (simp only: js_includes_def sublist_appendI)
qed

section \<open>Where a turn can commit\<close>












lemma checked_order_endereco:
  "checked_order env c spd = Some novo \<Longrightarrow> p_endereco novo = endereco spd"
  by (auto simp: checked_order_def novoPedido_def split: option.splits if_splits)







section \<open>The states of the stored conversations\<close>

definition states_bounded :: "'n db \<Rightarrow> bool" where
  \<comment> \<open>no stored conversation is beyond state 7\<close>
  "states_bounded d = list_all (\<lambda>c. state c \<le> 7) (conversas d)"

datatype 'n request =
    Api "'n env" string string bool bool
      \<comment> \<open>a request to \<^verbatim>\<open>/api/message\<close>: the collaborators of the turn, phone, message,
          \<^verbatim>\<open>isAudio\<close>, and whether the newest conversation is stale\<close>
  | WhatsApp "'n env" string string bool
      \<comment> \<open>a text message of the WhatsApp client\<close>

fun serve :: "'n::{zero,one,plus,times} request \<Rightarrow> 'n db \<Rightarrow> 'n db" where
  "serve (Api env phone message isAudio stale) d =
     fst (snd (api_message env phone message isAudio stale d))"
| "serve (WhatsApp env phone message stale) d =
     fst (snd (processTextMessage env phone message stale d))"

definition serve_all :: "'n::{zero,one,plus,times} request list \<Rightarrow> 'n db \<Rightarrow> 'n db" where
  \<comment> \<open>the store after a sequence of requests, first one first\<close>
  "serve_all rqs d = foldl (\<lambda>d rq. serve rq d) d rqs"

lemma states_bounded_save:
  "states_bounded d \<Longrightarrow> state c \<le> 7 \<Longrightarrow> states_bounded (save_conversa c d)"
  by (auto simp: states_bounded_def save_conversa_def list_all_iff)

lemma states_bounded_pedidos [simp]:
  "states_bounded (d\<lparr>pedidos := x\<rparr>) = states_bounded d"
  by (simp add: states_bounded_def)

lemma json_step_state:
  assumes "json_step env b c d r = X"
    and "X = Return (r', c', d') \<or> X = Continue (r', c', d')"
  shows "state c' = state c \<or> state c' = 4 \<or> (state c < 6 \<and> state c' = 6)"
    and "states_bounded d \<Longrightarrow> state c \<le> 7 \<Longrightarrow> states_bounded d'"
  using assms
  by (auto simp: json_step_def Let_def states_bounded_save split: option.splits if_splits)

lemma confirmation_step_state:
  assumes "confirmation_step env b c cfg d r = X"
    and "X = Return (r', c', d') \<or> X = Continue (r', c', d')"
  shows "state c' = state c \<or> state c' = 4 \<or> state c' = 7"
    and "states_bounded d \<Longrightarrow> state c \<le> 7 \<Longrightarrow> states_bounded d'"
  using assms
  by (auto simp: confirmation_step_def Let_def states_bounded_save split: option.splits if_splits)

lemma pTR_state:
  assumes "processTaggedResponse env b u c cfg d = (r1, c1, d1)"
  shows "state c1 = state c \<or> state c1 = 4 \<or> state c1 = 7 \<or> (state c < 6 \<and> state c1 = 6)"
    and "states_bounded d \<Longrightarrow> state c \<le> 7 \<Longrightarrow> states_bounded d1"
proof -
  have "(state c1 = state c \<or> state c1 = 4 \<or> state c1 = 7 \<or> (state c < 6 \<and> state c1 = 6))
      \<and> (states_bounded d \<longrightarrow> state c \<le> 7 \<longrightarrow> states_bounded d1)"
  proof (cases "json_step env b c d (rimg env b (state c) cfg)")
    case (Return x)
    obtain r' c' d' where x: "x = (r', c', d')" by (cases x)
    from assms Return x have e: "c1 = c'" "d1 = d'" by (simp_all add: pTR_alt)
    from json_step_state [OF Return, of r' c' d'] x e show ?thesis by auto
  next
    case (Continue y)
    obtain r3 c3 d3 where y: "y = (r3, c3, d3)" by (cases y)
    note js = json_step_state [OF Continue, of r3 c3 d3]
    from js(1) y have b3: "state c \<le> 7 \<Longrightarrow> state c3 \<le> 7" by auto
    show ?thesis
    proof (cases "confirmation_step env b c3 cfg d3 r3")
      case (Return x)
      obtain r' c' d' where x: "x = (r', c', d')" by (cases x)
      from assms Continue y Return x have e: "c1 = c'" "d1 = d'" by (simp_all add: pTR_alt)
      from confirmation_step_state [OF Return, of r' c' d'] x e js y b3 show ?thesis by auto
    next
      case (Continue z)
      obtain r' c' d' where z: "z = (r', c', d')" by (cases z)
      from assms \<open>json_step env b c d (rimg env b (state c) cfg) = Continue y\<close> y Continue z
      have e: "c1 = c'" "d1 = d'" by (simp_all add: pTR_alt)
      from confirmation_step_state [OF Continue, of r' c' d'] z e js y b3 show ?thesis by auto
    qed
  qed
  then show "state c1 = state c \<or> state c1 = 4 \<or> state c1 = 7 \<or> (state c < 6 \<and> state c1 = 6)"
    and "states_bounded d \<Longrightarrow> state c \<le> 7 \<Longrightarrow> states_bounded d1"
    by simp_all
qed

lemma advance_state_state:
  assumes "advance_state b m c = (c', logs)"
  shows "state c' = state c \<or> (state c < 7 \<and> state c' = Suc (state c))"
    and "state c = 7 \<Longrightarrow> c' = c \<and> logs = (if pedidoId c = None then [Alerta_estado7_sem_pedidoId] else [])"
  using assms by (auto simp: advance_state_def split: if_splits)

lemma stage_extracted_state:
  assumes "stage_extracted env b c d = (c', d')"
  shows "state c' = state c" and "states_bounded d \<Longrightarrow> state c \<le> 7 \<Longrightarrow> states_bounded d'"
  using assms
  by (auto simp: stage_extracted_def Let_def states_bounded_save split: option.splits)

lemma stage_json_state:
  assumes "stage_json env b c d = (c', d')"
  shows "state c' = state c \<or> state c' = 6"
    and "states_bounded d \<Longrightarrow> state c \<le> 7 \<Longrightarrow> states_bounded d'"
  using assms
  by (auto simp: stage_json_def Let_def states_bounded_save
        split: option.splits if_splits json.splits)

lemma llm_stage_state:
  assumes "llm_stage env c d = (b, c', d')"
  shows "state c' = state c \<or> state c' = 6"
    and "states_bounded d \<Longrightarrow> state c \<le> 7 \<Longrightarrow> states_bounded d'"
proof -
  have "(state c' = state c \<or> state c' = 6)
      \<and> (states_bounded d \<longrightarrow> state c \<le> 7 \<longrightarrow> states_bounded d')"
  proof (cases "chat_completion env")
    case ApiError
    with assms have "stage_json env msg_problemas_tecnicos c d = (c', d')"
      by (auto simp: llm_stage_def split: prod.splits option.splits)
    from stage_json_state [OF this] show ?thesis by auto
  next
    case NullContent
    with assms show ?thesis by (simp add: llm_stage_def)
  next
    case (Content b0)
    obtain cx dx where 1: "stage_extracted env b0 c d = (cx, dx)"
      by (cases "stage_extracted env b0 c d")
    with assms Content have 2: "stage_json env b0 cx dx = (c', d')"
      by (auto simp: llm_stage_def split: prod.splits option.splits)
    from stage_extracted_state [OF 1] stage_json_state [OF 2] show ?thesis by auto
  qed
  then show "state c' = state c \<or> state c' = 6"
    and "states_bounded d \<Longrightarrow> state c \<le> 7 \<Longrightarrow> states_bounded d'"
    by simp_all
qed

text \<open>The model path of a turn: staging, the state step and the tagged reply.\<close>

lemma model_path_state:
  assumes l: "llm_stage env c2 d1 = (b, c3, d3)"
    and a: "advance_state b m (push_msg Bot b c3) = (c4, logs)"
    and k: "k = c4 \<or> k = after_save c4"
    and p: "processTaggedResponse env b m k cfg (save_conversa c4 d3) = (r, c5, d5)"
  shows "state c2 \<le> 6 \<Longrightarrow> state c2 \<le> state c5 \<or> state c5 = 4"
    and "state c2 \<le> 7 \<Longrightarrow> state c5 \<le> 7"
    and "states_bounded d1 \<Longrightarrow> state c2 \<le> 7 \<Longrightarrow> states_bounded d5"
proof -
  note ls = llm_stage_state [OF l]
  from advance_state_state(1) [OF a] have as: "state c4 = state c3 \<or> (state c3 < 7 \<and> state c4 = Suc (state c3))"
    by (simp add: push_msg_def)
  from k have sk: "state k = state c4" by auto
  note ps = pTR_state [OF p, unfolded sk]
  from ls(1) as ps(1) show "state c2 \<le> 6 \<Longrightarrow> state c2 \<le> state c5 \<or> state c5 = 4" by auto
  from ls(1) as ps(1) show "state c2 \<le> 7 \<Longrightarrow> state c5 \<le> 7" by auto
  assume i: "states_bounded d1" and s: "state c2 \<le> 7"
  from ls(2) [OF i s] have "states_bounded d3" .
  moreover from ls(1) as s have "state c4 \<le> 7" by auto
  ultimately show "states_bounded d5"
    by (intro ps(2) states_bounded_save)
qed

lemma prelude_bounded:
  assumes "prelude env m a c d = (c2, d1)"
  shows "states_bounded d \<Longrightarrow> state c \<le> 7 \<Longrightarrow> states_bounded d1"
  using assms
  by (auto simp: prelude_def Let_def states_bounded_save split: option.splits)

lemma state4_number_bounded:
  "state4_number m c d = Some (r, d') \<Longrightarrow> states_bounded d \<Longrightarrow> states_bounded d'"
  by (auto simp: state4_number_def Let_def push_msg_def states_bounded_save
        split: if_splits option.splits)

lemma state5_payment_bounded:
  "state5_payment m c d = Some (r, d') \<Longrightarrow> states_bounded d \<Longrightarrow> states_bounded d'"
  by (auto simp: state5_payment_def Let_def push_msg_def states_bounded_save
        split: if_splits option.splits)

lemma image_request_bounded:
  assumes "image_request env m c d = Some (r, d')" and "states_bounded d" and "state c \<le> 7"
  shows "states_bounded d'"
proof -
  from assms(1) obtain ids c1 where
    p: "processTaggedResponse env (image_request_text ids) m
          (after_save (push_msg Bot (image_request_text ids) c)) (botConfig_findOne env)
          (save_conversa (push_msg Bot (image_request_text ids) c) d) = (r, c1, d')"
    by (auto simp: image_request_def Let_def split: option.splits if_splits prod.splits)
  from assms(2,3) show ?thesis
    by (intro pTR_state(2) [OF p] states_bounded_save) (simp_all add: push_msg_def)
qed

lemma state6_confirm_bounded:
  assumes "state6_confirm env m c d = Some (r, d')" and "states_bounded d"
  shows "states_bounded d'"
proof (cases "pedidoData c")
  case None
  with assms show ?thesis by (auto simp: state6_confirm_def split: if_splits)
next
  case (Some pd)
  note pd = this
  show ?thesis
  proof (cases "items pd")
    case None
    with assms pd show ?thesis by (auto simp: state6_confirm_def split: if_splits)
  next
    case (Some its)
    let ?novo = "\<lparr>p_telefone = telefone c, itens = its,
                   valorTotal = total_nan its (Some 0), p_endereco = enderecoCompleto c pd,
                   formaPagamento = pagamento pd, status = ''Confirmado''\<rparr>"
    show ?thesis
    proof (cases "state c = 6 \<and> is_affirmative m \<and> pedido_save_ok env ?novo")
      case False
      with assms pd Some show ?thesis
        by (auto simp: state6_confirm_def Let_def split: if_splits)
    next
      case True
      note go = this
      show ?thesis
      proof (cases its)
        case Nil
        with assms pd Some go show ?thesis
          by (auto simp: state6_confirm_def Let_def)
      next
        case (Cons item0 rest)
        let ?t = "confirmacao_text env pd item0 its (enderecoCompleto c pd)"
        let ?c2 = "push_msg Bot ?t (c\<lparr>pedidoId := Some (length (pedidos d)), state := 7\<rparr>)"
        let ?d2 = "save_conversa ?c2 (d\<lparr>pedidos := pedidos d @ [?novo]\<rparr>)"
        let ?d3 = "save_conversa (new_conversa (telefone c) ?d2) ?d2"
        from assms pd Some go Cons obtain c4 where
          p: "processTaggedResponse env ?t m (after_save ?c2) None ?d3 = (r, c4, d')"
          by (auto simp: state6_confirm_def Let_def split: prod.splits)
        have s: "state ?c2 \<le> 7" by (simp add: push_msg_def)
        then have s': "state (after_save ?c2) \<le> 7" by simp
        from assms(2) have "states_bounded (d\<lparr>pedidos := pedidos d @ [?novo]\<rparr>)" by simp
        from states_bounded_save [OF this s] have d2: "states_bounded ?d2" .
        have "states_bounded ?d3"
          by (rule states_bounded_save [OF d2]) (simp add: new_conversa_def)
        from pTR_state(2) [OF p this s'] show ?thesis .
      qed
    qed
  qed
qed

lemma processMessageInternally_bounded:
  assumes "processMessageInternally env userPhone message isAudio conversa d = (r, d', logs)"
    and i: "states_bounded d" and s: "state conversa \<le> 7"
  shows "states_bounded d'"
proof (cases "userPhone = [] \<or> is_reset message")
  case True
  with assms show ?thesis by (auto simp: processMessageInternally_def split: if_splits)
next
  case False
  obtain c2 d1 where pre: "prelude env message isAudio conversa d = (c2, d1)"
    by (cases "prelude env message isAudio conversa d")
  note i1 = prelude_bounded [OF pre i s]
  from prelude_shape(1) [OF pre] s have s2: "state c2 \<le> 7" by simp
  show ?thesis
  proof (cases "state4_number message c2 d1")
    case (Some x)
    obtain r' dd where x: "x = (r', dd)" by (cases x)
    from assms(1) False pre Some x have "dd = d'" by (simp add: processMessageInternally_def)
    with state4_number_bounded [OF Some [unfolded x] i1] show ?thesis by simp
  next
    case None
    note s4 = this
    show ?thesis
    proof (cases "state5_payment message c2 d1")
      case (Some x)
      obtain r' dd where x: "x = (r', dd)" by (cases x)
      from assms(1) False pre s4 Some x have "dd = d'"
        by (simp add: processMessageInternally_def)
      with state5_payment_bounded [OF Some [unfolded x] i1] show ?thesis by simp
    next
      case None
      note s5 = this
      show ?thesis
      proof (cases "state6_confirm env message c2 d1")
        case (Some x)
        obtain r' dd where x: "x = (r', dd)" by (cases x)
        from assms(1) False pre s4 s5 Some x have "dd = d'"
          by (simp add: processMessageInternally_def)
        with state6_confirm_bounded [OF Some [unfolded x] i1] show ?thesis by simp
      next
        case None
        note s6 = this
        show ?thesis
        proof (cases "image_request env message c2 d1")
          case (Some x)
          obtain r' dd where x: "x = (r', dd)" by (cases x)
          from assms(1) False pre s4 s5 s6 Some x have "dd = d'"
            by (simp add: processMessageInternally_def)
          with image_request_bounded [OF Some [unfolded x] i1 s2] show ?thesis by simp
        next
          case None
          obtain b c3 d3 where l: "llm_stage env c2 d1 = (b, c3, d3)"
            by (cases "llm_stage env c2 d1")
          obtain c4 lg where a: "advance_state b message (push_msg Bot b c3) = (c4, lg)"
            by (cases "advance_state b message (push_msg Bot b c3)")
          obtain r5 c5 d5 where p: "processTaggedResponse env b message (after_save c4)
              (cached_botConfig env) (save_conversa c4 d3) = (r5, c5, d5)"
            by (cases "processTaggedResponse env b message (after_save c4)
              (cached_botConfig env) (save_conversa c4 d3)")
          from assms(1) False pre s4 s5 s6 None l a p have "d5 = d'"
            by (simp add: processMessageInternally_def)
          with model_path_state(3) [OF l a disjI2 [OF refl] p i1 s2] show ?thesis by simp
        qed
      qed
    qed
  qed
qed

lemma getOrCreateConversation_bounded:
  assumes "getOrCreateConversation p m stale d = (c, d')" and "states_bounded d"
  shows "states_bounded d'" and "state c \<le> 7"
proof -
  have n: "state (new_conversa p d) \<le> 7" by (simp add: new_conversa_def)
  have f: "find (\<lambda>c. telefone c = p) (conversas d) = Some x \<Longrightarrow> state x \<le> 7" for x
    using assms(2) by (auto simp: states_bounded_def list_all_iff find_Some_iff)
  from assms n f show "states_bounded d'" and "state c \<le> 7"
    by (auto simp: getOrCreateConversation_def Let_def states_bounded_save
          split: if_splits option.splits)
qed

lemma handleResetRequest_bounded:
  assumes "handleResetRequest env p d = (sent, d')" and "states_bounded d"
  shows "states_bounded d'"
proof -
  from assms(1) obtain b u c cfg r1 c1 where
    p: "processTaggedResponse env b u (after_save c) cfg
          (save_conversa c (save_conversa (new_conversa p d) d)) = (r1, c1, d')"
    and c: "state c = 0"
    by (auto simp: handleResetRequest_def Let_def push_msg_def new_conversa_def
          split: prod.splits)
  from assms(2) c show ?thesis
    by (intro pTR_state(2) [OF p] states_bounded_save) (simp_all add: new_conversa_def)
qed

lemma api_message_bounded:
  assumes "states_bounded d"
  shows "states_bounded (fst (snd (api_message env p m a stale d)))"
proof -
  obtain c d1 where g: "getOrCreateConversation p m stale d = (c, d1)"
    by (cases "getOrCreateConversation p m stale d")
  obtain r d' logs where x: "processMessageInternally env p m a c d1 = (r, d', logs)"
    by (cases "processMessageInternally env p m a c d1")
  from processMessageInternally_bounded [OF x getOrCreateConversation_bounded [OF g assms]]
    g x show ?thesis by (simp add: api_message_def)
qed

lemma processTextMessage_bounded:
  assumes "states_bounded d"
  shows "states_bounded (fst (snd (processTextMessage env p m stale d)))"
proof (cases "handleAudioRequest env p m d")
  case (Some s)
  with assms show ?thesis by (simp add: processTextMessage_def)
next
  case None
  obtain c d1 where g: "getOrCreateConversation p m stale d = (c, d1)"
    by (cases "getOrCreateConversation p m stale d")
  note b = getOrCreateConversation_bounded [OF g assms]
  show ?thesis
  proof (cases "is_reset m")
    case True
    obtain s d' where h: "handleResetRequest env p d1 = (s, d')"
      by (cases "handleResetRequest env p d1")
    from handleResetRequest_bounded [OF h b(1)] None g True h show ?thesis
      by (simp add: processTextMessage_def)
  next
    case False
    obtain r d' logs where x: "processMessageInternally env p m False c d1 = (r, d', logs)"
      by (cases "processMessageInternally env p m False c d1")
    from processMessageInternally_bounded [OF x b] None g False x show ?thesis
      by (simp add: processTextMessage_def)
  qed
qed

lemma serve_bounded: "states_bounded d \<Longrightarrow> states_bounded (serve rq d)"
  by (cases rq) (simp_all add: api_message_bounded processTextMessage_bounded)

lemma serve_all_bounded: "states_bounded d \<Longrightarrow> states_bounded (serve_all rqs d)"
  unfolding serve_all_def
  by (induction rqs arbitrary: d) (simp_all add: serve_bounded)

section \<open>Concrete inputs\<close>

definition ex_item_a :: cardapio_item where
  "ex_item_a = \<lparr>identificador = ''pizza-salgada_pizza-amazonas'', c_nome = ''Pizza Amazonas'',
     descricao = ''Tucupi e jambu'', disponivel = True, imagemGeral = ''amazonas.jpg'',
     imagemEsquerda = ''amazonas-esq.png'', imagemDireita = ''amazonas-dir.png''\<rparr>"

definition ex_item_b :: cardapio_item where
  "ex_item_b = \<lparr>identificador = ''pizza-doce_pizza-dolce-banana'', c_nome = ''Pizza Dolce Banana'',
     descricao = ''Banana e canela'', disponivel = True, imagemGeral = ''banana.jpg'',
     imagemEsquerda = ''banana-esq.png'', imagemDireita = ''banana-dir.png''\<rparr>"

definition ex_img :: "string \<Rightarrow> img option" where
  "ex_img url =
     (if url = ''banana-dir.png'' then Some \<lparr>img_src = url, img_width = 800, img_height = 600\<rparr>
      else if url = ''amazonas-esq.png'' then Some \<lparr>img_src = url, img_width = 400, img_height = 300\<rparr>
      else None)"

definition ex_pedido_sem_numero :: "int pedido_data" where
  "ex_pedido_sem_numero =
     \<lparr>items = Some [\<lparr>nome = ''Amazonas'', quantidade = Some 2, preco = Some 45\<rparr>,
                    \<lparr>nome = ''Dolce Banana'', quantidade = None, preco = Some 30\<rparr>],
      endereco = ''Rua Augusta'', pagamento = ''pix'', outros = [(''total'', ''1'')]\<rparr>"

definition ex_pedido :: "int pedido_data" where
  "ex_pedido = ex_pedido_sem_numero\<lparr>endereco := ''Rua Augusta, 1234''\<rparr>"

definition ex_json :: "string \<Rightarrow> int json option" where
  \<comment> \<open>a parser that knows two payloads\<close>
  "ex_json s =
     (if js_trim s = ''{pedido}'' then Some (JObject (Some ex_pedido) \<lparr>items = None, endereco = [], pagamento = [], outros = []\<rparr>)
      else if js_trim s = ''{sem numero}''
        then Some (JObject (Some ex_pedido_sem_numero) \<lparr>items = None, endereco = [], pagamento = [], outros = []\<rparr>)
      else None)"

definition ex_env :: "cardapio_item list \<Rightarrow> completion \<Rightarrow> int env" where
  "ex_env menu answer =
     \<lparr>json_parse = ex_json, toFixed2 = (\<lambda>x. ''0.00''), num_text = (\<lambda>x. ''1''),
      generateAudio = (\<lambda>s. ''/api/media/speech.mp3''),
      cardapio = menu, regexp_i = (\<lambda>p. None), modules_load = True, fetch_image = ex_img,
      toDataURL = (\<lambda>c. Some ''data:image/jpeg;base64,AAAA''),
      pedido_save_ok = (\<lambda>p. True), brasilapi = (\<lambda>c. None), chat_completion = answer,
      enriched_completion = ApiError, cached_botConfig = None, has_historia = False,
      has_cardapio = False, has_formasPagamento = False, botConfig_findOne = None\<rparr>"

definition ex_composite_id :: string where
  "ex_composite_id = ''pizza-salgada_pizza-amazonas+pizza-doce_pizza-dolce-banana''"

definition ex_conversa :: "nat \<Rightarrow> int conversa" where
  \<comment> \<open>a conversation in the given state, two messages old\<close>
  "ex_conversa st =
     \<lparr>cid = 0, telefone = ''5511999990000'', state = st,
      mensagens = [\<lparr>tipo = User, conteudo = ''quero uma pizza''\<rparr>,
                   \<lparr>tipo = Bot, conteudo = ''[TEXT_FORMAT]Qual sabor?[/END]''\<rparr>],
      addressData = None, pedidoData = None, pedidoData_modified = False,
      pedidoId = None\<rparr>"

definition ex_address :: address_data where
  "ex_address =
     \<lparr>formattedAddress = ''Rua Augusta, Consolacao, Sao Paulo - SP, 01305-000'',
      components = Some \<lparr>street = Text ''Rua Augusta'', neighborhood = Text ''Consolacao'',
                         city = Text ''Sao Paulo'', comp_state = Text ''SP'',
                         cep = Text ''01305-000''\<rparr>\<rparr>"

definition ex_db :: "int conversa \<Rightarrow> int db" where
  "ex_db c = \<lparr>conversas = [c], pedidos = []\<rparr>"

definition ex_confirmation :: string where
  "ex_confirmation = ''[CONFIRMATION_FORMAT]Pedido confirmado![/END]''"

definition ex_config :: bot_config where
  "ex_config =
     \<lparr>menuImage = ''menu.jpg'', menuImageCaption = [], confirmationImage = ''ok.jpg'',
      confirmationImageCaption = [], welcomeMessage = []\<rparr>"

definition ex_staged :: "int conversa" where
  \<comment> \<open>a conversation in state 6 with an order staged\<close>
  "ex_staged = (ex_conversa 6)\<lparr>pedidoData := Some ex_pedido\<rparr>"

definition ex_order :: "int pedido" where
  "ex_order =
     \<lparr>p_telefone = ''5511999990000'',
      itens = [\<lparr>nome = ''Amazonas'', quantidade = Some 2, preco = Some 45\<rparr>,
               \<lparr>nome = ''Dolce Banana'', quantidade = Some 1, preco = Some 30\<rparr>],
      valorTotal = Some 120, p_endereco = ''Rua Augusta, 1234'', formaPagamento = ''pix'',
      status = ''Confirmado''\<rparr>"

definition ex_committed :: "int conversa" where
  "ex_committed = ex_staged\<lparr>pedidoId := Some 0, state := 7\<rparr>"

definition ex_db_committed :: "int db" where
  "ex_db_committed = \<lparr>conversas = [ex_committed], pedidos = [ex_order]\<rparr>"

definition ex_confirmed :: "nat \<Rightarrow> response" where
  "ex_confirmed st =
     (reply ''Pedido confirmado!'' (Some st))\<lparr>resp_image := ''ok.jpg'',
        imageCaption := ''Pedido Confirmado''\<rparr>"

definition ex_sem_numero :: "int conversa" where
  \<comment> \<open>state 6, the staged address has no number, no address was resolved\<close>
  "ex_sem_numero = (ex_conversa 6)\<lparr>pedidoData := Some ex_pedido_sem_numero\<rparr>"

definition ex_sem_numero_com_cep :: "int conversa" where
  \<comment> \<open>the same with an address resolved from a postal code\<close>
  "ex_sem_numero_com_cep = ex_sem_numero\<lparr>addressData := Some ex_address\<rparr>"

definition ex_order_direct :: "int pedido" where
  \<comment> \<open>the order of \<^const>\<open>ex_pedido\<close> as the direct path writes it: the items as staged\<close>
  "ex_order_direct =
     \<lparr>p_telefone = ''5511999990000'',
      itens = [\<lparr>nome = ''Amazonas'', quantidade = Some 2, preco = Some 45\<rparr>,
               \<lparr>nome = ''Dolce Banana'', quantidade = None, preco = Some 30\<rparr>],
      valorTotal = Some 120, p_endereco = ''Rua Augusta, 1234'', formaPagamento = ''pix'',
      status = ''Confirmado''\<rparr>"

definition ex_two_orders :: string where
  "ex_two_orders = ''[JSON_FORMAT]{pedido}[/END][JSON_FORMAT]{sem numero}[/END]''"

definition ex_three_images :: string where
  "ex_three_images = ''[IMAGE_FORMAT]cardapio[/END][IMAGE_FORMAT] [/END]''
     @ ''[IMAGE_FORMAT]pizza-salgada_pizza-amazonas[/END]''"

definition ex_one_order :: string where
  "ex_one_order = ''[JSON_FORMAT]{pedido}[/END]''"

definition ex_troco :: string where
  "ex_troco = ''[TEXT_FORMAT]Vai precisar de troco?[/END]''"

definition ex_sem_historico :: "int conversa" where
  \<comment> \<open>a conversation in state 5 without any message\<close>
  "ex_sem_historico = (ex_conversa 5)\<lparr>mensagens := []\<rparr>"

definition ex_endereco4 :: "int conversa" where
  "ex_endereco4 = (ex_conversa 4)\<lparr>addressData := Some ex_address\<rparr>"

definition ex_cep_sem_rua :: "string \<Rightarrow> components option" where
  "ex_cep_sem_rua digits =
     (if digits = ''69900000'' then
        Some \<lparr>street = Undefined, neighborhood = Null, city = Text ''Rio Branco'',
              comp_state = Text ''AC'', cep = Text ''69900000''\<rparr>
      else None)"

definition ex_sem_numero_json :: string where
  "ex_sem_numero_json = ''[JSON_FORMAT]{sem numero}[/END]''"

definition ex_quantidade_zero :: "int conversa" where
  \<comment> \<open>state 6, the staged order has one item whose quantity is 0\<close>
  "ex_quantidade_zero =
     (ex_conversa 6)\<lparr>pedidoData :=
        Some \<lparr>items = Some [\<lparr>nome = ''Amazonas'', quantidade = Some 0, preco = Some 10\<rparr>],
              endereco = ''Rua Augusta, 1234'', pagamento = ''pix'', outros = []\<rparr>\<rparr>"

definition ex_order_zero :: "int pedido" where
  "ex_order_zero =
     \<lparr>p_telefone = ''5511999990000'',
      itens = [\<lparr>nome = ''Amazonas'', quantidade = Some 0, preco = Some 10\<rparr>],
      valorTotal = Some 10, p_endereco = ''Rua Augusta, 1234'', formaPagamento = ''pix'',
      status = ''Confirmado''\<rparr>"

section \<open>Claims about the image resolver\<close>





definition ex_item_b_sem_imagem :: cardapio_item where
  "ex_item_b_sem_imagem = ex_item_b\<lparr>imagemGeral := [], imagemEsquerda := [], imagemDireita := []\<rparr>"







text \<open>
  When the two half assets are there and the download fails, the image is B's right half
  and the caption is the plain one: \<^verbatim>\<open>overlayImages\<close> has caught the failure, and the
  caller's \<^verbatim>\<open>catch\<close> with \<^const>\<open>suffix_parcial\<close> is not reached.
\<close>

lemma overlay_failure_has_plain_caption:
  "resolve_first_image ((ex_env [ex_item_a, ex_item_b] ApiError)\<lparr>fetch_image := (\<lambda>u. None)\<rparr>) None
       ex_composite_id
     = Done (''banana-dir.png'', ''Pizza meio Amazonas e meio Dolce Banana'')"
  by code_simp

section \<open>C1: the commit is idempotent\<close>

text \<open>
  C1. Two successive calls of \<^verbatim>\<open>processTaggedResponse\<close> on the same model reply, the second
  on the conversation and the store that the first one left:

  \<^item> when the conversation already carries a \<^verbatim>\<open>pedidoId\<close>, a call writes no order; if the reply
    has a CONFIRMATION block, the response is a success with the text of that block and the
    configured confirmation image and caption, unless the reply also carries a JSON order
    whose address has no digit, which is answered first with the request for the number;
  \<^item> the two calls together write at most one order;
  \<^item> when the first call writes an order, it writes exactly one, the second call writes none,
    both responses are successes, and the second response is the first one with state 7,
    the text of the CONFIRMATION block and no audio; the texts are the same when the block is
    not empty, and the first response has no audio when the conversation was in state 6 or 7.
\<close>

theorem C1_idempotent_commit:
  assumes first: "processTaggedResponse env b u c cfg d = (r1, c1, d1)"
    and second: "processTaggedResponse env b u' c1 cfg d1 = (r2, c2, d2)"
  shows "(pedidoId c \<noteq> None \<longrightarrow>
            pedidos d1 = pedidos d
            \<and> (\<forall>t. first_block CONFIRMATION_FORMAT b = Some t \<longrightarrow>
                 (r1 = reply msg_need_number (Some 4)
                  \<and> (\<exists>pd. valid_payload env b = Some pd \<and> \<not> has_digit (endereco pd)))
                 \<or> (success r1 \<and> resp_text r1 = t
                    \<and> (\<forall>bc. cfg = Some bc \<and> confirmationImage bc \<noteq> [] \<longrightarrow>
                          resp_image r1 = confirmationImage bc
                          \<and> imageCaption r1 =
                              (if confirmationImageCaption bc \<noteq> []
                               then confirmationImageCaption bc else ''Pedido Confirmado'')))))
       \<and> length (pedidos d2) \<le> Suc (length (pedidos d))
       \<and> (pedidos d1 \<noteq> pedidos d \<longrightarrow>
            pedidos d2 = pedidos d1 \<and> (\<exists>p. pedidos d1 = pedidos d @ [p])
            \<and> success r1 \<and> success r2
            \<and> (\<exists>t. first_block CONFIRMATION_FORMAT b = Some t
                  \<and> r2 = r1\<lparr>resp_text := t, audio := [], resp_state := Some 7\<rparr>
                  \<and> (t \<noteq> [] \<longrightarrow> resp_text r1 = t)
                  \<and> (state c = 6 \<or> state c = 7 \<longrightarrow> audio r1 = [])))"
proof (intro conjI impI allI)
  assume pid: "pedidoId c \<noteq> None"
  from pTR_cases [OF first] pid show "pedidos d1 = pedidos d" by auto
next
  fix t
  assume pid: "pedidoId c \<noteq> None" and t: "first_block CONFIRMATION_FORMAT b = Some t"
  from pTR_guarded [OF first pid t]
  show "(r1 = reply msg_need_number (Some 4)
          \<and> (\<exists>pd. valid_payload env b = Some pd \<and> \<not> has_digit (endereco pd)))
        \<or> (success r1 \<and> resp_text r1 = t
            \<and> (\<forall>bc. cfg = Some bc \<and> confirmationImage bc \<noteq> [] \<longrightarrow>
                  resp_image r1 = confirmationImage bc
                  \<and> imageCaption r1 =
                      (if confirmationImageCaption bc \<noteq> []
                       then confirmationImageCaption bc else ''Pedido Confirmado'')))"
  proof
    assume "r1 = reply msg_need_number (Some 4)
          \<and> (\<exists>pd. valid_payload env b = Some pd \<and> \<not> has_digit (endereco pd))"
    then show ?thesis by (rule disjI1)
  next
    assume "r1 = with_confirmation_image cfg ((rimg env b (state c) cfg)\<lparr>resp_text := t\<rparr>)
          \<and> (\<forall>x. json_step env b c d (rimg env b (state c) cfg) \<noteq> Return x)"
    then have
      r1: "r1 = with_confirmation_image cfg ((rimg env b (state c) cfg)\<lparr>resp_text := t\<rparr>)"
      by (rule conjunct1)
    have "success r1" by (simp add: r1 rimg_success)
    moreover have "resp_text r1 = t" by (simp add: r1)
    moreover have "resp_image r1 = confirmationImage bc
        \<and> imageCaption r1 = (if confirmationImageCaption bc \<noteq> []
                             then confirmationImageCaption bc else ''Pedido Confirmado'')"
      if "cfg = Some bc \<and> confirmationImage bc \<noteq> []" for bc
      using that by (simp add: r1 with_confirmation_image_def)
    ultimately show ?thesis by blast
  qed
next
  from pTR_cases [OF first] pTR_cases [OF second]
  show "length (pedidos d2) \<le> Suc (length (pedidos d))" by auto
next
  assume ch: "pedidos d1 \<noteq> pedidos d"
  with pTR_cases [OF first] obtain t novo r3 where
    t: "first_block CONFIRMATION_FORMAT b = Some t"
    and d1: "pedidos d1 = pedidos d @ [novo]"
    and pid1: "pedidoId c1 = Some (length (pedidos d))"
    and st1: "state c1 = 7"
    and r3: "r3 = (rimg env b (state c) cfg)\<lparr>resp_text := resp_text r3\<rparr>"
    and r1: "r1 = final_step b (with_confirmation_image cfg (r3\<lparr>resp_text := t\<rparr>))"
    and nr: "\<forall>x. json_step env b c d (rimg env b (state c) cfg) \<noteq> Return x"
    by auto
  from pid1 have pid1': "pedidoId c1 \<noteq> None" by simp
  from pTR_cases [OF second] pid1' have d2: "pedidos d2 = pedidos d1" by auto
  have nvp: "\<not> (\<exists>pd. valid_payload env b = Some pd \<and> \<not> has_digit (endereco pd))"
  proof
    assume "\<exists>pd. valid_payload env b = Some pd \<and> \<not> has_digit (endereco pd)"
    then have "\<exists>x. json_step env b c d (rimg env b (state c) cfg) = Return x"
      by (auto simp: json_step_def)
    with nr show False by blast
  qed
  from pTR_guarded [OF second pid1' t] nvp st1 have
    r2: "r2 = with_confirmation_image cfg ((rimg env b 7 cfg)\<lparr>resp_text := t\<rparr>)"
    by auto
  let ?canon = "(image_step env b 0 cfg (new_response 0 b))\<lparr>resp_text := t, audio := [], resp_state := Some 7\<rparr>"
  have r3t: "r3\<lparr>resp_text := t\<rparr> = (rimg env b (state c) cfg)\<lparr>resp_text := t\<rparr>"
    by (subst r3) simp
  have s1: "success r1" by (simp add: r1 r3t rimg_success)
  have s2: "success r2" by (simp add: r2 rimg_success)
  have "r1\<lparr>resp_text := t\<rparr> = with_confirmation_image cfg ((rimg env b (state c) cfg)\<lparr>resp_text := t\<rparr>)"
    by (simp add: r1 final_step_erase r3t with_confirmation_image_upd [symmetric])
  then have "r1\<lparr>resp_text := t\<rparr>\<lparr>audio := [], resp_state := Some 7\<rparr>
      = (with_confirmation_image cfg ((rimg env b (state c) cfg)\<lparr>resp_text := t\<rparr>))\<lparr>audio := [], resp_state := Some 7\<rparr>"
    by (rule arg_cong)
  also have "\<dots> = with_confirmation_image cfg ((rimg env b (state c) cfg)\<lparr>resp_text := t, audio := [], resp_state := Some 7\<rparr>)"
    by (simp only: with_confirmation_image_upd)
  also have "\<dots> = with_confirmation_image cfg ?canon" by (simp only: rimg_canon)
  finally have e1: "r1\<lparr>resp_text := t\<rparr>\<lparr>audio := [], resp_state := Some 7\<rparr> = with_confirmation_image cfg ?canon" .
  have "audio r2 = []" "resp_state r2 = Some 7"
    by (simp_all add: r2 rimg_audio_67 rimg_state)
  then have "r2 = r2\<lparr>audio := [], resp_state := Some 7\<rparr>" by (rule response_fix)
  also have "\<dots> = (with_confirmation_image cfg ((rimg env b 7 cfg)\<lparr>resp_text := t\<rparr>))\<lparr>audio := [], resp_state := Some 7\<rparr>"
    by (simp add: r2)
  also have "\<dots> = with_confirmation_image cfg ((rimg env b 7 cfg)\<lparr>resp_text := t, audio := [], resp_state := Some 7\<rparr>)"
    by (simp only: with_confirmation_image_upd)
  also have "\<dots> = with_confirmation_image cfg ?canon" by (simp only: rimg_canon)
  finally have e2: "r2 = with_confirmation_image cfg ?canon" .
  from e1 e2 have eq: "r2 = r1\<lparr>resp_text := t, audio := [], resp_state := Some 7\<rparr>" by simp
  have tt: "resp_text r1 = t" if "t \<noteq> []"
    using that by (simp add: r1 final_step_text)
  have au: "audio r1 = []" if "state c = 6 \<or> state c = 7"
    using that by (simp add: r1 r3t rimg_audio_67)
  show "pedidos d2 = pedidos d1" by (rule d2)
  show "\<exists>p. pedidos d1 = pedidos d @ [p]" using d1 by blast
  show "success r1" by (rule s1)
  show "success r2" by (rule s2)
  show "\<exists>t. first_block CONFIRMATION_FORMAT b = Some t
          \<and> r2 = r1\<lparr>resp_text := t, audio := [], resp_state := Some 7\<rparr>
          \<and> (t \<noteq> [] \<longrightarrow> resp_text r1 = t)
          \<and> (state c = 6 \<or> state c = 7 \<longrightarrow> audio r1 = [])"
    using t eq tt au by blast
qed

theorem C1_idempotent_commit_witness:
  "processTaggedResponse (ex_env [] ApiError) ex_confirmation ''sim'' ex_staged (Some ex_config)
       (ex_db ex_staged)
     = (ex_confirmed 6, ex_committed, ex_db_committed)
   \<and> processTaggedResponse (ex_env [] ApiError) ex_confirmation ''sim'' ex_committed
         (Some ex_config) ex_db_committed
     = (ex_confirmed 7, ex_committed, ex_db_committed)
   \<and> pedidos ex_db_committed \<noteq> pedidos (ex_db ex_staged)
   \<and> pedidoId ex_committed \<noteq> None
   \<and> ex_confirmed 7
     = (ex_confirmed 6)\<lparr>resp_text := ''Pedido confirmado!'', audio := [], resp_state := Some 7\<rparr>
   \<and> resp_image (ex_confirmed 7) = ''ok.jpg''
   \<and> imageCaption (ex_confirmed 7) = ''Pedido Confirmado''"
proof -
  have h1: "processTaggedResponse (ex_env [] ApiError) ex_confirmation ''sim'' ex_staged
       (Some ex_config) (ex_db ex_staged)
     = (ex_confirmed 6, ex_committed, ex_db_committed)"
    by code_simp
  have h2: "processTaggedResponse (ex_env [] ApiError) ex_confirmation ''sim'' ex_committed
         (Some ex_config) ex_db_committed
     = (ex_confirmed 7, ex_committed, ex_db_committed)"
    by code_simp
  have ch: "pedidos ex_db_committed \<noteq> pedidos (ex_db ex_staged)"
    by code_simp
  have pid: "pedidoId ex_committed \<noteq> None"
    by code_simp
  have t: "first_block CONFIRMATION_FORMAT ex_confirmation = Some ''Pedido confirmado!''"
    by code_simp
  have v: "valid_payload (ex_env [] ApiError) ex_confirmation = None"
    by code_simp
  have c: "confirmationImage ex_config = ''ok.jpg''" "confirmationImageCaption ex_config = []"
    by (simp_all add: ex_config_def)
  from C1_idempotent_commit [OF h1 h2] ch t
  have same: "ex_confirmed 7
     = (ex_confirmed 6)\<lparr>resp_text := ''Pedido confirmado!'', audio := [], resp_state := Some 7\<rparr>"
    by simp
  from C1_idempotent_commit [OF h2 h2] pid t v c
  have img: "resp_image (ex_confirmed 7) = ''ok.jpg''
      \<and> imageCaption (ex_confirmed 7) = ''Pedido Confirmado''"
    by simp
  from h1 h2 ch pid same img show ?thesis by (intro conjI) simp_all
qed

text \<open>
  C1 as the specification states it promises the confirmation text and image whenever the
  conversation has a \<^verbatim>\<open>pedidoId\<close> and the reply has a CONFIRMATION block. A reply that also
  carries a JSON order with an address without a number is answered with the request for the
  number, and the conversation goes from state 7 to state 4.
\<close>

theorem C1_counterexample:
  "pedidoId ex_committed \<noteq> None
   \<and> first_block CONFIRMATION_FORMAT
         (''[JSON_FORMAT]{sem numero}[/END]'' @ ex_confirmation) = Some ''Pedido confirmado!''
   \<and> processTaggedResponse (ex_env [] ApiError)
         (''[JSON_FORMAT]{sem numero}[/END]'' @ ex_confirmation) ''sim'' ex_committed
         (Some ex_config) ex_db_committed
     = (reply msg_need_number (Some 4), ex_committed\<lparr>state := 4\<rparr>,
        ex_db_committed\<lparr>conversas := [ex_committed\<lparr>state := 4\<rparr>]\<rparr>)"
  by code_simp

section \<open>C9: the total of an order\<close>

text \<open>
  C9. Whatever a request to \<^verbatim>\<open>/api/message\<close> or a text message of the WhatsApp client
  does to the orders, it writes at most one, and the \<^verbatim>\<open>valorTotal\<close> of the order written is
  the sum, over the items of that order, of the price times the quantity that the item
  holds (1 when it holds none), provided no item of the order holds the quantity 0. An
  order that \<^verbatim>\<open>processTaggedResponse\<close> writes satisfies the equation without that
  proviso: its items hold the quantity of the staged item, or 1 when that one is absent or
  0. The total is computed at the commit from the items alone: no other key of the payload
  of the model enters it, and the order has no field that holds one.
\<close>

theorem C9_total_computed:
  assumes "api_message env phone message isAudio stale d = (r, d', logs)
           \<or> processTextMessage env phone message stale d = (sent, d', logs)"
  shows "(pedidos d' = pedidos d
          \<or> (\<exists>p. pedidos d' = pedidos d @ [p]
                \<and> ((\<forall>it \<in> set (itens p). quantidade it \<noteq> Some 0)
                     \<longrightarrow> valorTotal p = sum_price_quantity (itens p))))
       \<and> (processTaggedResponse env b u c cfg d0 = (r1, c1, d1)
            \<longrightarrow> pedidos d1 = pedidos d0
                \<or> (\<exists>p. pedidos d1 = pedidos d0 @ [p]
                      \<and> valorTotal p = sum_price_quantity (itens p)))
       \<and> (checked_order env c spd = Some novo
            \<longrightarrow> (\<exists>its. items spd = Some its
                   \<and> itens novo
                       = map (\<lambda>it. \<lparr>nome = nome it,
                                     quantidade =
                                       Some (case quantidade it of
                                               None \<Rightarrow> 1
                                             | Some q \<Rightarrow> if q = 0 then 1 else q),
                                     preco = preco it\<rparr>) its))
       \<and> checked_order env c (spd\<lparr>outros := x\<rparr>) = checked_order env c spd"
proof -
  have turn: "pedidos d' = pedidos d
          \<or> (\<exists>p. pedidos d' = pedidos d @ [p]
                \<and> ((\<forall>it \<in> set (itens p). quantidade it \<noteq> Some 0)
                     \<longrightarrow> valorTotal p = sum_price_quantity (itens p)))"
    using assms
  proof
    assume "api_message env phone message isAudio stale d = (r, d', logs)"
    then obtain c d1 where g: "getOrCreateConversation phone message stale d = (c, d1)"
      and p: "processMessageInternally env phone message isAudio c d1 = (r, d', logs)"
      by (auto simp: api_message_def split: prod.splits)
    from processMessageInternally_orders [OF p] getOrCreateConversation_pedidos [OF g]
    show ?thesis by simp
  next
    assume a: "processTextMessage env phone message stale d = (sent, d', logs)"
    show ?thesis
    proof (cases "handleAudioRequest env phone message d")
      case (Some s)
      with a show ?thesis by (simp add: processTextMessage_def)
    next
      case None
      obtain c d1 where g: "getOrCreateConversation phone message stale d = (c, d1)"
        by (cases "getOrCreateConversation phone message stale d")
      note d1 = getOrCreateConversation_pedidos [OF g]
      show ?thesis
      proof (cases "is_reset message")
        case True
        with a None g obtain s where "handleResetRequest env phone d1 = (s, d')"
          by (auto simp: processTextMessage_def split: prod.splits)
        from handleResetRequest_orders [OF this] d1 show ?thesis by auto
      next
        case False
        with a None g obtain r' where
          "processMessageInternally env phone message False c d1 = (r', d', logs)"
          by (auto simp: processTextMessage_def split: prod.splits)
        from processMessageInternally_orders [OF this] d1 show ?thesis by simp
      qed
    qed
  qed
  have tagged: "processTaggedResponse env b u c cfg d0 = (r1, c1, d1)
            \<longrightarrow> pedidos d1 = pedidos d0
                \<or> (\<exists>p. pedidos d1 = pedidos d0 @ [p]
                      \<and> valorTotal p = sum_price_quantity (itens p))"
    using pTR_orders [of env b u c cfg d0 r1 c1 d1] by blast
  have stored: "checked_order env c spd = Some novo
            \<longrightarrow> (\<exists>its. items spd = Some its
                   \<and> itens novo
                       = map (\<lambda>it. \<lparr>nome = nome it,
                                     quantidade =
                                       Some (case quantidade it of
                                               None \<Rightarrow> 1
                                             | Some q \<Rightarrow> if q = 0 then 1 else q),
                                     preco = preco it\<rparr>) its)"
    using checked_order_itens [of env c spd novo] by (simp add: qty_def)
  have outros: "checked_order env c (spd\<lparr>outros := x\<rparr>) = checked_order env c spd"
    by (rule checked_order_ignores_outros)
  from turn tagged stored outros show ?thesis by (intro conjI)
qed

theorem C9_total_computed_witness:
  "pedidos (fst (snd (api_message (ex_env [] ApiError) ''5511999990000'' ''sim'' False False
                        (ex_db ex_staged)))) = [ex_order_direct]
   \<and> valorTotal ex_order_direct = sum_price_quantity (itens ex_order_direct)
   \<and> pedidos (fst (snd (processTextMessage
                           (ex_env [] (Content ex_confirmation)) ''5511999990000'' ''confirmo''
                           False (ex_db ex_staged)))) = [ex_order]
   \<and> valorTotal ex_order = sum_price_quantity (itens ex_order)
   \<and> sum_price_quantity (itens ex_order) = Some 120
   \<and> checked_order (ex_env [] ApiError) ex_staged ex_pedido = Some ex_order
   \<and> map quantidade (itens ex_order) = [Some 2, Some 1]
   \<and> map quantidade (the (items ex_pedido)) = [Some 2, None]"
proof -
  let ?x = "api_message (ex_env [] ApiError) ''5511999990000'' ''sim'' False False
              (ex_db ex_staged)"
  let ?y = "processTextMessage (ex_env [] (Content ex_confirmation)) ''5511999990000''
              ''confirmo'' False (ex_db ex_staged)"
  have d: "pedidos (ex_db ex_staged) = []"
    by code_simp
  have x: "pedidos (fst (snd ?x)) = [ex_order_direct]"
    by code_simp
  have q: "\<forall>it \<in> set (itens ex_order_direct). quantidade it \<noteq> Some 0"
    by code_simp
  have y: "pedidos (fst (snd ?y)) = [ex_order]"
    by code_simp
  have q': "\<forall>it \<in> set (itens ex_order). quantidade it \<noteq> Some 0"
    by code_simp
  have n: "sum_price_quantity (itens ex_order) = Some 120"
    by code_simp
  have "?x = (fst ?x, fst (snd ?x), snd (snd ?x))
        \<or> processTextMessage (ex_env [] ApiError) ''5511999990000'' ''sim'' False
             (ex_db ex_staged) = ([], fst (snd ?x), snd (snd ?x))"
    by simp
  from C9_total_computed [OF this, THEN conjunct1] x d q
  have 1: "valorTotal ex_order_direct = sum_price_quantity (itens ex_order_direct)"
    by simp
  have "api_message (ex_env [] (Content ex_confirmation)) ''5511999990000'' ''confirmo'' False
          False (ex_db ex_staged) = (reply [] None, fst (snd ?y), snd (snd ?y))
        \<or> ?y = (fst ?y, fst (snd ?y), snd (snd ?y))"
    by simp
  from C9_total_computed [OF this, THEN conjunct1] y d q'
  have 2: "valorTotal ex_order = sum_price_quantity (itens ex_order)"
    by simp
  have k: "checked_order (ex_env [] ApiError) ex_staged ex_pedido = Some ex_order"
    by code_simp
  have i: "items ex_pedido
      = Some [\<lparr>nome = ''Amazonas'', quantidade = Some 2, preco = Some 45\<rparr>,
              \<lparr>nome = ''Dolce Banana'', quantidade = None, preco = Some 30\<rparr>]"
    by (simp add: ex_pedido_def ex_pedido_sem_numero_def)
  have "processTextMessage (ex_env [] ApiError) ''5511999990000'' ''sim'' False
          (ex_db ex_staged)
        = (fst (processTextMessage (ex_env [] ApiError) ''5511999990000'' ''sim'' False
                  (ex_db ex_staged)),
           fst (snd (processTextMessage (ex_env [] ApiError) ''5511999990000'' ''sim'' False
                       (ex_db ex_staged))),
           snd (snd (processTextMessage (ex_env [] ApiError) ''5511999990000'' ''sim'' False
                       (ex_db ex_staged))))"
    by simp
  from C9_total_computed [OF disjI2 [OF this], THEN conjunct2, THEN conjunct2, THEN conjunct1,
      THEN mp, OF k] i
  have 3: "map quantidade (itens ex_order) = [Some 2, Some 1]"
    by auto
  have 4: "map quantidade (the (items ex_pedido)) = [Some 2, None]"
    by (simp add: i)
  from x 1 y 2 n k 3 4 show ?thesis by (intro conjI)
qed

text \<open>
  The proviso is needed on the path of lines 2349--2497. In state 6 the customer answers
  \<open>sim\<close>; the staged order has one item of price 10 and quantity 0. The order is written
  with the item as staged, quantity 0, and with the total 10, where the sum of the prices
  times the quantities is 0. For the same staged order \<^verbatim>\<open>processTaggedResponse\<close> writes the
  item with the quantity 1 and the total 10.
\<close>

lemma direct_commit_counts_quantity_zero_once:
  "pedidos (fst (snd (api_message (ex_env [] ApiError) ''5511999990000'' ''sim'' False False
                        (ex_db ex_quantidade_zero)))) = [ex_order_zero]
   \<and> map quantidade (itens ex_order_zero) = [Some 0]
   \<and> valorTotal ex_order_zero = Some 10
   \<and> sum_price_quantity (itens ex_order_zero) = Some 0
   \<and> pedidos (fst (snd (processTextMessage (ex_env [] (Content ex_confirmation))
                           ''5511999990000'' ''confirmo'' False (ex_db ex_quantidade_zero))))
     = [ex_order_zero\<lparr>itens := [\<lparr>nome = ''Amazonas'', quantidade = Some 1, preco = Some 10\<rparr>]\<rparr>]"
  by code_simp

section \<open>C3: an address without a number\<close>

text \<open>
  C3. When the first JSON block of a reply parses to an order with an \<^verbatim>\<open>items\<close> array, an
  address and a payment method, and the address has no digit, \<^verbatim>\<open>processTaggedResponse\<close>
  answers with the request for the number, sets the state to 4, saves the conversation and
  writes no order; \<^verbatim>\<open>extractPedidoData\<close> rejects the payload. On the path of a turn through
  the model, when the answer as it goes on carries such a payload, the response of the turn
  is that request in state 4, the stored conversation is in state 4 and no order is
  written. When the reply has a CONFIRMATION block and no such JSON order, the conversation
  has no \<^verbatim>\<open>pedidoId\<close> and the staged address has no digit: if the resolved address of the
  conversation, if there is one, has no digit either, the state becomes 4, the response
  asks for a complete address and no order is written; if the resolved address has a digit,
  it takes the place of the staged one, and either the order is written with that address
  and the state becomes 7 (the staged order has an \<^verbatim>\<open>items\<close> array, every price is a number
  and the write succeeds), or no order is written, the state stays and the response tells
  of a problem.
\<close>

theorem C3_address_without_number:
  "(valid_payload env b = Some pd \<and> \<not> has_digit (endereco pd) \<longrightarrow>
      processTaggedResponse env b u c cfg d
        = (reply msg_need_number (Some 4), after_save (c\<lparr>state := 4\<rparr>),
           save_conversa (c\<lparr>state := 4\<rparr>) d)
      \<and> pedidos (save_conversa (c\<lparr>state := 4\<rparr>) d) = pedidos d
      \<and> extractPedidoData env b = None
      \<and> stage_extracted env b c d = (c, d))
   \<and> (userPhone \<noteq> [] \<and> \<not> is_reset message
      \<and> prelude env message isAudio conversa d = (c2, d1)
      \<and> state4_number message c2 d1 = None \<and> state5_payment message c2 d1 = None
      \<and> state6_confirm env message c2 d1 = None \<and> image_request env message c2 d1 = None
      \<and> llm_stage env c2 d1 = (b, c3, d3)
      \<and> valid_payload env b = Some pd \<and> \<not> has_digit (endereco pd) \<longrightarrow>
      fst (processMessageInternally env userPhone message isAudio conversa d)
        = reply msg_need_number (Some 4)
      \<and> pedidos (fst (snd (processMessageInternally env userPhone message isAudio conversa d)))
          = pedidos d
      \<and> map_option state
            (find (\<lambda>x. cid x = cid conversa)
               (conversas
                  (fst (snd (processMessageInternally env userPhone message isAudio
                               conversa d)))))
          = Some 4)
   \<and> (first_block CONFIRMATION_FORMAT b = Some t \<and> valid_payload env b = None
      \<and> pedidoId c = None \<and> pedidoData c = Some saved \<and> \<not> has_digit (endereco saved)
      \<and> (\<forall>ad. addressData c = Some ad \<longrightarrow> \<not> has_digit (formattedAddress ad)) \<longrightarrow>
      (\<exists>r. processTaggedResponse env b u c cfg d
              = (r, after_save (c\<lparr>state := 4\<rparr>), save_conversa (c\<lparr>state := 4\<rparr>) d)
           \<and> success r \<and> resp_text r = msg_address_incomplete)
      \<and> pedidos (save_conversa (c\<lparr>state := 4\<rparr>) d) = pedidos d)
   \<and> (first_block CONFIRMATION_FORMAT b = Some t \<and> valid_payload env b = None
      \<and> pedidoId c = None \<and> pedidoData c = Some saved \<and> \<not> has_digit (endereco saved)
      \<and> addressData c = Some ad \<and> has_digit (formattedAddress ad) \<longrightarrow>
      (checked_order env (c\<lparr>pedidoData := Some (saved\<lparr>endereco := formattedAddress ad\<rparr>)\<rparr>)
         (saved\<lparr>endereco := formattedAddress ad\<rparr>) = Some novo \<longrightarrow>
         pedidos (snd (snd (processTaggedResponse env b u c cfg d))) = pedidos d @ [novo]
         \<and> p_endereco novo = formattedAddress ad
         \<and> state (fst (snd (processTaggedResponse env b u c cfg d))) = 7
         \<and> pedidoId (fst (snd (processTaggedResponse env b u c cfg d)))
             = Some (length (pedidos d)))
      \<and> (checked_order env (c\<lparr>pedidoData := Some (saved\<lparr>endereco := formattedAddress ad\<rparr>)\<rparr>)
           (saved\<lparr>endereco := formattedAddress ad\<rparr>) = None \<longrightarrow>
           snd (snd (processTaggedResponse env b u c cfg d)) = d
           \<and> state (fst (snd (processTaggedResponse env b u c cfg d))) = state c
           \<and> pedidoId (fst (snd (processTaggedResponse env b u c cfg d))) = None
           \<and> resp_text (fst (processTaggedResponse env b u c cfg d)) = msg_confirm_problem))"
proof -
  have need: "processTaggedResponse env b u c cfg d
        = (reply msg_need_number (Some 4), after_save (c\<lparr>state := 4\<rparr>),
           save_conversa (c\<lparr>state := 4\<rparr>) d)"
    if "valid_payload env b = Some pd" and "\<not> has_digit (endereco pd)"
    for c :: "'a conversa" and u cfg d
    using that by (simp add: pTR_alt json_step_def reply_def)
  have 1: "valid_payload env b = Some pd \<and> \<not> has_digit (endereco pd) \<longrightarrow>
      processTaggedResponse env b u c cfg d
        = (reply msg_need_number (Some 4), after_save (c\<lparr>state := 4\<rparr>),
           save_conversa (c\<lparr>state := 4\<rparr>) d)
      \<and> pedidos (save_conversa (c\<lparr>state := 4\<rparr>) d) = pedidos d
      \<and> extractPedidoData env b = None
      \<and> stage_extracted env b c d = (c, d)"
  proof (intro impI conjI)
    assume a: "valid_payload env b = Some pd \<and> \<not> has_digit (endereco pd)"
    then show "processTaggedResponse env b u c cfg d
        = (reply msg_need_number (Some 4), after_save (c\<lparr>state := 4\<rparr>),
           save_conversa (c\<lparr>state := 4\<rparr>) d)"
      by (intro need) simp_all
    show "pedidos (save_conversa (c\<lparr>state := 4\<rparr>) d) = pedidos d" by simp
    from a show e: "extractPedidoData env b = None" by (simp add: extract_of_valid)
    then show "stage_extracted env b c d = (c, d)" by (simp add: stage_extracted_def)
  qed
  have 2: "userPhone \<noteq> [] \<and> \<not> is_reset message
      \<and> prelude env message isAudio conversa d = (c2, d1)
      \<and> state4_number message c2 d1 = None \<and> state5_payment message c2 d1 = None
      \<and> state6_confirm env message c2 d1 = None \<and> image_request env message c2 d1 = None
      \<and> llm_stage env c2 d1 = (b, c3, d3)
      \<and> valid_payload env b = Some pd \<and> \<not> has_digit (endereco pd) \<longrightarrow>
      fst (processMessageInternally env userPhone message isAudio conversa d)
        = reply msg_need_number (Some 4)
      \<and> pedidos (fst (snd (processMessageInternally env userPhone message isAudio conversa d)))
          = pedidos d
      \<and> map_option state
            (find (\<lambda>x. cid x = cid conversa)
               (conversas
                  (fst (snd (processMessageInternally env userPhone message isAudio
                               conversa d)))))
          = Some 4"
  proof (intro impI)
    assume h: "userPhone \<noteq> [] \<and> \<not> is_reset message
      \<and> prelude env message isAudio conversa d = (c2, d1)
      \<and> state4_number message c2 d1 = None \<and> state5_payment message c2 d1 = None
      \<and> state6_confirm env message c2 d1 = None \<and> image_request env message c2 d1 = None
      \<and> llm_stage env c2 d1 = (b, c3, d3)
      \<and> valid_payload env b = Some pd \<and> \<not> has_digit (endereco pd)"
    obtain c4 logs where adv: "advance_state b message (push_msg Bot b c3) = (c4, logs)"
      by (cases "advance_state b message (push_msg Bot b c3)")
    from h have pre: "prelude env message isAudio conversa d = (c2, d1)"
      and l: "llm_stage env c2 d1 = (b, c3, d3)" by simp_all
    let ?c = "(after_save c4)\<lparr>state := 4\<rparr>"
    from h have "processTaggedResponse env b message (after_save c4) (cached_botConfig env)
          (save_conversa c4 d3)
        = (reply msg_need_number (Some 4), after_save ?c, save_conversa ?c (save_conversa c4 d3))"
      by (intro need) simp_all
    with processMessageInternally_model_path [OF _ _ pre _ _ _ _ l adv] h
    have pmi: "processMessageInternally env userPhone message isAudio conversa d
        = (reply msg_need_number (Some 4), save_conversa ?c (save_conversa c4 d3), logs)"
      by simp
    have "cid ?c = cid conversa"
      using prelude_cid [OF pre] llm_stage_cid [OF l] advance_state_cid [OF adv]
      by (simp add: push_msg_def)
    with save_conversa_state [of ?c "save_conversa c4 d3"]
    have st: "map_option state
        (find (\<lambda>x. cid x = cid conversa) (conversas (save_conversa ?c (save_conversa c4 d3))))
        = Some 4"
      by simp
    have "pedidos (save_conversa ?c (save_conversa c4 d3)) = pedidos d"
      using prelude_pedidos [OF pre] llm_stage_pedidos [OF l] by simp
    with pmi st show "fst (processMessageInternally env userPhone message isAudio conversa d)
        = reply msg_need_number (Some 4)
      \<and> pedidos (fst (snd (processMessageInternally env userPhone message isAudio conversa d)))
          = pedidos d
      \<and> map_option state
            (find (\<lambda>x. cid x = cid conversa)
               (conversas
                  (fst (snd (processMessageInternally env userPhone message isAudio
                               conversa d)))))
          = Some 4"
      by simp
  qed
  have 3: "first_block CONFIRMATION_FORMAT b = Some t \<and> valid_payload env b = None
      \<and> pedidoId c = None \<and> pedidoData c = Some saved \<and> \<not> has_digit (endereco saved)
      \<and> (\<forall>ad. addressData c = Some ad \<longrightarrow> \<not> has_digit (formattedAddress ad)) \<longrightarrow>
      (\<exists>r. processTaggedResponse env b u c cfg d
              = (r, after_save (c\<lparr>state := 4\<rparr>), save_conversa (c\<lparr>state := 4\<rparr>) d)
           \<and> success r \<and> resp_text r = msg_address_incomplete)
      \<and> pedidos (save_conversa (c\<lparr>state := 4\<rparr>) d) = pedidos d"
  proof (intro impI conjI)
    assume a: "first_block CONFIRMATION_FORMAT b = Some t \<and> valid_payload env b = None
      \<and> pedidoId c = None \<and> pedidoData c = Some saved \<and> \<not> has_digit (endereco saved)
      \<and> (\<forall>ad. addressData c = Some ad \<longrightarrow> \<not> has_digit (formattedAddress ad))"
    then have rp: "recovered_pedido c saved = None" by (simp add: recovered_pedido_None)
    let ?r = "(rimg env b (state c) cfg)\<lparr>resp_text := msg_address_incomplete\<rparr>"
    from a rp have "processTaggedResponse env b u c cfg d
        = (?r, after_save (c\<lparr>state := 4\<rparr>), save_conversa (c\<lparr>state := 4\<rparr>) d)"
      by (simp add: pTR_alt json_step_def confirmation_step_def)
    moreover have "success ?r" by (simp add: rimg_success)
    moreover have "resp_text ?r = msg_address_incomplete" by simp
    ultimately show "\<exists>r. processTaggedResponse env b u c cfg d
              = (r, after_save (c\<lparr>state := 4\<rparr>), save_conversa (c\<lparr>state := 4\<rparr>) d)
           \<and> success r \<and> resp_text r = msg_address_incomplete"
      by blast
    show "pedidos (save_conversa (c\<lparr>state := 4\<rparr>) d) = pedidos d" by simp
  qed
  let ?spd = "saved\<lparr>endereco := formattedAddress ad\<rparr>"
  have 4: "first_block CONFIRMATION_FORMAT b = Some t \<and> valid_payload env b = None
      \<and> pedidoId c = None \<and> pedidoData c = Some saved \<and> \<not> has_digit (endereco saved)
      \<and> addressData c = Some ad \<and> has_digit (formattedAddress ad) \<longrightarrow>
      (checked_order env (c\<lparr>pedidoData := Some ?spd\<rparr>) ?spd = Some novo \<longrightarrow>
         pedidos (snd (snd (processTaggedResponse env b u c cfg d))) = pedidos d @ [novo]
         \<and> p_endereco novo = formattedAddress ad
         \<and> state (fst (snd (processTaggedResponse env b u c cfg d))) = 7
         \<and> pedidoId (fst (snd (processTaggedResponse env b u c cfg d)))
             = Some (length (pedidos d)))
      \<and> (checked_order env (c\<lparr>pedidoData := Some ?spd\<rparr>) ?spd = None \<longrightarrow>
           snd (snd (processTaggedResponse env b u c cfg d)) = d
           \<and> state (fst (snd (processTaggedResponse env b u c cfg d))) = state c
           \<and> pedidoId (fst (snd (processTaggedResponse env b u c cfg d))) = None
           \<and> resp_text (fst (processTaggedResponse env b u c cfg d)) = msg_confirm_problem)"
  proof (intro impI)
    assume a: "first_block CONFIRMATION_FORMAT b = Some t \<and> valid_payload env b = None
      \<and> pedidoId c = None \<and> pedidoData c = Some saved \<and> \<not> has_digit (endereco saved)
      \<and> addressData c = Some ad \<and> has_digit (formattedAddress ad)"
    then have ne: "formattedAddress ad \<noteq> []" by (auto simp: has_digit_def)
    with a have rp: "recovered_pedido c saved = Some ?spd"
      by (simp add: recovered_pedido_def)
    have js: "json_step env b c d r = Continue (r, c, d)" for r
      using a by (simp add: json_step_def)
    have np: "msg_confirm_problem \<noteq> []" by (simp add: msg_confirm_problem_def)
    show "(checked_order env (c\<lparr>pedidoData := Some ?spd\<rparr>) ?spd = Some novo \<longrightarrow>
         pedidos (snd (snd (processTaggedResponse env b u c cfg d))) = pedidos d @ [novo]
         \<and> p_endereco novo = formattedAddress ad
         \<and> state (fst (snd (processTaggedResponse env b u c cfg d))) = 7
         \<and> pedidoId (fst (snd (processTaggedResponse env b u c cfg d)))
             = Some (length (pedidos d)))
      \<and> (checked_order env (c\<lparr>pedidoData := Some ?spd\<rparr>) ?spd = None \<longrightarrow>
           snd (snd (processTaggedResponse env b u c cfg d)) = d
           \<and> state (fst (snd (processTaggedResponse env b u c cfg d))) = state c
           \<and> pedidoId (fst (snd (processTaggedResponse env b u c cfg d))) = None
           \<and> resp_text (fst (processTaggedResponse env b u c cfg d)) = msg_confirm_problem)"
    proof (intro conjI impI)
      assume k: "checked_order env (c\<lparr>pedidoData := Some ?spd\<rparr>) ?spd = Some novo"
      from a rp k have p: "snd (processTaggedResponse env b u c cfg d)
          = (after_save (c\<lparr>pedidoData := Some ?spd, pedidoId := Some (length (pedidos d)),
                            state := 7\<rparr>),
             save_conversa (c\<lparr>pedidoData := Some ?spd, pedidoId := Some (length (pedidos d)),
                              state := 7\<rparr>) (d\<lparr>pedidos := pedidos d @ [novo]\<rparr>))"
        by (simp add: pTR_alt js confirmation_step_def Let_def)
      show "pedidos (snd (snd (processTaggedResponse env b u c cfg d))) = pedidos d @ [novo]"
        by (simp add: p)
      from checked_order_endereco [OF k] show "p_endereco novo = formattedAddress ad" by simp
      show "state (fst (snd (processTaggedResponse env b u c cfg d))) = 7" by (simp add: p)
      show "pedidoId (fst (snd (processTaggedResponse env b u c cfg d)))
          = Some (length (pedidos d))" by (simp add: p)
    next
      assume k: "checked_order env (c\<lparr>pedidoData := Some ?spd\<rparr>) ?spd = None"
      from a rp k have p: "processTaggedResponse env b u c cfg d
          = (final_step b ((rimg env b (state c) cfg)\<lparr>resp_text := msg_confirm_problem\<rparr>),
             c\<lparr>pedidoData := Some ?spd\<rparr>, d)"
        by (simp add: pTR_alt js confirmation_step_def Let_def)
      show "snd (snd (processTaggedResponse env b u c cfg d)) = d" by (simp add: p)
      show "state (fst (snd (processTaggedResponse env b u c cfg d))) = state c"
        by (simp add: p)
      from a show "pedidoId (fst (snd (processTaggedResponse env b u c cfg d))) = None"
        by (simp add: p)
      show "resp_text (fst (processTaggedResponse env b u c cfg d)) = msg_confirm_problem"
        by (simp add: p final_step_text np)
    qed
  qed
  from 1 2 3 4 show ?thesis by (intro conjI)
qed

definition ex_preco_nan :: "int conversa" where
  \<comment> \<open>state 6, an address was resolved, the staged address has no number and the price of
      the staged item is not a number\<close>
  "ex_preco_nan =
     (ex_conversa 6)\<lparr>addressData := Some ex_address,
        pedidoData :=
          Some \<lparr>items = Some [\<lparr>nome = ''Amazonas'', quantidade = Some 1, preco = None\<rparr>],
                endereco = ''Rua Augusta'', pagamento = ''pix'', outros = []\<rparr>\<rparr>"

theorem C3_address_without_number_witness:
  "processTaggedResponse (ex_env [] ApiError) ex_sem_numero_json ''ok''
       (ex_conversa 5) None (ex_db (ex_conversa 5))
     = (reply msg_need_number (Some 4), after_save ((ex_conversa 5)\<lparr>state := 4\<rparr>),
        save_conversa ((ex_conversa 5)\<lparr>state := 4\<rparr>) (ex_db (ex_conversa 5)))
   \<and> fst (processMessageInternally (ex_env [] (Content ex_sem_numero_json)) ''5511999990000''
            ''quero'' False (ex_conversa 3) (ex_db (ex_conversa 3)))
     = reply msg_need_number (Some 4)
   \<and> pedidos (fst (snd (processMessageInternally (ex_env [] (Content ex_sem_numero_json))
                           ''5511999990000'' ''quero'' False (ex_conversa 3)
                           (ex_db (ex_conversa 3))))) = []
   \<and> map_option state
         (find (\<lambda>x. cid x = 0)
            (conversas (fst (snd (processMessageInternally
                                    (ex_env [] (Content ex_sem_numero_json)) ''5511999990000''
                                    ''quero'' False (ex_conversa 3) (ex_db (ex_conversa 3)))))))
     = Some 4
   \<and> state (fst (snd (processTaggedResponse (ex_env [] ApiError) ex_confirmation ''confirmo''
                          ex_sem_numero None (ex_db ex_sem_numero)))) = 4
   \<and> pedidos (snd (snd (processTaggedResponse (ex_env [] ApiError) ex_confirmation
                            ''confirmo'' ex_sem_numero None (ex_db ex_sem_numero)))) = []
   \<and> pedidos (snd (snd (processTaggedResponse (ex_env [] ApiError) ex_confirmation
                            ''confirmo'' ex_sem_numero_com_cep None
                            (ex_db ex_sem_numero_com_cep))))
     = [ex_order\<lparr>p_endereco := formattedAddress ex_address\<rparr>]
   \<and> snd (snd (processTaggedResponse (ex_env [] ApiError) ex_confirmation ''confirmo''
                   ex_preco_nan None (ex_db ex_preco_nan))) = ex_db ex_preco_nan
   \<and> state (fst (snd (processTaggedResponse (ex_env [] ApiError) ex_confirmation ''confirmo''
                          ex_preco_nan None (ex_db ex_preco_nan)))) = 6"
proof -
  let ?env = "ex_env [] ApiError"
  let ?envc = "ex_env [] (Content ex_sem_numero_json)"
  have v: "valid_payload ?env ex_sem_numero_json = Some ex_pedido_sem_numero"
    "valid_payload ?envc ex_sem_numero_json = Some ex_pedido_sem_numero"
    by code_simp+
  have n: "\<not> has_digit (endereco ex_pedido_sem_numero)"
    by code_simp
  from C3_address_without_number
         [where env = ?env and b = ex_sem_numero_json and pd = ex_pedido_sem_numero
            and u = "''ok''" and c = "ex_conversa 5" and cfg = None
            and d = "ex_db (ex_conversa 5)", THEN conjunct1] v n
  have 1: "processTaggedResponse ?env ex_sem_numero_json ''ok''
       (ex_conversa 5) None (ex_db (ex_conversa 5))
     = (reply msg_need_number (Some 4), after_save ((ex_conversa 5)\<lparr>state := 4\<rparr>),
        save_conversa ((ex_conversa 5)\<lparr>state := 4\<rparr>) (ex_db (ex_conversa 5)))"
    by simp
  let ?pre = "prelude ?envc ''quero'' False (ex_conversa 3) (ex_db (ex_conversa 3))"
  let ?llm = "llm_stage ?envc (fst ?pre) (snd ?pre)"
  have h: "''5511999990000'' \<noteq> []" "\<not> is_reset ''quero''"
    "state4_number ''quero'' (fst ?pre) (snd ?pre) = None"
    "state5_payment ''quero'' (fst ?pre) (snd ?pre) = None"
    "state6_confirm ?envc ''quero'' (fst ?pre) (snd ?pre) = None"
    "image_request ?envc ''quero'' (fst ?pre) (snd ?pre) = None"
    "fst ?llm = ex_sem_numero_json"
    by code_simp+
  have pre: "?pre = (fst ?pre, snd ?pre)" by simp
  have llm: "?llm = (ex_sem_numero_json, fst (snd ?llm), snd (snd ?llm))"
    using h(7) by (metis prod.collapse)
  have ci: "cid (ex_conversa 3) = 0" "pedidos (ex_db (ex_conversa 3)) = []"
    by (simp_all add: ex_conversa_def ex_db_def)
  from C3_address_without_number
         [where env = ?envc and b = ex_sem_numero_json and pd = ex_pedido_sem_numero
            and userPhone = "''5511999990000''" and message = "''quero''" and isAudio = False
            and conversa = "ex_conversa 3" and d = "ex_db (ex_conversa 3)"
            and ?c2.0 = "fst ?pre" and ?d1.0 = "snd ?pre"
            and ?c3.0 = "fst (snd ?llm)" and ?d3.0 = "snd (snd ?llm)",
          THEN conjunct2, THEN conjunct1, THEN mp,
          OF conjI [OF h(1) conjI [OF h(2) conjI [OF pre conjI [OF h(3) conjI [OF h(4)
               conjI [OF h(5) conjI [OF h(6) conjI [OF llm conjI [OF v(2) n]]]]]]]]]]
  have 2: "fst (processMessageInternally ?envc ''5511999990000'' ''quero'' False (ex_conversa 3)
                 (ex_db (ex_conversa 3))) = reply msg_need_number (Some 4)
     \<and> pedidos (fst (snd (processMessageInternally ?envc ''5511999990000'' ''quero'' False
                             (ex_conversa 3) (ex_db (ex_conversa 3))))) = []
     \<and> map_option state
         (find (\<lambda>x. cid x = 0)
            (conversas (fst (snd (processMessageInternally ?envc ''5511999990000'' ''quero''
                                    False (ex_conversa 3) (ex_db (ex_conversa 3)))))))
       = Some 4"
    by (simp add: ci)
  have t: "first_block CONFIRMATION_FORMAT ex_confirmation = Some ''Pedido confirmado!''"
    by code_simp
  have w: "valid_payload ?env ex_confirmation = None"
    by code_simp
  have c: "pedidoId ex_sem_numero = None" "pedidoData ex_sem_numero = Some ex_pedido_sem_numero"
    "addressData ex_sem_numero = None"
    by (simp_all add: ex_sem_numero_def ex_conversa_def)
  have d: "pedidos (ex_db ex_sem_numero) = []"
    by (simp add: ex_db_def)
  from C3_address_without_number
         [where env = ?env and b = ex_confirmation and u = "''confirmo''" and c = ex_sem_numero
            and cfg = None and d = "ex_db ex_sem_numero" and t = "''Pedido confirmado!''"
            and saved = ex_pedido_sem_numero,
          THEN conjunct2, THEN conjunct2, THEN conjunct1] t w c n d
  have 3: "state (fst (snd (processTaggedResponse ?env ex_confirmation
                              ''confirmo'' ex_sem_numero None (ex_db ex_sem_numero)))) = 4
     \<and> pedidos (snd (snd (processTaggedResponse ?env ex_confirmation
                            ''confirmo'' ex_sem_numero None (ex_db ex_sem_numero)))) = []"
    by auto
  have c': "pedidoId ex_sem_numero_com_cep = None"
    "pedidoData ex_sem_numero_com_cep = Some ex_pedido_sem_numero"
    "addressData ex_sem_numero_com_cep = Some ex_address"
    by (simp_all add: ex_sem_numero_com_cep_def ex_sem_numero_def ex_conversa_def)
  have hd: "has_digit (formattedAddress ex_address)"
    by code_simp
  have k: "checked_order ?env
      (ex_sem_numero_com_cep
         \<lparr>pedidoData := Some (ex_pedido_sem_numero\<lparr>endereco := formattedAddress ex_address\<rparr>)\<rparr>)
      (ex_pedido_sem_numero\<lparr>endereco := formattedAddress ex_address\<rparr>)
      = Some (ex_order\<lparr>p_endereco := formattedAddress ex_address\<rparr>)"
    by code_simp
  have d': "pedidos (ex_db ex_sem_numero_com_cep) = []"
    by (simp add: ex_db_def)
  from C3_address_without_number
         [where env = ?env and b = ex_confirmation and u = "''confirmo''"
            and c = ex_sem_numero_com_cep and cfg = None and d = "ex_db ex_sem_numero_com_cep"
            and t = "''Pedido confirmado!''" and saved = ex_pedido_sem_numero
            and ad = ex_address and novo = "ex_order\<lparr>p_endereco := formattedAddress ex_address\<rparr>",
          THEN conjunct2, THEN conjunct2, THEN conjunct2, THEN mp,
          OF conjI [OF t conjI [OF w conjI [OF c'(1) conjI [OF c'(2) conjI [OF n
               conjI [OF c'(3) hd]]]]]],
          THEN conjunct1, THEN mp, OF k] d'
  have 4: "pedidos (snd (snd (processTaggedResponse ?env ex_confirmation
                            ''confirmo'' ex_sem_numero_com_cep None
                            (ex_db ex_sem_numero_com_cep))))
     = [ex_order\<lparr>p_endereco := formattedAddress ex_address\<rparr>]"
    by simp
  let ?nan = "\<lparr>items = Some [\<lparr>nome = ''Amazonas'', quantidade = Some (1::int), preco = None\<rparr>],
               endereco = ''Rua Augusta'', pagamento = ''pix'', outros = []\<rparr>"
  have c'': "pedidoId ex_preco_nan = None" "pedidoData ex_preco_nan = Some ?nan"
    "addressData ex_preco_nan = Some ex_address" "state ex_preco_nan = 6"
    by (simp_all add: ex_preco_nan_def ex_conversa_def)
  have n'': "\<not> has_digit (endereco ?nan)"
    by code_simp
  have k'': "checked_order ?env
      (ex_preco_nan\<lparr>pedidoData := Some (?nan\<lparr>endereco := formattedAddress ex_address\<rparr>)\<rparr>)
      (?nan\<lparr>endereco := formattedAddress ex_address\<rparr>) = None"
    by code_simp
  from C3_address_without_number
         [where env = ?env and b = ex_confirmation and u = "''confirmo''"
            and c = ex_preco_nan and cfg = None and d = "ex_db ex_preco_nan"
            and t = "''Pedido confirmado!''" and saved = ?nan and ad = ex_address,
          THEN conjunct2, THEN conjunct2, THEN conjunct2, THEN mp,
          OF conjI [OF t conjI [OF w conjI [OF c''(1) conjI [OF c''(2) conjI [OF n''
               conjI [OF c''(3) hd]]]]]],
          THEN conjunct2, THEN mp, OF k''] c''(4)
  have 5: "snd (snd (processTaggedResponse ?env ex_confirmation ''confirmo''
                       ex_preco_nan None (ex_db ex_preco_nan))) = ex_db ex_preco_nan
     \<and> state (fst (snd (processTaggedResponse ?env ex_confirmation ''confirmo''
                          ex_preco_nan None (ex_db ex_preco_nan)))) = 6"
    by simp
  from 1 2 3 4 5 show ?thesis by (intro conjI) simp_all
qed

text \<open>
  C3 as the specification states it: state 6, a reply with a CONFIRMATION block and a staged
  address without a digit give state 4 and no order. When a postal code was resolved
  earlier in the conversation, the commit takes the resolved address, whose postal code has
  digits, in place of the staged one: the order is written and the state is 7.
\<close>

theorem C3_counterexample:
  "state ex_sem_numero_com_cep = 6
   \<and> first_block CONFIRMATION_FORMAT ex_confirmation = Some ''Pedido confirmado!''
   \<and> pedidoData ex_sem_numero_com_cep = Some ex_pedido_sem_numero
   \<and> \<not> has_digit (endereco ex_pedido_sem_numero)
   \<and> state (fst (snd (processTaggedResponse (ex_env [] ApiError) ex_confirmation ''confirmo''
                          ex_sem_numero_com_cep None (ex_db ex_sem_numero_com_cep)))) = 7
   \<and> pedidos (snd (snd (processTaggedResponse (ex_env [] ApiError) ex_confirmation
                            ''confirmo'' ex_sem_numero_com_cep None
                            (ex_db ex_sem_numero_com_cep))))
     = [ex_order\<lparr>p_endereco := ''Rua Augusta, Consolacao, Sao Paulo - SP, 01305-000''\<rparr>]"
  by code_simp

text \<open>
  The turn of the witness above, seen in the store. Lines 2697--2702 keep whatever the JSON
  block parses to as the staged order, before \<^verbatim>\<open>processTaggedResponse\<close> looks at the address:
  after the turn the stored conversation is in state 4 and holds the order whose address
  has no number.
\<close>

lemma turn_keeps_payload_without_number:
  "map_option pedidoData
     (find (\<lambda>x. cid x = 0)
        (conversas (fst (snd (processMessageInternally
                                (ex_env [] (Content ex_sem_numero_json)) ''5511999990000''
                                ''quero'' False (ex_conversa 3) (ex_db (ex_conversa 3)))))))
   = Some (Some ex_pedido_sem_numero)"
  by code_simp

section \<open>C10: which blocks of a reply are processed\<close>

lemma resolve_first_image_single:
  assumes "findOne_id env x = Some i" and "x \<noteq> ''cardapio''" and "x \<noteq> ''menu''"
    and "\<not> js_includes x ''+''"
  shows "resolve_first_image env cfg x
     = Done (imagemGeral i, ''*'' @ c_nome i @ ''*: '' @ descricao i)"
  using assms by (simp add: resolve_first_image_def single_item_def)

lemma resolve_first_image_menu:
  assumes "x = ''cardapio'' \<or> x = ''menu''" and "menuImage bc \<noteq> []"
  shows "resolve_first_image env (Some bc) x
     = Done (menuImage bc,
             if menuImageCaption bc \<noteq> [] then menuImageCaption bc
             else ''Card'' @ a_acute @ ''pio'')"
  using assms by (auto simp: resolve_first_image_def)

lemma extra_image_found:
  "findOne_id env x = Some i \<Longrightarrow>
     extra_image env x
       = (if imagemGeral i \<noteq> [] then
            [\<lparr>img_id = x, img_url = imagemGeral i,
              img_caption = ''*'' @ c_nome i @ ''*: '' @ descricao i\<rparr>]
          else [])"
  by (simp add: extra_image_def extra_item_def)

lemma image_step_unresolved:
  assumes "imageMatches b = f # others" and "allImages r = None"
    and "resolve_first_image env cfg (js_trim f) = Threw
         \<or> (\<exists>cap. resolve_first_image env cfg (js_trim f) = Done ([], cap))"
  shows "resp_image (image_step env b st cfg r) = resp_image r"
    and "allImages (image_step env b st cfg r)
           = (if others = [] then None else Some (concat (map (extra_image env) others)))"
  using assms by (auto simp: image_step_def Let_def)

text \<open>
  C10. The block that \<^verbatim>\<open>processTaggedResponse\<close> reads for a tag is the first of all the blocks
  with that tag, whatever follows it. What the function does to the conversation and to
  the store depends on the reply only through its first JSON block and its first
  CONFIRMATION block, and the audio of the response only through the first VOICE block and
  the first JSON block. The image identifiers are the payloads of all the IMAGE blocks, in
  the order of the reply, trimmed, the blank ones left out. When the first identifier
  resolves to an image, and the reply has no CONFIRMATION block and no order payload without
  a house number, that image and its caption are the image of the response, and
  \<^verbatim>\<open>allImages\<close> holds its entry followed by the entries of the further identifiers in
  order; when it does not resolve, the image of the response is left as it was and
  \<^verbatim>\<open>allImages\<close> holds the entries of the further identifiers. The first identifier resolves
  to the configured menu image for \<open>cardapio\<close> and \<open>menu\<close>, and to the general image of the
  available item with that identifier, captioned with its name and description. A further
  identifier gives exactly that entry for the available item with that identifier that has
  a general image, and in every case at most one entry, which carries the identifier.
\<close>

theorem C10_first_blocks:
  "first_block tag b = (case all_blocks tag b of [] \<Rightarrow> None | p # ps \<Rightarrow> Some p)
   \<and> (block_match tag b = Some (p, rest) \<longrightarrow>
        first_block tag (take (length b - length rest) b @ rest') = Some p)
   \<and> (first_block JSON_FORMAT b = first_block JSON_FORMAT b'
        \<and> first_block CONFIRMATION_FORMAT b = first_block CONFIRMATION_FORMAT b' \<longrightarrow>
        snd (processTaggedResponse env b u c cfg d)
          = snd (processTaggedResponse env b' u c cfg d))
   \<and> (first_block VOICE_FORMAT b = first_block VOICE_FORMAT b'
        \<and> first_block JSON_FORMAT b = first_block JSON_FORMAT b' \<longrightarrow>
        audio (fst (processTaggedResponse env b u c cfg d))
          = audio (fst (processTaggedResponse env b' u c cfg d)))
   \<and> imageMatches b = filter (\<lambda>x. x \<noteq> []) (map js_trim (all_blocks IMAGE_FORMAT b))
   \<and> (imageMatches b = f # others
        \<and> resolve_first_image env cfg (js_trim f) = Done (url, caption) \<and> url \<noteq> []
        \<and> first_block CONFIRMATION_FORMAT b = None
        \<and> (\<forall>pd. valid_payload env b = Some pd \<longrightarrow> has_digit (endereco pd)) \<longrightarrow>
        resp_image (fst (processTaggedResponse env b u c cfg d)) = url
        \<and> imageCaption (fst (processTaggedResponse env b u c cfg d)) = caption
        \<and> allImages (fst (processTaggedResponse env b u c cfg d))
            = Some (\<lparr>img_id = js_trim f, img_url = url, img_caption = caption\<rparr>
                    # concat (map (extra_image env) others)))
   \<and> (imageMatches b = f # others \<and> allImages r = None
        \<and> (resolve_first_image env cfg (js_trim f) = Threw
             \<or> (\<exists>cap. resolve_first_image env cfg (js_trim f) = Done ([], cap))) \<longrightarrow>
        resp_image (image_step env b st cfg r) = resp_image r
        \<and> allImages (image_step env b st cfg r)
            = (if others = [] then None else Some (concat (map (extra_image env) others))))
   \<and> ((x = ''cardapio'' \<or> x = ''menu'') \<and> menuImage bc \<noteq> [] \<longrightarrow>
        resolve_first_image env (Some bc) x
          = Done (menuImage bc,
                  if menuImageCaption bc \<noteq> [] then menuImageCaption bc
                  else ''Card'' @ a_acute @ ''pio''))
   \<and> (findOne_id env x = Some i \<and> x \<noteq> ''cardapio'' \<and> x \<noteq> ''menu''
        \<and> \<not> js_includes x ''+'' \<longrightarrow>
        resolve_first_image env cfg x
          = Done (imagemGeral i, ''*'' @ c_nome i @ ''*: '' @ descricao i))
   \<and> (findOne_id env x = Some i \<longrightarrow>
        extra_image env x
          = (if imagemGeral i \<noteq> [] then
               [\<lparr>img_id = x, img_url = imagemGeral i,
                 img_caption = ''*'' @ c_nome i @ ''*: '' @ descricao i\<rparr>]
             else []))
   \<and> (extra_image env x = []
        \<or> (\<exists>url cap. extra_image env x = [\<lparr>img_id = x, img_url = url, img_caption = cap\<rparr>]))"
proof (intro conjI impI)
  show "first_block tag b = (case all_blocks tag b of [] \<Rightarrow> None | p # ps \<Rightarrow> Some p)"
    by (rule first_block_all_blocks)
  show "first_block tag (take (length b - length rest) b @ rest') = Some p"
    if "block_match tag b = Some (p, rest)"
    using block_match_tail [OF that, of rest'] by (simp add: first_block_def)
  show "snd (processTaggedResponse env b u c cfg d) = snd (processTaggedResponse env b' u c cfg d)"
    if "first_block JSON_FORMAT b = first_block JSON_FORMAT b'
        \<and> first_block CONFIRMATION_FORMAT b = first_block CONFIRMATION_FORMAT b'"
    using that by (intro pTR_effects_cong) simp_all
  show "audio (fst (processTaggedResponse env b u c cfg d))
          = audio (fst (processTaggedResponse env b' u c cfg d))"
    if "first_block VOICE_FORMAT b = first_block VOICE_FORMAT b'
        \<and> first_block JSON_FORMAT b = first_block JSON_FORMAT b'"
    using that by (intro pTR_audio_cong) simp_all
  show "imageMatches b = filter (\<lambda>x. x \<noteq> []) (map js_trim (all_blocks IMAGE_FORMAT b))"
    by (rule imageMatches_all_blocks)
next
  assume h: "imageMatches b = f # others
        \<and> resolve_first_image env cfg (js_trim f) = Done (url, caption) \<and> url \<noteq> []
        \<and> first_block CONFIRMATION_FORMAT b = None
        \<and> (\<forall>pd. valid_payload env b = Some pd \<longrightarrow> has_digit (endereco pd))"
  then have m: "imageMatches b = f # others"
    and rs: "resolve_first_image env cfg (js_trim f) = Done (url, caption)" and ne: "url \<noteq> []"
    and nc: "first_block CONFIRMATION_FORMAT b = None"
    and nj: "\<forall>pd. valid_payload env b = Some pd \<longrightarrow> has_digit (endereco pd)"
    by simp_all
  show "resp_image (fst (processTaggedResponse env b u c cfg d)) = url"
    by (rule pTR_main_image(1) [OF nc nj m rs ne])
  show "imageCaption (fst (processTaggedResponse env b u c cfg d)) = caption"
    by (rule pTR_main_image(2) [OF nc nj m rs ne])
  show "allImages (fst (processTaggedResponse env b u c cfg d))
            = Some (\<lparr>img_id = js_trim f, img_url = url, img_caption = caption\<rparr>
                    # concat (map (extra_image env) others))"
    by (rule pTR_main_image(3) [OF nc nj m rs ne])
next
  assume h: "imageMatches b = f # others \<and> allImages r = None
        \<and> (resolve_first_image env cfg (js_trim f) = Threw
             \<or> (\<exists>cap. resolve_first_image env cfg (js_trim f) = Done ([], cap)))"
  then have m: "imageMatches b = f # others" and a: "allImages r = None"
    and u: "resolve_first_image env cfg (js_trim f) = Threw
             \<or> (\<exists>cap. resolve_first_image env cfg (js_trim f) = Done ([], cap))"
    by simp_all
  show "resp_image (image_step env b st cfg r) = resp_image r"
    by (rule image_step_unresolved(1) [OF m a u])
  show "allImages (image_step env b st cfg r)
            = (if others = [] then None else Some (concat (map (extra_image env) others)))"
    by (rule image_step_unresolved(2) [OF m a u])
next
  show "resolve_first_image env (Some bc) x
          = Done (menuImage bc,
                  if menuImageCaption bc \<noteq> [] then menuImageCaption bc
                  else ''Card'' @ a_acute @ ''pio'')"
    if "(x = ''cardapio'' \<or> x = ''menu'') \<and> menuImage bc \<noteq> []"
    using that by (intro resolve_first_image_menu) simp_all
  show "resolve_first_image env cfg x
          = Done (imagemGeral i, ''*'' @ c_nome i @ ''*: '' @ descricao i)"
    if "findOne_id env x = Some i \<and> x \<noteq> ''cardapio'' \<and> x \<noteq> ''menu''
        \<and> \<not> js_includes x ''+''"
    using that by (intro resolve_first_image_single) simp_all
  show "extra_image env x
          = (if imagemGeral i \<noteq> [] then
               [\<lparr>img_id = x, img_url = imagemGeral i,
                 img_caption = ''*'' @ c_nome i @ ''*: '' @ descricao i\<rparr>]
             else [])"
    if "findOne_id env x = Some i"
    using that by (rule extra_image_found)
  show "extra_image env x = []
        \<or> (\<exists>url cap. extra_image env x = [\<lparr>img_id = x, img_url = url, img_caption = cap\<rparr>])"
    by (rule extra_image_id)
qed

definition ex_two_pizzas :: string where
  "ex_two_pizzas = ''[IMAGE_FORMAT]pizza-doce_pizza-dolce-banana[/END]''
     @ ''[IMAGE_FORMAT]pizza-salgada_pizza-amazonas[/END]''"

definition ex_menu_sem_config :: string where
  "ex_menu_sem_config = ''[IMAGE_FORMAT]cardapio[/END]''
     @ ''[IMAGE_FORMAT]pizza-salgada_pizza-amazonas[/END]''"

theorem C10_first_blocks_witness:
  "first_block JSON_FORMAT (ex_one_order @ ''[JSON_FORMAT]{}[/END]'') = Some ''{pedido}''
   \<and> snd (processTaggedResponse (ex_env [ex_item_a] ApiError) ex_two_orders ''oi''
             (ex_conversa 3) None (ex_db (ex_conversa 3)))
     = snd (processTaggedResponse (ex_env [ex_item_a] ApiError) ex_one_order ''oi''
             (ex_conversa 3) None (ex_db (ex_conversa 3)))
   \<and> audio (fst (processTaggedResponse (ex_env [ex_item_a] ApiError) ex_two_orders ''oi''
                    (ex_conversa 3) None (ex_db (ex_conversa 3))))
     = audio (fst (processTaggedResponse (ex_env [ex_item_a] ApiError) ex_one_order ''oi''
                    (ex_conversa 3) None (ex_db (ex_conversa 3))))
   \<and> resp_image (fst (processTaggedResponse (ex_env [ex_item_a] ApiError) ex_three_images ''oi''
                         (ex_conversa 0) (Some ex_config) (ex_db (ex_conversa 0))))
     = ''menu.jpg''
   \<and> allImages (fst (processTaggedResponse (ex_env [ex_item_a] ApiError) ex_three_images ''oi''
                        (ex_conversa 0) (Some ex_config) (ex_db (ex_conversa 0))))
     = Some [\<lparr>img_id = ''cardapio'', img_url = ''menu.jpg'',
               img_caption = ''Card'' @ a_acute @ ''pio''\<rparr>,
             \<lparr>img_id = ''pizza-salgada_pizza-amazonas'', img_url = ''amazonas.jpg'',
               img_caption = ''*Pizza Amazonas*: Tucupi e jambu''\<rparr>]
   \<and> resp_image (fst (processTaggedResponse (ex_env [ex_item_a, ex_item_b] ApiError)
                         ex_two_pizzas ''oi'' (ex_conversa 0) None (ex_db (ex_conversa 0))))
     = ''banana.jpg''
   \<and> allImages (image_step (ex_env [ex_item_a] ApiError) ex_menu_sem_config 0 None
                   (new_response 0 ex_menu_sem_config))
     = Some [\<lparr>img_id = ''pizza-salgada_pizza-amazonas'', img_url = ''amazonas.jpg'',
               img_caption = ''*Pizza Amazonas*: Tucupi e jambu''\<rparr>]"
proof -
  let ?env = "ex_env [ex_item_a] ApiError"
  let ?env2 = "ex_env [ex_item_a, ex_item_b] ApiError"
  have m: "block_match JSON_FORMAT ex_two_orders
             = Some (''{pedido}'', ''[JSON_FORMAT]{sem numero}[/END]'')"
    by code_simp
  have t: "take (length ex_two_orders - length ''[JSON_FORMAT]{sem numero}[/END]'') ex_two_orders
             = ex_one_order"
    by code_simp
  have j: "first_block JSON_FORMAT ex_two_orders = first_block JSON_FORMAT ex_one_order"
    by code_simp
  have c: "first_block CONFIRMATION_FORMAT ex_two_orders
             = first_block CONFIRMATION_FORMAT ex_one_order"
    by code_simp
  have v: "first_block VOICE_FORMAT ex_two_orders = first_block VOICE_FORMAT ex_one_order"
    by code_simp
  note first = C10_first_blocks
    [where tag = JSON_FORMAT and b = ex_two_orders and p = "''{pedido}''"
       and rest = "''[JSON_FORMAT]{sem numero}[/END]''" and rest' = "''[JSON_FORMAT]{}[/END]''"
       and b' = ex_one_order and env = ?env and u = "''oi''" and c = "ex_conversa 3"
       and cfg = None and d = "ex_db (ex_conversa 3)"]
  from first [THEN conjunct2, THEN conjunct1] m t
  have 1: "first_block JSON_FORMAT (ex_one_order @ ''[JSON_FORMAT]{}[/END]'') = Some ''{pedido}''"
    by simp
  from first [THEN conjunct2, THEN conjunct2, THEN conjunct1] j c
  have 2: "snd (processTaggedResponse ?env ex_two_orders ''oi''
             (ex_conversa 3) None (ex_db (ex_conversa 3)))
     = snd (processTaggedResponse ?env ex_one_order ''oi''
             (ex_conversa 3) None (ex_db (ex_conversa 3)))"
    by simp
  from first [THEN conjunct2, THEN conjunct2, THEN conjunct2, THEN conjunct1] j v
  have 3: "audio (fst (processTaggedResponse ?env ex_two_orders ''oi''
                    (ex_conversa 3) None (ex_db (ex_conversa 3))))
     = audio (fst (processTaggedResponse ?env ex_one_order ''oi''
                    (ex_conversa 3) None (ex_db (ex_conversa 3))))"
    by simp
  have i: "imageMatches ex_three_images = [''cardapio'', ''pizza-salgada_pizza-amazonas'']"
    "js_trim ''cardapio'' = ''cardapio''"
    "first_block CONFIRMATION_FORMAT ex_three_images = None"
    "valid_payload ?env ex_three_images = None"
    by code_simp+
  have mi: "menuImage ex_config \<noteq> []" "menuImage ex_config = ''menu.jpg''"
    "menuImageCaption ex_config = []"
    by (simp_all add: ex_config_def)
  have fa: "findOne_id ?env ''pizza-salgada_pizza-amazonas'' = Some ex_item_a"
    by code_simp
  have ia: "imagemGeral ex_item_a = ''amazonas.jpg''" "c_nome ex_item_a = ''Pizza Amazonas''"
    "descricao ex_item_a = ''Tucupi e jambu''"
    by (simp_all add: ex_item_a_def)
  note img = C10_first_blocks
    [where b = ex_three_images and env = ?env and f = "''cardapio''"
       and others = "[''pizza-salgada_pizza-amazonas'']" and cfg = "Some ex_config"
       and bc = ex_config and url = "''menu.jpg''" and caption = "''Card'' @ a_acute @ ''pio''"
       and u = "''oi''" and c = "ex_conversa 0" and d = "ex_db (ex_conversa 0)"
       and x = "''cardapio''"]
  note tail = img [THEN conjunct2, THEN conjunct2, THEN conjunct2, THEN conjunct2,
                   THEN conjunct2]
  from tail [THEN conjunct2, THEN conjunct2, THEN conjunct1] mi
  have menu: "resolve_first_image ?env (Some ex_config) ''cardapio''
      = Done (''menu.jpg'', ''Card'' @ a_acute @ ''pio'')"
    by simp
  from C10_first_blocks
    [where env = ?env and x = "''pizza-salgada_pizza-amazonas''" and i = ex_item_a,
     THEN conjunct2, THEN conjunct2, THEN conjunct2, THEN conjunct2, THEN conjunct2,
     THEN conjunct2, THEN conjunct2, THEN conjunct2, THEN conjunct2, THEN conjunct1] fa ia
  have extra: "extra_image ?env ''pizza-salgada_pizza-amazonas''
      = [\<lparr>img_id = ''pizza-salgada_pizza-amazonas'', img_url = ''amazonas.jpg'',
           img_caption = ''*Pizza Amazonas*: Tucupi e jambu''\<rparr>]"
    by simp
  from tail [THEN conjunct1] i menu extra
  have 4: "resp_image (fst (processTaggedResponse ?env ex_three_images ''oi''
                         (ex_conversa 0) (Some ex_config) (ex_db (ex_conversa 0))))
     = ''menu.jpg''
     \<and> allImages (fst (processTaggedResponse ?env ex_three_images ''oi''
                        (ex_conversa 0) (Some ex_config) (ex_db (ex_conversa 0))))
     = Some [\<lparr>img_id = ''cardapio'', img_url = ''menu.jpg'',
               img_caption = ''Card'' @ a_acute @ ''pio''\<rparr>,
             \<lparr>img_id = ''pizza-salgada_pizza-amazonas'', img_url = ''amazonas.jpg'',
               img_caption = ''*Pizza Amazonas*: Tucupi e jambu''\<rparr>]"
    by simp
  have i2: "imageMatches ex_two_pizzas
      = [''pizza-doce_pizza-dolce-banana'', ''pizza-salgada_pizza-amazonas'']"
    "js_trim ''pizza-doce_pizza-dolce-banana'' = ''pizza-doce_pizza-dolce-banana''"
    "first_block CONFIRMATION_FORMAT ex_two_pizzas = None"
    "valid_payload ?env2 ex_two_pizzas = None"
    "findOne_id ?env2 ''pizza-doce_pizza-dolce-banana'' = Some ex_item_b"
    "''pizza-doce_pizza-dolce-banana'' \<noteq> ''cardapio''"
    "''pizza-doce_pizza-dolce-banana'' \<noteq> ''menu''"
    "\<not> js_includes ''pizza-doce_pizza-dolce-banana'' ''+''"
    by code_simp+
  have ib: "imagemGeral ex_item_b = ''banana.jpg''"
    by (simp add: ex_item_b_def)
  note img2 = C10_first_blocks
    [where b = ex_two_pizzas and env = ?env2 and f = "''pizza-doce_pizza-dolce-banana''"
       and others = "[''pizza-salgada_pizza-amazonas'']" and cfg = None
       and url = "''banana.jpg''"
       and caption = "''*'' @ c_nome ex_item_b @ ''*: '' @ descricao ex_item_b"
       and u = "''oi''" and c = "ex_conversa 0" and d = "ex_db (ex_conversa 0)"
       and x = "''pizza-doce_pizza-dolce-banana''" and i = ex_item_b]
  note tail2 = img2 [THEN conjunct2, THEN conjunct2, THEN conjunct2, THEN conjunct2,
                     THEN conjunct2]
  from tail2 [THEN conjunct2, THEN conjunct2, THEN conjunct2, THEN conjunct1] i2 ib
  have single: "resolve_first_image ?env2 None ''pizza-doce_pizza-dolce-banana''
      = Done (''banana.jpg'', ''*'' @ c_nome ex_item_b @ ''*: '' @ descricao ex_item_b)"
    by simp
  from tail2 [THEN conjunct1] i2 single
  have 5: "resp_image (fst (processTaggedResponse ?env2 ex_two_pizzas ''oi'' (ex_conversa 0)
                              None (ex_db (ex_conversa 0)))) = ''banana.jpg''"
    by simp
  have i3: "imageMatches ex_menu_sem_config = [''cardapio'', ''pizza-salgada_pizza-amazonas'']"
    "resolve_first_image ?env None (js_trim ''cardapio'') = Done ([], [])"
    by code_simp+
  from C10_first_blocks
    [where b = ex_menu_sem_config and env = ?env and f = "''cardapio''"
       and others = "[''pizza-salgada_pizza-amazonas'']" and cfg = None
       and r = "new_response 0 ex_menu_sem_config" and st = 0,
     THEN conjunct2, THEN conjunct2, THEN conjunct2, THEN conjunct2, THEN conjunct2,
     THEN conjunct2, THEN conjunct1] i3 extra
  have 6: "allImages (image_step ?env ex_menu_sem_config 0 None
                        (new_response 0 ex_menu_sem_config))
     = Some [\<lparr>img_id = ''pizza-salgada_pizza-amazonas'', img_url = ''amazonas.jpg'',
               img_caption = ''*Pizza Amazonas*: Tucupi e jambu''\<rparr>]"
    by (simp add: new_response_def)
  from 1 2 3 4 5 6 show ?thesis by (intro conjI) simp_all
qed

text \<open>
  C10 as the specification states it has every IMAGE block collected. A block whose payload
  is blank is passed over: of the three IMAGE blocks of this reply two are collected.
\<close>

theorem C10_counterexample:
  "all_blocks IMAGE_FORMAT ex_three_images
     = [''cardapio'', '' '', ''pizza-salgada_pizza-amazonas'']
   \<and> imageMatches ex_three_images = [''cardapio'', ''pizza-salgada_pizza-amazonas'']"
  by code_simp

section \<open>C8: the repair of an answer without tags\<close>

text \<open>
  C8. An answer of the model that contains none of the markers of the protocol (the five
  opening tags, the closing tag and the six request markers) is wrapped as one TEXT block.
  The staging and the enrichment that follow the answer leave it and the conversation as
  they are; \<^verbatim>\<open>processTaggedResponse\<close> returns the wrapped text in a successful response
  without audio, image or error and changes neither the conversation nor the store; and
  the text sent to the customer is the answer, trimmed, or nothing when the answer is
  blank. This is what a turn that reaches the model returns and sends.
\<close>

theorem C8_untagged_reply:
  assumes "untagged b"
  shows "ensure_format b = TEXT_FORMAT @ b @ END_TAG
   \<and> (chat_completion env = Content b \<longrightarrow>
        llm_stage env conversa d = (TEXT_FORMAT @ b @ END_TAG, conversa, d))
   \<and> processTaggedResponse env (TEXT_FORMAT @ b @ END_TAG) message conversa cfg d
       = (new_response (state conversa) (TEXT_FORMAT @ b @ END_TAG), conversa, d)
   \<and> text_messages (TEXT_FORMAT @ b @ END_TAG) = (if js_trim b = [] then [] else [js_trim b])
   \<and> (chat_completion env = Content b \<and> userPhone \<noteq> [] \<and> \<not> is_reset message
        \<and> handleAudioRequest env userPhone message d0 = None
        \<and> getOrCreateConversation userPhone message stale d0 = (conversa, d)
        \<and> prelude env message False conversa d = (c2, d1)
        \<and> state4_number message c2 d1 = None \<and> state5_payment message c2 d1 = None
        \<and> state6_confirm env message c2 d1 = None \<and> image_request env message c2 d1 = None
        \<longrightarrow>
        fst (processMessageInternally env userPhone message False conversa d)
          = new_response
              (state (fst (advance_state (TEXT_FORMAT @ b @ END_TAG) message
                             (push_msg Bot (TEXT_FORMAT @ b @ END_TAG) c2))))
              (TEXT_FORMAT @ b @ END_TAG)
        \<and> fst (processTextMessage env userPhone message stale d0)
          = (if js_trim b = [] then [] else [js_trim b]))"
proof (intro conjI impI)
  show "ensure_format b = TEXT_FORMAT @ b @ END_TAG"
    by (rule ensure_format_untagged [OF assms])
  show "llm_stage env conversa d = (TEXT_FORMAT @ b @ END_TAG, conversa, d)"
    if "chat_completion env = Content b"
    by (rule llm_stage_untagged [OF assms that])
  show "processTaggedResponse env (TEXT_FORMAT @ b @ END_TAG) message conversa cfg d
       = (new_response (state conversa) (TEXT_FORMAT @ b @ END_TAG), conversa, d)"
    by (rule pTR_wrapped [OF assms])
  show t: "text_messages (TEXT_FORMAT @ b @ END_TAG) = (if js_trim b = [] then [] else [js_trim b])"
    by (rule text_messages_wrapped [OF assms])
  assume a: "chat_completion env = Content b \<and> userPhone \<noteq> [] \<and> \<not> is_reset message
        \<and> handleAudioRequest env userPhone message d0 = None
        \<and> getOrCreateConversation userPhone message stale d0 = (conversa, d)
        \<and> prelude env message False conversa d = (c2, d1)
        \<and> state4_number message c2 d1 = None \<and> state5_payment message c2 d1 = None
        \<and> state6_confirm env message c2 d1 = None \<and> image_request env message c2 d1 = None"
  then have pmi: "processMessageInternally env userPhone message False conversa d
      = (case advance_state (TEXT_FORMAT @ b @ END_TAG) message
                (push_msg Bot (TEXT_FORMAT @ b @ END_TAG) c2) of
           (c4, logs) \<Rightarrow>
             (new_response (state c4) (TEXT_FORMAT @ b @ END_TAG), save_conversa c4 d1, logs))"
    by (intro processMessageInternally_untagged [OF assms]) simp_all
  then show r: "fst (processMessageInternally env userPhone message False conversa d)
          = new_response
              (state (fst (advance_state (TEXT_FORMAT @ b @ END_TAG) message
                             (push_msg Bot (TEXT_FORMAT @ b @ END_TAG) c2))))
              (TEXT_FORMAT @ b @ END_TAG)"
    by (simp split: prod.splits)
  obtain c4 logs where "advance_state (TEXT_FORMAT @ b @ END_TAG) message
      (push_msg Bot (TEXT_FORMAT @ b @ END_TAG) c2) = (c4, logs)"
    by (cases "advance_state (TEXT_FORMAT @ b @ END_TAG) message
      (push_msg Bot (TEXT_FORMAT @ b @ END_TAG) c2)")
  with pmi have x: "processMessageInternally env userPhone message False conversa d
      = (new_response (state c4) (TEXT_FORMAT @ b @ END_TAG), save_conversa c4 d1, logs)"
    by simp
  have n: "TEXT_FORMAT \<noteq> []" by (simp add: TEXT_FORMAT_def)
  from a have "processTextMessage env userPhone message stale d0
      = (text_messages (TEXT_FORMAT @ b @ END_TAG), save_conversa c4 d1, logs)"
    by (simp add: processTextMessage_def x new_response_def n)
  with t show "fst (processTextMessage env userPhone message stale d0)
          = (if js_trim b = [] then [] else [js_trim b])"
    by simp
qed

theorem C8_untagged_reply_witness:
  "untagged '' Ola! Qual sabor? ''
   \<and> ensure_format '' Ola! Qual sabor? '' = ''[TEXT_FORMAT] Ola! Qual sabor? [/END]''
   \<and> fst (processTextMessage (ex_env [] (Content '' Ola! Qual sabor? '')) ''5511999990000''
            ''boa noite'' False (ex_db (ex_conversa 1)))
     = [''Ola! Qual sabor?'']"
proof -
  let ?b = "'' Ola! Qual sabor? ''"
  let ?env = "ex_env [] (Content ?b)"
  let ?c2 = "push_msg User ''boa noite'' (ex_conversa 1)"
  let ?d = "ex_db (ex_conversa 1)"
  have u: "untagged ?b"
    by code_simp
  have w: "TEXT_FORMAT @ ?b @ END_TAG = ''[TEXT_FORMAT] Ola! Qual sabor? [/END]''"
    by (simp add: TEXT_FORMAT_def END_TAG_def)
  have t: "js_trim ?b = ''Ola! Qual sabor?''"
    by code_simp
  have m: "chat_completion ?env = Content ?b"
    by (simp add: ex_env_def)
  have p: "''5511999990000'' \<noteq> []" "\<not> is_reset ''boa noite''"
    by code_simp+
  have h: "handleAudioRequest ?env ''5511999990000'' ''boa noite'' ?d = None"
    by code_simp
  have g: "getOrCreateConversation ''5511999990000'' ''boa noite'' False ?d = (ex_conversa 1, ?d)"
    by code_simp
  have pre: "prelude ?env ''boa noite'' False (ex_conversa 1) ?d = (?c2, ?d)"
    by code_simp
  have i: "state4_number ''boa noite'' ?c2 ?d = None" "state5_payment ''boa noite'' ?c2 ?d = None"
    "state6_confirm ?env ''boa noite'' ?c2 ?d = None"
    "image_request ?env ''boa noite'' ?c2 ?d = None"
    by code_simp+
  note C8_untagged_reply
    [OF u, where env = ?env and userPhone = "''5511999990000''" and message = "''boa noite''"
       and ?d0.0 = ?d and stale = False and conversa = "ex_conversa 1" and d = ?d
       and ?c2.0 = ?c2 and ?d1.0 = ?d]
  with m p h g pre i t w
  have "ensure_format ?b = ''[TEXT_FORMAT] Ola! Qual sabor? [/END]''
     \<and> fst (processTextMessage ?env ''5511999990000'' ''boa noite'' False ?d)
       = [''Ola! Qual sabor?'']"
    by simp
  with u show ?thesis by simp
qed

text \<open>
  C8 as the specification states it has the entire text delivered. An answer with a stray
  closing tag has none of the four tagged blocks and is wrapped, but the block that is sent
  ends at the first closing tag: the customer gets the text before it and loses the rest.
\<close>

theorem C8_counterexample:
  "\<not> has_format ''oi[/END]tchau''
   \<and> ensure_format ''oi[/END]tchau'' = ''[TEXT_FORMAT]oi[/END]tchau[/END]''
   \<and> fst (processTextMessage (ex_env [] (Content ''oi[/END]tchau'')) ''5511999990000''
            ''boa noite'' False (ex_db (ex_conversa 1)))
     = [''oi'']"
  by code_simp

section \<open>C6: the prompts of state 5\<close>

text \<open>
  C6. In state 5, for a message other than \<^verbatim>\<open>5\<close>: the canned payment prompt is returned,
  without a call of the model, when the conversation holds no earlier message of the
  customer at all; the test of the source counts every message of the customer in the
  conversation, not those of state 5. When the conversation holds one, a message that
  mentions the card without credit or debit is answered with the clarification prompt and
  the state stays 5, and any other message is not intercepted.
\<close>

theorem C6_state5_interception:
  assumes "userPhone \<noteq> []" and "\<not> is_reset message"
    and "state conversa = 5" and "message \<noteq> ''5''"
    and "prelude env message isAudio conversa d = (c2, d1)"
  shows "(filter (\<lambda>x. tipo x = User) (mensagens conversa) = [] \<longrightarrow>
            processMessageInternally env userPhone message isAudio conversa d
              = (reply (TEXT_FORMAT @ msg_payment_options @ END_TAG) None,
                 save_conversa (push_msg Bot (TEXT_FORMAT @ msg_payment_options @ END_TAG) c2) d1,
                 []))
       \<and> (filter (\<lambda>x. tipo x = User) (mensagens conversa) \<noteq> []
            \<and> (js_includes (toLowerCase message) (''cart'' @ a_tilde @ ''o'')
                 \<or> js_includes (toLowerCase message) ''cartao'')
            \<and> \<not> js_includes (toLowerCase message) ''credito''
            \<and> \<not> js_includes (toLowerCase message) (''cr'' @ e_acute @ ''dito'')
            \<and> \<not> js_includes (toLowerCase message) ''debito''
            \<and> \<not> js_includes (toLowerCase message) (''d'' @ e_acute @ ''bito'') \<longrightarrow>
            processMessageInternally env userPhone message isAudio conversa d
              = (reply (TEXT_FORMAT @ msg_cartao @ END_TAG) None,
                 save_conversa (push_msg Bot (TEXT_FORMAT @ msg_cartao @ END_TAG) c2) d1, [])
            \<and> state (push_msg Bot (TEXT_FORMAT @ msg_cartao @ END_TAG) c2) = 5)
       \<and> (filter (\<lambda>x. tipo x = User) (mensagens conversa) \<noteq> []
            \<and> \<not> ((js_includes (toLowerCase message) (''cart'' @ a_tilde @ ''o'')
                     \<or> js_includes (toLowerCase message) ''cartao'')
                    \<and> \<not> js_includes (toLowerCase message) ''credito''
                    \<and> \<not> js_includes (toLowerCase message) (''cr'' @ e_acute @ ''dito'')
                    \<and> \<not> js_includes (toLowerCase message) ''debito''
                    \<and> \<not> js_includes (toLowerCase message) (''d'' @ e_acute @ ''bito'')) \<longrightarrow>
            state5_payment message c2 d1 = None)"
proof -
  note sh = prelude_shape [OF assms(5)]
  from sh(1) assms(3) have st: "state c2 = 5" by simp
  from sh(2) obtain t where ms: "mensagens c2 = mensagens conversa @ [\<lparr>tipo = User, conteudo = t\<rparr>]"
    by blast
  have len: "length (filter (\<lambda>msg. tipo msg = User \<and> state c2 = 5) (mensagens c2)) \<le> 1
      \<longleftrightarrow> filter (\<lambda>x. tipo x = User) (mensagens conversa) = []"
    by (simp add: st ms)
  have s4: "state4_number message c2 d1 = None"
    by (simp add: state4_number_def st)
  have pmi: "processMessageInternally env userPhone message isAudio conversa d
      = (r, dd, [])" if "state5_payment message c2 d1 = Some (r, dd)" for r dd
    using assms(1,2,5) s4 that by (simp add: processMessageInternally_def)
  show ?thesis
  proof (intro conjI impI)
    assume "filter (\<lambda>x. tipo x = User) (mensagens conversa) = []"
    with len assms(4) st
    have "state5_payment message c2 d1
        = Some (reply (TEXT_FORMAT @ msg_payment_options @ END_TAG) None,
                save_conversa (push_msg Bot (TEXT_FORMAT @ msg_payment_options @ END_TAG) c2) d1)"
      by (simp add: state5_payment_def Let_def)
    then show "processMessageInternally env userPhone message isAudio conversa d
              = (reply (TEXT_FORMAT @ msg_payment_options @ END_TAG) None,
                 save_conversa (push_msg Bot (TEXT_FORMAT @ msg_payment_options @ END_TAG) c2) d1,
                 [])"
      by (rule pmi)
  next
    assume a: "filter (\<lambda>x. tipo x = User) (mensagens conversa) \<noteq> []
            \<and> (js_includes (toLowerCase message) (''cart'' @ a_tilde @ ''o'')
                 \<or> js_includes (toLowerCase message) ''cartao'')
            \<and> \<not> js_includes (toLowerCase message) ''credito''
            \<and> \<not> js_includes (toLowerCase message) (''cr'' @ e_acute @ ''dito'')
            \<and> \<not> js_includes (toLowerCase message) ''debito''
            \<and> \<not> js_includes (toLowerCase message) (''d'' @ e_acute @ ''bito'')"
    with len assms(4) st
    have "state5_payment message c2 d1
        = Some (reply (TEXT_FORMAT @ msg_cartao @ END_TAG) None,
                save_conversa (push_msg Bot (TEXT_FORMAT @ msg_cartao @ END_TAG) c2) d1)"
      by (simp add: state5_payment_def Let_def)
    then show "processMessageInternally env userPhone message isAudio conversa d
              = (reply (TEXT_FORMAT @ msg_cartao @ END_TAG) None,
                 save_conversa (push_msg Bot (TEXT_FORMAT @ msg_cartao @ END_TAG) c2) d1, [])"
      by (rule pmi)
    show "state (push_msg Bot (TEXT_FORMAT @ msg_cartao @ END_TAG) c2) = 5"
      by (simp add: push_msg_def st)
  next
    assume "filter (\<lambda>x. tipo x = User) (mensagens conversa) \<noteq> []
            \<and> \<not> ((js_includes (toLowerCase message) (''cart'' @ a_tilde @ ''o'')
                     \<or> js_includes (toLowerCase message) ''cartao'')
                    \<and> \<not> js_includes (toLowerCase message) ''credito''
                    \<and> \<not> js_includes (toLowerCase message) (''cr'' @ e_acute @ ''dito'')
                    \<and> \<not> js_includes (toLowerCase message) ''debito''
                    \<and> \<not> js_includes (toLowerCase message) (''d'' @ e_acute @ ''bito''))"
    with len assms(4) st show "state5_payment message c2 d1 = None"
      by (simp add: state5_payment_def Let_def)
  qed
qed

theorem C6_state5_interception_witness:
  "resp_text (fst (processMessageInternally (ex_env [] (Content ex_troco)) ''5511999990000''
                     ''pix'' False ex_sem_historico (ex_db ex_sem_historico)))
     = TEXT_FORMAT @ msg_payment_options @ END_TAG
   \<and> resp_text (fst (processMessageInternally (ex_env [] (Content ex_troco)) ''5511999990000''
                       ''cartao'' False (ex_conversa 5) (ex_db (ex_conversa 5))))
     = TEXT_FORMAT @ msg_cartao @ END_TAG
   \<and> state5_payment ''quero pagar na entrega''
         (push_msg User ''quero pagar na entrega'' (ex_conversa 5)) (ex_db (ex_conversa 5))
     = None"
proof -
  let ?env = "ex_env [] (Content ex_troco)"
  have p: "''5511999990000'' \<noteq> []" by simp
  have r: "\<not> is_reset ''pix''" "\<not> is_reset ''cartao''" "\<not> is_reset ''quero pagar na entrega''"
    by code_simp+
  have n: "''pix'' \<noteq> ''5''" "''cartao'' \<noteq> ''5''" "''quero pagar na entrega'' \<noteq> ''5''"
    by simp_all
  have s: "state ex_sem_historico = 5" "state (ex_conversa 5) = 5"
    by (simp_all add: ex_sem_historico_def ex_conversa_def)
  have pre1: "prelude ?env ''pix'' False ex_sem_historico (ex_db ex_sem_historico)
      = (push_msg User ''pix'' ex_sem_historico, ex_db ex_sem_historico)"
    by code_simp
  have pre2: "prelude ?env ''cartao'' False (ex_conversa 5) (ex_db (ex_conversa 5))
      = (push_msg User ''cartao'' (ex_conversa 5), ex_db (ex_conversa 5))"
    by code_simp
  have pre3: "prelude ?env ''quero pagar na entrega'' False (ex_conversa 5) (ex_db (ex_conversa 5))
      = (push_msg User ''quero pagar na entrega'' (ex_conversa 5), ex_db (ex_conversa 5))"
    by code_simp
  have h1: "filter (\<lambda>x. tipo x = User) (mensagens ex_sem_historico) = []"
    by (simp add: ex_sem_historico_def)
  have h2: "filter (\<lambda>x. tipo x = User) (mensagens (ex_conversa 5)) \<noteq> []"
    by (simp add: ex_conversa_def)
  have k2: "js_includes (toLowerCase ''cartao'') ''cartao''"
    "\<not> js_includes (toLowerCase ''cartao'') ''credito''"
    "\<not> js_includes (toLowerCase ''cartao'') (''cr'' @ e_acute @ ''dito'')"
    "\<not> js_includes (toLowerCase ''cartao'') ''debito''"
    "\<not> js_includes (toLowerCase ''cartao'') (''d'' @ e_acute @ ''bito'')"
    by code_simp+
  have k3: "\<not> js_includes (toLowerCase ''quero pagar na entrega'') (''cart'' @ a_tilde @ ''o'')"
    "\<not> js_includes (toLowerCase ''quero pagar na entrega'') ''cartao''"
    by code_simp+
  from C6_state5_interception [OF p r(1) s(1) n(1) pre1] h1
  have 1: "resp_text (fst (processMessageInternally ?env ''5511999990000'' ''pix'' False
                            ex_sem_historico (ex_db ex_sem_historico)))
     = TEXT_FORMAT @ msg_payment_options @ END_TAG"
    by (simp add: reply_def)
  from C6_state5_interception [OF p r(2) s(2) n(2) pre2] h2 k2
  have 2: "resp_text (fst (processMessageInternally ?env ''5511999990000'' ''cartao'' False
                            (ex_conversa 5) (ex_db (ex_conversa 5))))
     = TEXT_FORMAT @ msg_cartao @ END_TAG"
    by (simp add: reply_def)
  from C6_state5_interception [OF p r(3) s(2) n(3) pre3] h2 k3
  have 3: "state5_payment ''quero pagar na entrega''
         (push_msg User ''quero pagar na entrega'' (ex_conversa 5)) (ex_db (ex_conversa 5))
     = None"
    by simp
  from 1 2 3 show ?thesis by (intro conjI)
qed

text \<open>
  The first message of the customer in state 5, in a conversation that has an earlier
  message of the customer: the turn is not intercepted, the model is called and its
  answer, here a question about change, is the response.
\<close>

lemma first_message_in_state5_reaches_model:
  "fst (processMessageInternally (ex_env [] (Content ex_troco)) ''5511999990000''
          ''quero pagar na entrega'' False (ex_conversa 5) (ex_db (ex_conversa 5)))
     = new_response 5 ex_troco"
  by code_simp

section \<open>C5: the house number\<close>

text \<open>
  C5. A conversation in state 4 holds a resolved address with a street; the customer sends
  a message that is only digits, in which the postal-code lookup of the turn resolves
  nothing. Then the stored formatted address has its first occurrence of the street
  replaced, by \<^verbatim>\<open>String.prototype.replace\<close>, with the street, a comma and the trimmed message
  (the street, a comma and the trimmed message alone when no formatted address is stored);
  the result is the formatted address of the conversation in memory and in the store, the
  stored conversation is in state 5, and the response is the canned text with that address
  and the payment options, in state 5, whatever the model would have answered. When the
  street has no dollar sign, which \<^verbatim>\<open>replace\<close> reads as a pattern, and the stored formatted
  address is empty or contains the street, the result contains the street, a comma and the
  trimmed message.
\<close>

theorem C5_house_number:
  assumes "userPhone \<noteq> []" and "state conversa = 4" and "only_digits message"
    and "detectAndValidateCEP env message = None"
    and "addressData conversa = Some ad" and "components ad = Some comps"
    and "street comps = Text st" and "st \<noteq> []"
  shows "\<exists>formatted c1.
           processMessageInternally env userPhone message isAudio conversa d
             = (reply (TEXT_FORMAT @ msg_address_registered formatted @ END_TAG) (Some 5),
                save_conversa c1 d, [])
           \<and> formatted
               = (if formattedAddress ad \<noteq> [] then
                    js_replace (formattedAddress ad) st (st @ '', '' @ js_trim message)
                  else st @ '', '' @ js_trim message)
           \<and> (CHR ''$'' \<notin> set st
                \<and> (formattedAddress ad = [] \<or> js_includes (formattedAddress ad) st)
                \<longrightarrow> js_includes formatted (st @ '', '' @ js_trim message))
           \<and> js_includes (msg_address_registered formatted) msg_payment_options
           \<and> state c1 = 5 \<and> cid c1 = cid conversa
           \<and> addressData c1 = Some (ad\<lparr>formattedAddress := formatted\<rparr>)
           \<and> map_option (\<lambda>x. (state x, map_option formattedAddress (addressData x)))
                 (find (\<lambda>x. cid x = cid conversa) (conversas (save_conversa c1 d)))
               = Some (5, Some formatted)
           \<and> processMessageInternally (env\<lparr>chat_completion := x, enriched_completion := y\<rparr>)
                 userPhone message isAudio conversa d
               = processMessageInternally env userPhone message isAudio conversa d"
proof -
  let ?um = "if isAudio then ''['' @ [CHR 0xC3, CHR 0x81] @ ''udio]: '' @ message else message"
  let ?c2 = "push_msg User ?um conversa"
  let ?f = "if formattedAddress ad \<noteq> [] then
              js_replace (formattedAddress ad) st (st @ '', '' @ js_trim message)
            else st @ '', '' @ js_trim message"
  let ?t = "TEXT_FORMAT @ msg_address_registered ?f @ END_TAG"
  let ?c1 = "push_msg Bot ?t
               (?c2\<lparr>addressData := Some (ad\<lparr>formattedAddress := ?f\<rparr>),
                     pedidoData := map_option (\<lambda>pd. pd\<lparr>endereco := ?f\<rparr>) (pedidoData ?c2),
                     state := 5\<rparr>)"
  have nr: "\<not> is_reset message" by (rule only_digits_not_reset [OF assms(3)])
  have pre: "prelude e message isAudio conversa d = (?c2, d)"
    if "detectAndValidateCEP e message = None" for e :: "'a env"
    using that by (simp add: prelude_def Let_def)
  have s4: "state4_number message ?c2 d = Some (reply ?t (Some 5), save_conversa ?c1 d)"
    using assms(2,3,5,6,7,8) by (simp add: state4_number_def push_msg_def Let_def)
  have pmi: "processMessageInternally e userPhone message isAudio conversa d
      = (reply ?t (Some 5), save_conversa ?c1 d, [])"
    if "detectAndValidateCEP e message = None" for e :: "'a env"
    using assms(1) nr pre [OF that] s4
    by (simp add: processMessageInternally_def)
  have cep: "detectAndValidateCEP (env\<lparr>chat_completion := x, enriched_completion := y\<rparr>) message
      = None"
    using assms(4) by (simp add: detectAndValidateCEP_def cong: option.case_cong)
  have 1: "processMessageInternally env userPhone message isAudio conversa d
             = (reply (TEXT_FORMAT @ msg_address_registered ?f @ END_TAG) (Some 5),
                save_conversa ?c1 d, [])"
    by (rule pmi [OF assms(4)])
  have 2: "CHR ''$'' \<notin> set st
             \<and> (formattedAddress ad = [] \<or> js_includes (formattedAddress ad) st)
             \<longrightarrow> js_includes ?f (st @ '', '' @ js_trim message)"
    using state4_formatted [OF assms(3), of st "formattedAddress ad"] by blast
  have 3: "js_includes (msg_address_registered ?f) msg_payment_options"
    by (rule msg_address_registered_options)
  have 4: "state ?c1 = 5" "cid ?c1 = cid conversa"
    "addressData ?c1 = Some (ad\<lparr>formattedAddress := ?f\<rparr>)"
    by (simp_all add: push_msg_def)
  from save_conversa_find [of ?c1 d] obtain old where
    "find (\<lambda>x. cid x = cid ?c1) (conversas (save_conversa ?c1 d)) = Some (written ?c1 old)"
    by blast
  then have 5: "map_option (\<lambda>x. (state x, map_option formattedAddress (addressData x)))
                 (find (\<lambda>x. cid x = cid conversa) (conversas (save_conversa ?c1 d)))
               = Some (5, Some ?f)"
    by (simp add: 4 push_msg_def)
  have 6: "processMessageInternally (env\<lparr>chat_completion := x, enriched_completion := y\<rparr>)
                 userPhone message isAudio conversa d
               = processMessageInternally env userPhone message isAudio conversa d"
    by (simp only: pmi [OF cep] pmi [OF assms(4)])
  from 1 2 3 4 5 6 show ?thesis
    by (intro exI [of _ ?f] exI [of _ ?c1] conjI refl)
qed

theorem C5_house_number_witness:
  "fst (processMessageInternally (ex_env [] (Content ex_troco)) ''5511999990000'' ''1234''
          False ex_endereco4 (ex_db ex_endereco4))
     = reply (TEXT_FORMAT
                @ msg_address_registered
                    ''Rua Augusta, 1234, Consolacao, Sao Paulo - SP, 01305-000''
                @ END_TAG) (Some 5)
   \<and> js_includes ''Rua Augusta, 1234, Consolacao, Sao Paulo - SP, 01305-000''
       ''Rua Augusta, 1234''
   \<and> map_option (\<lambda>x. (state x, map_option formattedAddress (addressData x)))
         (find (\<lambda>x. cid x = 0)
            (conversas (fst (snd (processMessageInternally (ex_env [] (Content ex_troco))
                                    ''5511999990000'' ''1234'' False ex_endereco4
                                    (ex_db ex_endereco4))))))
     = Some (5, Some ''Rua Augusta, 1234, Consolacao, Sao Paulo - SP, 01305-000'')"
proof -
  let ?env = "ex_env [] (Content ex_troco)"
  let ?comps = "\<lparr>street = Text ''Rua Augusta'', neighborhood = Text ''Consolacao'',
                 city = Text ''Sao Paulo'', comp_state = Text ''SP'',
                 cep = Text ''01305-000''\<rparr>"
  let ?fa = "''Rua Augusta, 1234, Consolacao, Sao Paulo - SP, 01305-000''"
  have p: "''5511999990000'' \<noteq> []" by simp
  have s: "state ex_endereco4 = 4" "cid ex_endereco4 = 0"
    by (simp_all add: ex_endereco4_def ex_conversa_def)
  have o: "only_digits ''1234''"
    by code_simp
  have c: "detectAndValidateCEP ?env ''1234'' = None"
    by code_simp
  have a: "addressData ex_endereco4 = Some ex_address"
    by (simp add: ex_endereco4_def)
  have k: "components ex_address = Some ?comps"
    by (simp add: ex_address_def)
  have st: "street ?comps = Text ''Rua Augusta''" "''Rua Augusta'' \<noteq> []"
    by simp_all
  have d: "CHR ''$'' \<notin> set ''Rua Augusta''"
    "formattedAddress ex_address = [] \<or> js_includes (formattedAddress ex_address) ''Rua Augusta''"
    by code_simp+
  have f: "(if formattedAddress ex_address \<noteq> [] then
              js_replace (formattedAddress ex_address) ''Rua Augusta''
                (''Rua Augusta'' @ '', '' @ js_trim ''1234'')
            else ''Rua Augusta'' @ '', '' @ js_trim ''1234'') = ?fa"
    "''Rua Augusta'' @ '', '' @ js_trim ''1234'' = ''Rua Augusta, 1234''"
    by code_simp+
  from C5_house_number [OF p s(1) o c a k st, of False "ex_db ex_endereco4" ApiError ApiError]
  obtain formatted c1 where
    e: "processMessageInternally ?env ''5511999990000'' ''1234'' False ex_endereco4
          (ex_db ex_endereco4)
        = (reply (TEXT_FORMAT @ msg_address_registered formatted @ END_TAG) (Some 5),
           save_conversa c1 (ex_db ex_endereco4), [])"
    and g: "formatted
        = (if formattedAddress ex_address \<noteq> [] then
             js_replace (formattedAddress ex_address) ''Rua Augusta''
               (''Rua Augusta'' @ '', '' @ js_trim ''1234'')
           else ''Rua Augusta'' @ '', '' @ js_trim ''1234'')"
    and i: "CHR ''$'' \<notin> set ''Rua Augusta''
        \<and> (formattedAddress ex_address = []
             \<or> js_includes (formattedAddress ex_address) ''Rua Augusta'')
        \<longrightarrow> js_includes formatted (''Rua Augusta'' @ '', '' @ js_trim ''1234'')"
    and h: "map_option (\<lambda>x. (state x, map_option formattedAddress (addressData x)))
              (find (\<lambda>x. cid x = cid ex_endereco4)
                 (conversas (save_conversa c1 (ex_db ex_endereco4))))
            = Some (5, Some formatted)"
    by blast
  from g f(1) have fm: "formatted = ?fa" by simp
  from e fm have 1: "fst (processMessageInternally ?env ''5511999990000'' ''1234'' False
                            ex_endereco4 (ex_db ex_endereco4))
      = reply (TEXT_FORMAT @ msg_address_registered ?fa @ END_TAG) (Some 5)"
    by simp
  from i d fm f(2) have 2: "js_includes ?fa ''Rua Augusta, 1234''" by simp
  from h e fm s(2) have 3: "map_option (\<lambda>x. (state x, map_option formattedAddress (addressData x)))
         (find (\<lambda>x. cid x = 0)
            (conversas (fst (snd (processMessageInternally ?env ''5511999990000'' ''1234''
                                    False ex_endereco4 (ex_db ex_endereco4))))))
     = Some (5, Some ?fa)"
    by simp
  from 1 2 3 show ?thesis by (intro conjI)
qed

text \<open>
  C5 as the specification states it covers every message that is only digits. A postal
  code is such a message. When the lookup of the turn resolves it, the stored address is
  replaced before the number is looked at; here the answer of the lookup has no street, so
  that the turn is not intercepted and the response is the answer of the model.
\<close>

theorem C5_counterexample:
  "state ex_endereco4 = 4
   \<and> map_option street (components (the (addressData ex_endereco4))) = Some (Text ''Rua Augusta'')
   \<and> only_digits ''69900000''
   \<and> fst (processMessageInternally ((ex_env [] (Content ex_troco))\<lparr>brasilapi := ex_cep_sem_rua\<rparr>)
            ''5511999990000'' ''69900000'' False ex_endereco4 (ex_db ex_endereco4))
     = new_response 5 ex_troco"
  by code_simp

text \<open>
  Line 2254 writes the new address into the staged order by changing, in place, the object
  that the \<^verbatim>\<open>Mixed\<close> path \<^verbatim>\<open>pedidoData\<close> holds; the saves that follow do not write that path.
  Here the conversation of the witness has an order staged: after the turn the stored
  conversation has the new formatted address, and its staged order the old one.
\<close>

lemma house_number_not_written_to_staged_order:
  "map_option (\<lambda>x. (map_option formattedAddress (addressData x),
                   map_option endereco (pedidoData x)))
     (find (\<lambda>x. cid x = 0)
        (conversas (fst (snd (processMessageInternally (ex_env [] (Content ex_troco))
                                ''5511999990000'' ''1234'' False
                                (ex_endereco4\<lparr>pedidoData := Some ex_pedido_sem_numero\<rparr>)
                                (ex_db (ex_endereco4\<lparr>pedidoData :=
                                                       Some ex_pedido_sem_numero\<rparr>)))))))
   = Some (Some ''Rua Augusta, 1234, Consolacao, Sao Paulo - SP, 01305-000'',
           Some ''Rua Augusta'')"
  by code_simp


section \<open>C2: the commit in state 6\<close>


lemma kelvin_sign_is_affirmative:
  "toLowerCase (''O'' @ [CHR 0xE2, CHR 0x84, CHR 0xAA]) = ''ok''"
  "is_affirmative (''O'' @ [CHR 0xE2, CHR 0x84, CHR 0xAA])"
  by code_simp+




section \<open>C4: the state machine\<close>

text \<open>
  C4. Whatever the sequence of requests, no stored conversation goes beyond state 7 when
  none was beyond it before. \<^verbatim>\<open>processTaggedResponse\<close> keeps a state within 7 and lowers it only
  to 4, the state in which the address is asked again. On the path of a turn that consults
  the model (staging, state step, tagged reply), a conversation that enters in a state up to
  6 leaves in a state that is at least the one it entered in, or in state 4, whether the
  tagged reply is processed on the conversation as the state step left it or as it is in
  memory after the save that follows that step. A reset
  command makes \<^verbatim>\<open>getOrCreateConversation\<close> return a conversation created in state 0 and
  stored, and \<^verbatim>\<open>/api/message\<close> answers it without touching any other. In state 7 the state
  step leaves the conversation as it is and logs the alert exactly when there is no
  \<^verbatim>\<open>pedidoId\<close>.
\<close>

theorem C4_state_machine:
  "(states_bounded d \<longrightarrow> states_bounded (serve_all rqs d))
   \<and> (state c \<le> 7 \<and> processTaggedResponse env b u c cfg d = (r1, c1, d1) \<longrightarrow>
        state c1 \<le> 7 \<and> (state c1 < state c \<longrightarrow> state c1 = 4))
   \<and> (state c2 \<le> 6 \<and> llm_stage env c2 dd = (b', c3, d3)
        \<and> advance_state b' m (push_msg Bot b' c3) = (c4, logs)
        \<and> (k = c4 \<or> k = after_save c4)
        \<and> processTaggedResponse env b' m k cfg (save_conversa c4 d3) = (r5, c5, d5) \<longrightarrow>
        state c5 \<le> 7 \<and> (state c2 \<le> state c5 \<or> state c5 = 4))
   \<and> (is_reset m \<and> phone \<noteq> [] \<longrightarrow>
        getOrCreateConversation phone m stale d
          = (new_conversa phone d, save_conversa (new_conversa phone d) d)
        \<and> state (new_conversa phone d) = 0
        \<and> api_message env phone m isAudio stale d
          = (reply msg_reset None, save_conversa (new_conversa phone d) d, []))
   \<and> (state c = 7 \<longrightarrow>
        advance_state b m c
          = (c, if pedidoId c = None then [Alerta_estado7_sem_pedidoId] else []))"
proof (intro conjI impI)
  show "states_bounded (serve_all rqs d)" if "states_bounded d"
    by (rule serve_all_bounded [OF that])
next
  assume a: "state c \<le> 7 \<and> processTaggedResponse env b u c cfg d = (r1, c1, d1)"
  then have p: "processTaggedResponse env b u c cfg d = (r1, c1, d1)" by simp
  from pTR_state(1) [OF p] a show "state c1 \<le> 7" by auto
  assume "state c1 < state c"
  with pTR_state(1) [OF p] a show "state c1 = 4" by auto
next
  assume a: "state c2 \<le> 6 \<and> llm_stage env c2 dd = (b', c3, d3)
        \<and> advance_state b' m (push_msg Bot b' c3) = (c4, logs)
        \<and> (k = c4 \<or> k = after_save c4)
        \<and> processTaggedResponse env b' m k cfg (save_conversa c4 d3) = (r5, c5, d5)"
  then have l: "llm_stage env c2 dd = (b', c3, d3)"
    and s: "advance_state b' m (push_msg Bot b' c3) = (c4, logs)"
    and k: "k = c4 \<or> k = after_save c4"
    and p: "processTaggedResponse env b' m k cfg (save_conversa c4 d3) = (r5, c5, d5)"
    and c: "state c2 \<le> 6"
    by simp_all
  from model_path_state(2) [OF l s k p] c show "state c5 \<le> 7" by simp
  from model_path_state(1) [OF l s k p c] show "state c2 \<le> state c5 \<or> state c5 = 4" .
next
  assume a: "is_reset m \<and> phone \<noteq> []"
  then show g: "getOrCreateConversation phone m stale d
          = (new_conversa phone d, save_conversa (new_conversa phone d) d)"
    by (simp add: getOrCreateConversation_def)
  show "state (new_conversa phone d) = 0" by (simp add: new_conversa_def)
  from a g show "api_message env phone m isAudio stale d
          = (reply msg_reset None, save_conversa (new_conversa phone d) d, [])"
    by (simp add: api_message_def processMessageInternally_def)
next
  assume "state c = 7"
  then show "advance_state b m c
          = (c, if pedidoId c = None then [Alerta_estado7_sem_pedidoId] else [])"
    by (simp add: advance_state_def)
qed

theorem C4_state_machine_witness:
  "states_bounded
     (serve_all [Api (ex_env [] (Content ex_sem_numero_json)) ''5511999990000''
                   ''mudar endereco'' False False,
                 WhatsApp (ex_env [] ApiError) ''5511999990000'' ''reiniciar'' False]
        (ex_db ex_staged))
   \<and> state (fst (snd (processTaggedResponse (ex_env [] ApiError) ex_sem_numero_json ''ok''
                          ex_staged None (ex_db ex_staged)))) = 4
   \<and> (let l = llm_stage (ex_env [] (Content ex_sem_numero_json)) ex_staged (ex_db ex_staged);
           a = advance_state (fst l) ''mudar endereco'' (push_msg Bot (fst l) (fst (snd l)));
           p = processTaggedResponse (ex_env [] (Content ex_sem_numero_json)) (fst l)
                 ''mudar endereco'' (after_save (fst a)) None
                 (save_conversa (fst a) (snd (snd l)))
       in state (fst (snd p)) \<le> 7
          \<and> (state ex_staged \<le> state (fst (snd p)) \<or> state (fst (snd p)) = 4))
   \<and> api_message (ex_env [] ApiError) ''5511999990000'' ''reiniciar'' False False
         (ex_db ex_staged)
     = (reply msg_reset None,
        save_conversa (new_conversa ''5511999990000'' (ex_db ex_staged)) (ex_db ex_staged), [])
   \<and> advance_state [] [] (ex_conversa 7) = (ex_conversa 7, [Alerta_estado7_sem_pedidoId])"
proof -
  let ?e0 = "ex_env [] ApiError"
  let ?e1 = "ex_env [] (Content ex_sem_numero_json)"
  let ?d = "ex_db ex_staged"
  let ?x = "processTaggedResponse ?e0 ex_sem_numero_json ''ok'' ex_staged None ?d"
  let ?l = "llm_stage ?e1 ex_staged ?d"
  let ?a = "advance_state (fst ?l) ''mudar endereco'' (push_msg Bot (fst ?l) (fst (snd ?l)))"
  let ?p = "processTaggedResponse ?e1 (fst ?l) ''mudar endereco'' (after_save (fst ?a)) None
              (save_conversa (fst ?a) (snd (snd ?l)))"
  have b: "states_bounded ?d"
    by code_simp
  have s: "state ex_staged = 6"
    by (simp add: ex_staged_def ex_conversa_def)
  have lt: "state (fst (snd ?x)) < state ex_staged"
    by code_simp
  have r: "is_reset ''reiniciar''"
    by code_simp
  have s7: "state (ex_conversa 7) = 7" "pedidoId (ex_conversa 7) = None"
    by (simp_all add: ex_conversa_def)
  from C4_state_machine
         [where d = ?d
            and rqs = "[Api ?e1 ''5511999990000'' ''mudar endereco'' False False,
                        WhatsApp ?e0 ''5511999990000'' ''reiniciar'' False]"] b
  have 1: "states_bounded
     (serve_all [Api ?e1 ''5511999990000'' ''mudar endereco'' False False,
                 WhatsApp ?e0 ''5511999990000'' ''reiniciar'' False] ?d)"
    by simp
  have ex: "state ex_staged \<le> 7 \<and> ?x = (fst ?x, fst (snd ?x), snd (snd ?x))"
    by (simp add: s)
  note C4_state_machine
         [where c = ex_staged and env = ?e0 and b = ex_sem_numero_json and u = "''ok''"
            and cfg = None and d = ?d and ?r1.0 = "fst ?x" and ?c1.0 = "fst (snd ?x)"
            and ?d1.0 = "snd (snd ?x)", THEN conjunct2, THEN conjunct1, THEN mp, OF ex,
          THEN conjunct2, THEN mp, OF lt]
  then have 2: "state (fst (snd ?x)) = 4" .
  have em: "state ex_staged \<le> 6 \<and> ?l = (fst ?l, fst (snd ?l), snd (snd ?l))
      \<and> ?a = (fst ?a, snd ?a)
      \<and> (after_save (fst ?a) = fst ?a \<or> after_save (fst ?a) = after_save (fst ?a))
      \<and> ?p = (fst ?p, fst (snd ?p), snd (snd ?p))"
    by (simp add: s)
  note C4_state_machine
         [where ?c2.0 = ex_staged and env = ?e1 and dd = ?d and b' = "fst ?l"
            and ?c3.0 = "fst (snd ?l)" and ?d3.0 = "snd (snd ?l)" and m = "''mudar endereco''"
            and ?c4.0 = "fst ?a" and logs = "snd ?a" and k = "after_save (fst ?a)"
            and cfg = None and ?r5.0 = "fst ?p"
            and ?c5.0 = "fst (snd ?p)" and ?d5.0 = "snd (snd ?p)",
          THEN conjunct2, THEN conjunct2, THEN conjunct1, THEN mp, OF em]
  then have 3: "state (fst (snd ?p)) \<le> 7
      \<and> (state ex_staged \<le> state (fst (snd ?p)) \<or> state (fst (snd ?p)) = 4)" .
  from C4_state_machine
         [where m = "''reiniciar''" and phone = "''5511999990000''" and d = ?d and env = ?e0
            and stale = False and isAudio = False] r
  have 4: "api_message ?e0 ''5511999990000'' ''reiniciar'' False False ?d
     = (reply msg_reset None,
        save_conversa (new_conversa ''5511999990000'' ?d) ?d, [])"
    by simp
  from C4_state_machine [where c = "ex_conversa 7" and b = "[]" and m = "[]"] s7
  have 5: "advance_state [] [] (ex_conversa 7) = (ex_conversa 7, [Alerta_estado7_sem_pedidoId])"
    by simp
  from 1 2 3 4 5 show ?thesis by (simp only: Let_def)
qed

text \<open>
  C4 as the specification states it lets the state decrease on a reset only. Here the
  conversation is in state 6 and the model answers with an order whose address has no
  number: the conversation is stored in state 4, and the message was no reset command.
\<close>

theorem C4_counterexample:
  "state ex_staged = 6 \<and> \<not> is_reset ''mudar endereco''
   \<and> map state
         (conversas (fst (snd (api_message (ex_env [] (Content ex_sem_numero_json))
                                 ''5511999990000'' ''mudar endereco'' False False
                                 (ex_db ex_staged)))))
     = [4]"
  by code_simp

end
